(* ===== verification/Prelude.thy ===== *)
theory Prelude
  imports Main "HOL-Library.Word"
begin

text \<open>
  Shared vocabulary of the development: the result type of Go functions that return an
  error or panic, Go's fixed-width integers, byte strings, the hexadecimal encoding of
  \<^verbatim>\<open>encoding/hex\<close>, and the generic lemmas on lists that several components use.
\<close>

section \<open>Collections of rules\<close>

named_theorems go_simps \<open>evaluation rules of the Go vocabulary (results, integers)\<close>
named_theorems size_simps \<open>rules that compute byte sizes of transaction lists\<close>
named_theorems handler_defs \<open>definitions of the handlers a proof may unfold\<close>

section \<open>Errors, panics and results\<close>

text \<open>
  A Go error value. \<open>ErrMsg\<close> is \<^verbatim>\<open>errors.New\<close> or \<^verbatim>\<open>fmt.Errorf\<close> without a \<open>%w\<close> verb (the
  string is the fixed part of the message), \<open>ErrWrap\<close> is \<^verbatim>\<open>fmt.Errorf\<close> with \<open>%w\<close> or
  \<^verbatim>\<open>errors.Wrap\<close>, and the remaining constructors are the sentinel values and error types
  that the code compares with.
\<close>

datatype error =
    ErrMsg string
  | ErrWrap string error
  | ErrTxNotFound
  | ErrMempoolTxMaxCapacity
  | FrontRunningError

text \<open>\<^verbatim>\<open>errors.Is(err, target)\<close>: the target occurs on the chain of wrapped errors.\<close>

fun errors_Is :: "error \<Rightarrow> error \<Rightarrow> bool" where
  "errors_Is (ErrWrap s e) t = (ErrWrap s e = t \<or> errors_Is e t)"
| "errors_Is e t = (e = t)"

text \<open>The outcome of a call: a value, an error value, or a panic that unwinds.\<close>

datatype 'a outcome = Ok 'a | Err error | Panic string

fun is_Ok :: "'a outcome \<Rightarrow> bool" where
  "is_Ok (Ok x) = True"
| "is_Ok _ = False"

definition obind :: "'a outcome \<Rightarrow> ('a \<Rightarrow> 'b outcome) \<Rightarrow> 'b outcome" where
  "obind m f = (case m of Ok x \<Rightarrow> f x | Err e \<Rightarrow> Err e | Panic s \<Rightarrow> Panic s)"

definition wrap_err :: "string \<Rightarrow> 'a outcome \<Rightarrow> 'a outcome" where
  "wrap_err s m = (case m of Err e \<Rightarrow> Err (ErrWrap s e) | r \<Rightarrow> r)"

lemma obind_simps [simp, go_simps]:
  "obind (Ok x) f = f x"
  "obind (Err e) f = Err e"
  "obind (Panic s) f = Panic s"
  by (simp_all add: obind_def)

lemma obind_eq_Ok: "obind m f = Ok y \<longleftrightarrow> (\<exists>x. m = Ok x \<and> f x = Ok y)"
  by (cases m) auto

lemma wrap_err_simps [simp, go_simps]:
  "wrap_err s (Ok x) = Ok x"
  "wrap_err s (Err e) = Err (ErrWrap s e)"
  "wrap_err s (Panic t) = Panic t"
  by (simp_all add: wrap_err_def)

lemma wrap_err_eq_Ok [simp]: "wrap_err s m = Ok x \<longleftrightarrow> m = Ok x"
  by (cases m) auto

lemma is_Ok_iff: "is_Ok r \<longleftrightarrow> (\<exists>x. r = Ok x)"
  by (cases r) auto

lemma is_Ok_unit_iff: "is_Ok (r :: unit outcome) \<longleftrightarrow> r = Ok ()"
  by (cases r) auto

section \<open>Fixed-width integers\<close>

text \<open>
  Go's \<^verbatim>\<open>int64\<close> (and \<^verbatim>\<open>int\<close> on 64-bit platforms) is \<^typ>\<open>int\<close> with the wrap-around written
  out at each operation by \<open>i64\<close>; conversions to unsigned types are written \<open>u32\<close> and \<open>u64\<close>.
\<close>

definition i64 :: "int \<Rightarrow> int" where
  "i64 x = (x + 2 ^ 63) mod 2 ^ 64 - 2 ^ 63"

definition u64 :: "int \<Rightarrow> int" where
  "u64 x = x mod 2 ^ 64"

definition u32 :: "int \<Rightarrow> int" where
  "u32 x = x mod 2 ^ 32"

lemma i64_id [go_simps]: "- (2 ^ 63) \<le> x \<Longrightarrow> x < 2 ^ 63 \<Longrightarrow> i64 x = x"
  by (simp add: i64_def)

lemma i64_nonneg [go_simps]: "0 \<le> x \<Longrightarrow> x < 2 ^ 63 \<Longrightarrow> i64 x = x"
  by (simp add: i64_def)

lemma i64_range: "- (2 ^ 63) \<le> i64 x \<and> i64 x < 2 ^ 63"
  by (simp add: i64_def)

lemma i64_of_high_u64: "2 ^ 63 \<le> x \<Longrightarrow> x < 2 ^ 64 \<Longrightarrow> i64 x = x - 2 ^ 64"
proof -
  assume a: "2 ^ 63 \<le> x" "x < 2 ^ 64"
  have "(x + 2 ^ 63) mod 2 ^ 64 = (x - 2 ^ 63 + 2 ^ 64) mod 2 ^ 64"
    by (simp add: add.commute)
  also have "\<dots> = (x - 2 ^ 63) mod 2 ^ 64" by (simp only: mod_add_self2)
  also have "\<dots> = x - 2 ^ 63" using a by (intro mod_pos_pos_trivial) simp_all
  finally show ?thesis by (simp add: i64_def)
qed

lemma u32_id [go_simps]: "0 \<le> x \<Longrightarrow> x < 2 ^ 32 \<Longrightarrow> u32 x = x"
  by (simp add: u32_def)

section \<open>Byte strings and sizes\<close>

type_synonym byte = "8 word"
type_synonym bytes = "8 word list"

text \<open>The number of bytes of a list of byte strings, as a mathematical integer.\<close>

definition txs_size :: "bytes list \<Rightarrow> int" where
  "txs_size ts = sum_list (map (\<lambda>t. int (length t)) ts)"

lemma txs_size_simps [simp, size_simps]:
  "txs_size [] = 0"
  "txs_size (t # ts) = int (length t) + txs_size ts"
  "txs_size (ts @ us) = txs_size ts + txs_size us"
  by (simp_all add: txs_size_def)

lemma txs_size_nonneg [simp, intro]: "0 \<le> txs_size ts"
  by (induction ts) auto

section \<open>Hexadecimal encoding\<close>

text \<open>\<^verbatim>\<open>hex.EncodeToString\<close>: two lower-case digits per byte, high half first.\<close>

definition hexdigit :: "nat \<Rightarrow> char" where
  "hexdigit n = ''0123456789abcdef'' ! n"

fun hex_EncodeToString :: "bytes \<Rightarrow> string" where
  "hex_EncodeToString [] = ''''"
| "hex_EncodeToString (b # bs) =
     hexdigit (unat b div 16) # hexdigit (unat b mod 16) # hex_EncodeToString bs"

lemma hexdigit_inj: "m < 16 \<Longrightarrow> n < 16 \<Longrightarrow> hexdigit m = hexdigit n \<longleftrightarrow> m = n"
proof -
  assume m: "m < 16" and n: "n < 16"
  have d: "distinct ''0123456789abcdef''" by simp
  show ?thesis
    unfolding hexdigit_def by (rule nth_eq_iff_index_eq [OF d]) (use m n in simp_all)
qed

lemma hexdigits_inj:
  "hexdigit (unat (b :: byte) div 16) = hexdigit (unat c div 16) \<Longrightarrow>
   hexdigit (unat b mod 16) = hexdigit (unat c mod 16) \<Longrightarrow> b = c"
proof -
  assume hi: "hexdigit (unat b div 16) = hexdigit (unat c div 16)"
    and lo: "hexdigit (unat b mod 16) = hexdigit (unat c mod 16)"
  have "unat b < 2 ^ LENGTH(8)" "unat c < 2 ^ LENGTH(8)"
    by (rule unsigned_less)+
  then have bd: "unat b < 256" "unat c < 256" by simp_all
  then have h: "unat b div 16 = unat c div 16"
    using hi hexdigit_inj [of "unat b div 16" "unat c div 16"] by simp
  moreover have l: "unat b mod 16 = unat c mod 16"
    using lo hexdigit_inj [of "unat b mod 16" "unat c mod 16"] by simp
  ultimately have "unat b = unat c" by (metis div_mult_mod_eq)
  then show ?thesis by (simp add: word_unat_eq_iff)
qed

lemma hex_EncodeToString_inj: "hex_EncodeToString a = hex_EncodeToString b \<Longrightarrow> a = b"
proof (induction a arbitrary: b)
  case Nil
  then show ?case by (cases b) auto
next
  case (Cons x xs)
  then obtain y ys where b: "b = y # ys" by (cases b) auto
  with Cons.prems have "x = y" by (auto intro: hexdigits_inj)
  with Cons b show ?case by auto
qed

lemma hex_EncodeToString_eq_iff [simp]:
  "hex_EncodeToString a = hex_EncodeToString b \<longleftrightarrow> a = b"
  by (auto dest: hex_EncodeToString_inj)

section \<open>Lists\<close>

lemma list_all2_guard:
  "list_all2 (\<lambda>x y. P x \<and> Q x y) xs ys \<longleftrightarrow> (\<forall>x \<in> set xs. P x) \<and> list_all2 Q xs ys"
proof (induction xs arbitrary: ys)
  case (Cons x xs)
  then show ?case by (cases ys) auto
qed simp

end
