(* ===== verification/Sdk.thy ===== *)
theory Sdk
  imports Prelude
begin

text \<open>
  The values of the Cosmos SDK that the program handles, and the SDK operations it calls.

  The SDK and its \<^verbatim>\<open>math\<close> package are not part of the repository. Their data (a coin, a
  transaction as seen through the interfaces the code asserts, an execution context) are
  records; each of their operations is a field of a record of operations that the
  definitions of the program take as an argument. The documented behaviour that a theorem
  relies on is a predicate over that record (\<open>dec_laws\<close>, \<open>coin_laws\<close>, \<dots>) and appears as a
  hypothesis of the theorem.
\<close>

section \<open>Coins and decimals\<close>

text \<open>\<^verbatim>\<open>sdk.Coin\<close>: a denomination and a \<^verbatim>\<open>math.Int\<close>, whose zero value is the nil integer.\<close>

record coin =
  Denom :: string
  Amount :: "int option"

type_synonym coins = "coin list"

definition zero_coin :: coin where
  "zero_coin = \<lparr>Denom = '''', Amount = None\<rparr>"

text \<open>
  The operations of \<^verbatim>\<open>math.LegacyDec\<close> (a fixed-point decimal of 18 places) and the
  conversion \<^verbatim>\<open>math.Int.Int64\<close>, which panics when the value does not fit.
\<close>

record 'd dec_ops =
  LegacyZeroDec :: 'd
  LegacyOneDec :: 'd
  Dec_IsNil :: "'d \<Rightarrow> bool"
  Dec_IsZero :: "'d \<Rightarrow> bool"
  Dec_IsNegative :: "'d \<Rightarrow> bool"
  Dec_GT :: "'d \<Rightarrow> 'd \<Rightarrow> bool"
  Dec_LT :: "'d \<Rightarrow> 'd \<Rightarrow> bool"
  Dec_Add :: "'d \<Rightarrow> 'd \<Rightarrow> 'd"
  Dec_MulInt64 :: "'d \<Rightarrow> int \<Rightarrow> 'd"
  Dec_TruncateInt :: "'d \<Rightarrow> int"
  Int_Int64 :: "int \<Rightarrow> int outcome"

abbreviation dec_unit :: int where
  "dec_unit \<equiv> 10 ^ 18"

text \<open>
  What the program relies on: every non-nil decimal denotes an integral number \<open>v d\<close> of
  units of \<open>10\<^sup>-\<^sup>1\<^sup>8\<close>, and the operations compute on it.
\<close>

definition dec_laws :: "'d dec_ops \<Rightarrow> ('d \<Rightarrow> int) \<Rightarrow> bool" where
  "dec_laws D v \<longleftrightarrow>
     \<not> Dec_IsNil D (LegacyZeroDec D) \<and> v (LegacyZeroDec D) = 0 \<and>
     \<not> Dec_IsNil D (LegacyOneDec D) \<and> v (LegacyOneDec D) = dec_unit \<and>
     (\<forall>a. \<not> Dec_IsNil D a \<longrightarrow>
        (Dec_IsZero D a \<longleftrightarrow> v a = 0) \<and> (Dec_IsNegative D a \<longleftrightarrow> v a < 0) \<and>
        (0 \<le> v a \<longrightarrow> Dec_TruncateInt D a = v a div dec_unit)) \<and>
     (\<forall>a b. \<not> Dec_IsNil D a \<and> \<not> Dec_IsNil D b \<longrightarrow>
        (Dec_GT D a b \<longleftrightarrow> v b < v a) \<and> (Dec_LT D a b \<longleftrightarrow> v a < v b) \<and>
        \<not> Dec_IsNil D (Dec_Add D a b) \<and> v (Dec_Add D a b) = v a + v b) \<and>
     (\<forall>a n. \<not> Dec_IsNil D a \<longrightarrow>
        \<not> Dec_IsNil D (Dec_MulInt64 D a n) \<and> v (Dec_MulInt64 D a n) = v a * n) \<and>
     (\<forall>n. - (2 ^ 63) \<le> n \<and> n < 2 ^ 63 \<longrightarrow> Int_Int64 D n = Ok n)"

lemma dec_lawsD:
  assumes "dec_laws D v"
  shows "\<not> Dec_IsNil D (LegacyZeroDec D)" "v (LegacyZeroDec D) = 0"
    "\<not> Dec_IsNil D (LegacyOneDec D)" "v (LegacyOneDec D) = dec_unit"
    "\<not> Dec_IsNil D a \<Longrightarrow> Dec_IsZero D a \<longleftrightarrow> v a = 0"
    "\<not> Dec_IsNil D a \<Longrightarrow> Dec_IsNegative D a \<longleftrightarrow> v a < 0"
    "\<not> Dec_IsNil D a \<Longrightarrow> 0 \<le> v a \<Longrightarrow> Dec_TruncateInt D a = v a div dec_unit"
    "\<not> Dec_IsNil D a \<Longrightarrow> \<not> Dec_IsNil D b \<Longrightarrow> Dec_GT D a b \<longleftrightarrow> v b < v a"
    "\<not> Dec_IsNil D a \<Longrightarrow> \<not> Dec_IsNil D b \<Longrightarrow> Dec_LT D a b \<longleftrightarrow> v a < v b"
    "\<not> Dec_IsNil D a \<Longrightarrow> \<not> Dec_IsNil D b \<Longrightarrow> \<not> Dec_IsNil D (Dec_Add D a b)"
    "\<not> Dec_IsNil D a \<Longrightarrow> \<not> Dec_IsNil D b \<Longrightarrow> v (Dec_Add D a b) = v a + v b"
    "\<not> Dec_IsNil D a \<Longrightarrow> \<not> Dec_IsNil D (Dec_MulInt64 D a n)"
    "\<not> Dec_IsNil D a \<Longrightarrow> v (Dec_MulInt64 D a n) = v a * n"
    "- (2 ^ 63) \<le> n \<Longrightarrow> n < 2 ^ 63 \<Longrightarrow> Int_Int64 D n = Ok n"
  using assms unfolding dec_laws_def by simp_all

text \<open>
  The operations of \<^verbatim>\<open>sdk.Coin\<close>. Comparison and addition panic on coins of different
  denominations.
\<close>

record coin_ops =
  Coin_IsNil :: "coin \<Rightarrow> bool"
  Coin_IsGTE :: "coin \<Rightarrow> coin \<Rightarrow> bool outcome"
  Coin_IsLTE :: "coin \<Rightarrow> coin \<Rightarrow> bool outcome"
  Coin_Add :: "coin \<Rightarrow> coin \<Rightarrow> coin outcome"
  Coin_Validate :: "coin \<Rightarrow> unit outcome"
  Coin_NewCoin :: "string \<Rightarrow> int \<Rightarrow> coin outcome"
  Coin_String :: "coin \<Rightarrow> string"

definition coin_laws :: "coin_ops \<Rightarrow> bool" where
  "coin_laws C \<longleftrightarrow>
     (\<forall>c. Coin_IsNil C c \<longleftrightarrow> Amount c = None) \<and>
     (\<forall>a b m n. Amount a = Some m \<and> Amount b = Some n \<and> Denom a = Denom b \<longrightarrow>
        Coin_IsGTE C a b = Ok (n \<le> m) \<and> Coin_IsLTE C a b = Ok (m \<le> n) \<and>
        Coin_Add C a b = Ok \<lparr>Denom = Denom a, Amount = Some (m + n)\<rparr>) \<and>
     (\<forall>a b. Denom a \<noteq> Denom b \<longrightarrow>
        (\<exists>s. Coin_IsGTE C a b = Panic s) \<and> (\<exists>s. Coin_IsLTE C a b = Panic s) \<and>
        (\<exists>s. Coin_Add C a b = Panic s)) \<and>
     (\<forall>c. Coin_Validate C c = Ok () \<longrightarrow> (\<exists>n. Amount c = Some n \<and> 0 \<le> n)) \<and>
     (\<forall>c s. Coin_Validate C c \<noteq> Panic s \<or> Amount c = None) \<and>
     (\<forall>c. Coin_Validate C c = Ok () \<longrightarrow>
        (\<forall>n \<ge> 0. Coin_NewCoin C (Denom c) n = Ok \<lparr>Denom = Denom c, Amount = Some n\<rparr>))"

lemma coin_lawsD:
  assumes "coin_laws C"
  shows "Coin_IsNil C c \<longleftrightarrow> Amount c = None"
    "Amount a = Some m \<Longrightarrow> Amount b = Some n \<Longrightarrow> Denom a = Denom b \<Longrightarrow>
       Coin_IsGTE C a b = Ok (n \<le> m)"
    "Amount a = Some m \<Longrightarrow> Amount b = Some n \<Longrightarrow> Denom a = Denom b \<Longrightarrow>
       Coin_IsLTE C a b = Ok (m \<le> n)"
    "Amount a = Some m \<Longrightarrow> Amount b = Some n \<Longrightarrow> Denom a = Denom b \<Longrightarrow>
       Coin_Add C a b = Ok \<lparr>Denom = Denom a, Amount = Some (m + n)\<rparr>"
    "Denom a \<noteq> Denom b \<Longrightarrow> \<exists>s. Coin_IsGTE C a b = Panic s"
    "Denom a \<noteq> Denom b \<Longrightarrow> \<exists>s. Coin_IsLTE C a b = Panic s"
    "Denom a \<noteq> Denom b \<Longrightarrow> \<exists>s. Coin_Add C a b = Panic s"
    "Coin_Validate C c = Ok () \<Longrightarrow> \<exists>n. Amount c = Some n \<and> 0 \<le> n"
    "Coin_Validate C c = Ok () \<Longrightarrow> 0 \<le> k \<Longrightarrow>
       Coin_NewCoin C (Denom c) k = Ok \<lparr>Denom = Denom c, Amount = Some k\<rparr>"
  using assms unfolding coin_laws_def by blast+

text \<open>
  Operations on sets of coins that the transaction priorities use. \<^verbatim>\<open>ParseCoinsNormalized\<close>
  returns the nil slice (\<open>None\<close>) for the empty string, and an empty slice beside its error for
  a string that does not parse.
\<close>

record coin_set_ops =
  CoinSet_String :: "coins \<Rightarrow> string"
  ParseCoinsNormalized :: "string \<Rightarrow> coins option"
  IsAllGT :: "coins \<Rightarrow> coins \<Rightarrow> bool"
  IsAllLT :: "coins \<Rightarrow> coins \<Rightarrow> bool"

section \<open>Addresses\<close>

text \<open>\<^verbatim>\<open>sdk.AccAddressFromBech32\<close> and \<^verbatim>\<open>AccAddress.String\<close>.\<close>

record addr_ops =
  AccAddressFromBech32 :: "string \<Rightarrow> bytes outcome"
  AccAddress_String :: "bytes \<Rightarrow> string"

section \<open>Messages and transactions\<close>

text \<open>The message of \<^verbatim>\<open>x/builder/types/tx.pb.go\<close> (struct MsgAuctionBid).\<close>

record MsgAuctionBid =
  Bidder :: string
  Bid :: coin
  Transactions :: "bytes list"

text \<open>\<^verbatim>\<open>sdk.Msg\<close>, with the dynamic types that the type switches of the program tell apart.\<close>

datatype msg =
    AuctionBidMsg MsgAuctionBid
  | MsgDelegate
  | MsgBeginRedelegate
  | MsgCancelUnbondingDelegation
  | OtherMsg string

record signature =
  PubKey_Address :: bytes
  Sequence :: nat

text \<open>
  \<^verbatim>\<open>sdk.Tx\<close>: the results of the methods that the program calls. An interface that a
  transaction may or may not implement is an option: \<open>GetFee\<close> of \<^verbatim>\<open>sdk.FeeTx\<close>,
  \<open>GetTimeoutHeight\<close> of \<open>TxWithTimeoutHeight\<close>, and \<open>GetSigners\<close> and \<open>GetSignaturesV2\<close> of
  \<^verbatim>\<open>signing.SigVerifiableTx\<close>. \<open>tx_raw\<close> is the rest of the transaction.
\<close>

record tx =
  GetMsgs :: "msg list"
  GetFee :: "coins option"
  GetTimeoutHeight :: "64 word option"
  SigVerifiable :: "(bytes list outcome \<times> signature list outcome) option"
  tx_raw :: bytes

type_synonym tx_encoder = "tx \<Rightarrow> bytes outcome"
type_synonym tx_decoder = "bytes \<Rightarrow> tx outcome"

section \<open>Contexts and stores\<close>

text \<open>
  The multi-store: the key-value store of the builder module, and the state \<open>'b\<close> of all
  other modules (bank, auth, \<dots>), which only the keepers passed as parameters inspect.
\<close>

record 'b multistore =
  builder_store :: "bytes \<rightharpoonup> bytes"
  module_state :: 'b

record event =
  event_type :: string
  event_attrs :: "(string \<times> string) list"

text \<open>
  \<^verbatim>\<open>sdk.Context\<close>: block height, execution mode, priority, gas meter, transaction bytes,
  events, and the content of the multi-store that the context refers to. A callee that
  writes to the store returns the new content; \<^verbatim>\<open>CacheContext\<close> is a copy of the context,
  and the \<open>write\<close> function it returns copies the store (and the events) back.
\<close>

record 'b Context =
  BlockHeight :: int
  IsCheckTx :: bool
  IsReCheckTx :: bool
  Priority :: int
  GasLimit :: nat
  GasConsumed :: nat
  TxBytes :: bytes
  ctx_events :: "event list"
  ms :: "'b multistore"

definition CacheContext :: "'b Context \<Rightarrow> 'b Context" where
  "CacheContext ctx = ctx\<lparr>ctx_events := []\<rparr>"

definition cache_write :: "'b Context \<Rightarrow> 'b Context \<Rightarrow> 'b Context" where
  "cache_write ctx cc = ctx\<lparr>ms := ms cc, ctx_events := ctx_events ctx @ ctx_events cc\<rparr>"

text \<open>
  \<^verbatim>\<open>sdk.AnteHandler\<close>: checks a transaction and returns the context to continue with. The
  returned context holds the store as the handler left it, on an error too.
\<close>

type_synonym 'b ante_handler = "'b Context \<Rightarrow> tx \<Rightarrow> bool \<Rightarrow> 'b Context \<times> unit outcome"

text \<open>\<^verbatim>\<open>sdk.AnteDecorator.AnteHandle\<close>: an ante handler in front of the next one.\<close>

type_synonym 'b ante_decorator =
  "'b Context \<Rightarrow> tx \<Rightarrow> bool \<Rightarrow> 'b ante_handler \<Rightarrow> 'b Context \<times> unit outcome"

section \<open>Concrete operations\<close>

text \<open>
  A record of operations that satisfies the laws of each group: a decimal is its number of
  units, a coin operation computes on the amounts. They are used where a theorem is applied
  at a concrete input.
\<close>

definition int_dec_ops :: "int dec_ops" where
  "int_dec_ops =
     \<lparr>LegacyZeroDec = 0, LegacyOneDec = dec_unit, Dec_IsNil = (\<lambda>_. False),
      Dec_IsZero = (\<lambda>d. d = 0), Dec_IsNegative = (\<lambda>d. d < 0),
      Dec_GT = (\<lambda>a b. b < a), Dec_LT = (\<lambda>a b. a < b), Dec_Add = (+),
      Dec_MulInt64 = (*), Dec_TruncateInt = (\<lambda>d. sgn d * (\<bar>d\<bar> div dec_unit)),
      Int_Int64 = (\<lambda>n. if - (2 ^ 63) \<le> n \<and> n < 2 ^ 63 then Ok n else Panic ''Int64'')\<rparr>"

lemma int_dec_ops_laws: "dec_laws int_dec_ops id"
  by (auto simp: dec_laws_def int_dec_ops_def sgn_if)

definition amt_coin_ops :: coin_ops where
  "amt_coin_ops =
     \<lparr>Coin_IsNil = (\<lambda>c. Amount c = None),
      Coin_IsGTE = (\<lambda>a b. if Denom a \<noteq> Denom b then Panic ''denom''
         else case (Amount a, Amount b) of
           (Some m, Some n) \<Rightarrow> Ok (n \<le> m) | _ \<Rightarrow> Panic ''nil''),
      Coin_IsLTE = (\<lambda>a b. if Denom a \<noteq> Denom b then Panic ''denom''
         else case (Amount a, Amount b) of
           (Some m, Some n) \<Rightarrow> Ok (m \<le> n) | _ \<Rightarrow> Panic ''nil''),
      Coin_Add = (\<lambda>a b. if Denom a \<noteq> Denom b then Panic ''denom''
         else case (Amount a, Amount b) of
           (Some m, Some n) \<Rightarrow> Ok \<lparr>Denom = Denom a, Amount = Some (m + n)\<rparr>
         | _ \<Rightarrow> Panic ''nil''),
      Coin_Validate = (\<lambda>c. if Denom c = '''' then Err (ErrMsg ''invalid denom'')
         else case Amount c of None \<Rightarrow> Err (ErrMsg ''amount is nil'')
           | Some n \<Rightarrow> if n < 0 then Err (ErrMsg ''negative coin amount'') else Ok ()),
      Coin_NewCoin = (\<lambda>d n. if d = '''' \<or> n < 0 then Panic ''NewCoin''
         else Ok \<lparr>Denom = d, Amount = Some n\<rparr>),
      Coin_String = Denom\<rparr>"

lemma amt_coin_ops_laws: "coin_laws amt_coin_ops"
  by (auto simp: coin_laws_def amt_coin_ops_def split: option.splits if_splits)

end
