(* ===== verification/Bb_Utils.thy ===== *)
theory Bb_Utils
  imports Sdk
begin

text \<open>
  The helpers of \<^verbatim>\<open>blockbuster/utils\<close>: transaction hashes, decoding of a proposal, removal of
  transactions from a lane, the byte limit of a lane, and the \<open>IgnoreDecorator\<close>.
\<close>

section \<open>Transaction hashes\<close>

text \<open>
  \<^verbatim>\<open>crypto/sha256\<close> is the parameter \<open>sha\<close>: what the program relies on is that transactions at
  hand do not collide, which is a hypothesis (\<open>inj_on sha\<close>) where it matters.
\<close>

definition hash_str :: "(bytes \<Rightarrow> bytes) \<Rightarrow> bytes \<Rightarrow> string" where
  "hash_str sha bz = hex_EncodeToString (sha bz)"

lemma hash_str_eq_iff [simp]: "hash_str sha a = hash_str sha b \<longleftrightarrow> sha a = sha b"
  by (simp add: hash_str_def)

definition GetTxHashStr ::
  "(bytes \<Rightarrow> bytes) \<Rightarrow> tx_encoder \<Rightarrow> tx \<Rightarrow> (bytes \<times> string) outcome" where
  "GetTxHashStr sha txEncoder t =
     obind (wrap_err ''failed to encode transaction'' (txEncoder t))
       (\<lambda>txBz. Ok (txBz, hash_str sha txBz))"

lemma GetTxHashStr_eq_Ok:
  "GetTxHashStr sha enc t = Ok (bz, h) \<longleftrightarrow> enc t = Ok bz \<and> h = hash_str sha bz"
  by (cases "enc t") (auto simp: GetTxHashStr_def)

lemma GetTxHashStr_Ok_iff: "is_Ok (GetTxHashStr sha enc t) \<longleftrightarrow> is_Ok (enc t)"
  by (cases "enc t") (auto simp: GetTxHashStr_def)

section \<open>Decoding a proposal\<close>

fun GetDecodedTxs :: "tx_decoder \<Rightarrow> bytes list \<Rightarrow> tx list outcome" where
  "GetDecodedTxs txDecoder [] = Ok []"
| "GetDecodedTxs txDecoder (txBz # rest) =
     obind (wrap_err ''failed to decode transaction'' (txDecoder txBz))
       (\<lambda>t. obind (GetDecodedTxs txDecoder rest) (\<lambda>ts. Ok (t # ts)))"

lemma GetDecodedTxs_Ok_iff:
  "GetDecodedTxs dec bs = Ok ts \<longleftrightarrow> list_all2 (\<lambda>b t. dec b = Ok t) bs ts"
  by (induction bs arbitrary: ts) (auto simp: obind_eq_Ok list_all2_Cons1)

section \<open>Removing transactions from a lane\<close>

text \<open>
  The loop stops at the first error; the removals before it stay. \<open>remove\<close> is the method
  \<open>Remove\<close> of the mempool and returns its new state.
\<close>

fun RemoveTxsFromLane ::
  "('m \<Rightarrow> tx \<Rightarrow> 'm \<times> unit outcome) \<Rightarrow> tx list \<Rightarrow> 'm \<Rightarrow> 'm \<times> unit outcome" where
  "RemoveTxsFromLane remove [] m = (m, Ok ())"
| "RemoveTxsFromLane remove (t # ts) m =
     (case remove m t of
        (m', Ok _) \<Rightarrow> RemoveTxsFromLane remove ts m'
      | (m', Err e) \<Rightarrow> (m', Err e)
      | (m', Panic s) \<Rightarrow> (m', Panic s))"

section \<open>Byte limit of a lane\<close>

definition GetMaxTxBytesForLane :: "'d dec_ops \<Rightarrow> int \<Rightarrow> int \<Rightarrow> 'd \<Rightarrow> int outcome" where
  "GetMaxTxBytesForLane D maxTxBytes totalTxBytes ratio =
     (if Dec_IsZero D ratio then
        (let remainder = i64 (maxTxBytes - totalTxBytes)
         in if remainder < 0 then Ok 0 else Ok remainder)
      else Int_Int64 D (Dec_TruncateInt D (Dec_MulInt64 D ratio maxTxBytes)))"

text \<open>The limit of a lane with no ratio is what is left of the block.\<close>

lemma GetMaxTxBytesForLane_zero:
  assumes "Dec_IsZero D ratio" "0 \<le> tot" "tot < 2 ^ 63" "0 \<le> mx" "mx < 2 ^ 63"
  shows "GetMaxTxBytesForLane D mx tot ratio = Ok (max 0 (mx - tot))"
proof -
  have "i64 (mx - tot) = mx - tot" using assms by (intro i64_id) simp_all
  then show ?thesis using assms by (simp add: GetMaxTxBytesForLane_def Let_def)
qed

text \<open>The limit of a lane with a ratio is that share of the block, rounded down.\<close>

lemma GetMaxTxBytesForLane_ratio:
  assumes L: "dec_laws D v" and "\<not> Dec_IsNil D ratio" "0 < v ratio" "v ratio \<le> dec_unit"
    and "0 \<le> mx" "mx < 2 ^ 63"
  shows "GetMaxTxBytesForLane D mx tot ratio = Ok (v ratio * mx div dec_unit)"
proof -
  note laws = dec_lawsD [OF L]
  have le: "v ratio * mx div dec_unit \<le> mx"
  proof -
    have "v ratio * mx \<le> dec_unit * mx" using assms by (intro mult_right_mono) simp_all
    then show ?thesis by (metis nonzero_mult_div_cancel_left zdiv_mono1
        zero_less_numeral zero_less_power less_numeral_extra(3))
  qed
  have ge: "0 \<le> v ratio * mx div dec_unit"
    using assms by (intro pos_imp_zdiv_nonneg_iff [THEN iffD2]) simp_all
  show ?thesis
    using assms le ge laws by (simp add: GetMaxTxBytesForLane_def)
qed

section \<open>The ignore decorator\<close>

text \<open>
  \<open>IgnoreDecorator\<close>: the wrapped decorator and the \<open>Match\<close> methods of the lanes whose
  transactions skip it.
\<close>

record 'b IgnoreDecorator =
  decorator :: "'b ante_decorator"
  ignore_lanes :: "('b Context \<Rightarrow> tx \<Rightarrow> bool) list"

definition NewIgnoreDecorator ::
  "'b ante_decorator \<Rightarrow> ('b Context \<Rightarrow> tx \<Rightarrow> bool) list \<Rightarrow> 'b IgnoreDecorator" where
  "NewIgnoreDecorator d lanes = \<lparr>decorator = d, ignore_lanes = lanes\<rparr>"

fun IgnoreDecorator_loop ::
  "('b Context \<Rightarrow> tx \<Rightarrow> bool) list \<Rightarrow> 'b ante_decorator \<Rightarrow> 'b Context \<Rightarrow> tx \<Rightarrow> bool
   \<Rightarrow> 'b ante_handler \<Rightarrow> 'b Context \<times> unit outcome" where
  "IgnoreDecorator_loop [] d ctx t simulate next = d ctx t simulate next"
| "IgnoreDecorator_loop (match # lanes) d ctx t simulate next =
     (if match ctx t then next ctx t simulate
      else IgnoreDecorator_loop lanes d ctx t simulate next)"

definition IgnoreDecorator_AnteHandle ::
  "'b IgnoreDecorator \<Rightarrow> 'b Context \<Rightarrow> tx \<Rightarrow> bool \<Rightarrow> 'b ante_handler
   \<Rightarrow> 'b Context \<times> unit outcome" where
  "IgnoreDecorator_AnteHandle sd ctx t simulate next =
     IgnoreDecorator_loop (ignore_lanes sd) (decorator sd) ctx t simulate next"

lemma IgnoreDecorator_loop_eq:
  "IgnoreDecorator_loop lanes d ctx t sim next =
     (if \<exists>m \<in> set lanes. m ctx t then next ctx t sim else d ctx t sim next)"
  by (induction lanes) auto

end
