(* ===== verification/Proposal.thy ===== *)
theory Proposal
  imports Bb_Utils
begin

text \<open>
  \<^verbatim>\<open>blockbuster/proposals.go\<close>: the block proposal that the lanes fill one after the other,
  its invariant, and what an update may do to it.
\<close>

section \<open>State and operations\<close>

text \<open>What \<open>UpdateProposal\<close> asks of a lane (interface \<open>LaneProposal\<close>; loggers are left out).\<close>

record 'd LaneProposal =
  lp_GetMaxBlockSpace :: 'd
  lp_Name :: string

record Proposal =
  txs :: "bytes list"
  voteExtensions :: "bytes list"
  cache :: "string set"
  totalTxBytes :: int
  maxTxBytes :: int

definition NewProposal :: "int \<Rightarrow> Proposal" where
  "NewProposal mx =
     \<lparr>txs = [], voteExtensions = [], cache = {}, totalTxBytes = 0, maxTxBytes = mx\<rparr>"

definition GetMaxTxBytes :: "Proposal \<Rightarrow> int" where
  "GetMaxTxBytes p = maxTxBytes p"

definition GetTotalTxBytes :: "Proposal \<Rightarrow> int" where
  "GetTotalTxBytes p = totalTxBytes p"

definition GetTxs :: "Proposal \<Rightarrow> bytes list" where
  "GetTxs p = txs p"

definition GetNumTxs :: "Proposal \<Rightarrow> nat" where
  "GetNumTxs p = length (txs p)"

definition GetVoteExtensions :: "Proposal \<Rightarrow> bytes list" where
  "GetVoteExtensions p = voteExtensions p"

definition AddVoteExtension :: "Proposal \<Rightarrow> bytes \<Rightarrow> Proposal" where
  "AddVoteExtension p ve = p\<lparr>voteExtensions := voteExtensions p @ [ve]\<rparr>"

definition GetProposal :: "Proposal \<Rightarrow> bytes list" where
  "GetProposal p = voteExtensions p @ txs p"

definition Proposal_Contains :: "(bytes \<Rightarrow> bytes) \<Rightarrow> Proposal \<Rightarrow> bytes \<Rightarrow> bool" where
  "Proposal_Contains sha p t \<longleftrightarrow> hash_str sha t \<in> cache p"

text \<open>The loop that adds up the sizes, in \<^verbatim>\<open>int64\<close>.\<close>

fun partial_size :: "int \<Rightarrow> bytes list \<Rightarrow> int" where
  "partial_size acc [] = acc"
| "partial_size acc (t # ts) = partial_size (i64 (acc + int (length t))) ts"

text \<open>The loop that enters the hashes into the cache.\<close>

fun cache_txs :: "(bytes \<Rightarrow> bytes) \<Rightarrow> bytes list \<Rightarrow> string set \<Rightarrow> string set" where
  "cache_txs sha [] c = c"
| "cache_txs sha (t # ts) c = cache_txs sha ts (insert (hash_str sha t) c)"

definition UpdateProposal ::
  "'d dec_ops \<Rightarrow> (bytes \<Rightarrow> bytes) \<Rightarrow> 'd LaneProposal \<Rightarrow> bytes list \<Rightarrow> Proposal
   \<Rightarrow> Proposal \<times> unit outcome" where
  "UpdateProposal D sha lane partialTxs p =
     (if partialTxs = [] then (p, Ok ())
      else
        (let partialProposalSize = partial_size 0 partialTxs
         in case GetMaxTxBytesForLane D (GetMaxTxBytes p) (GetTotalTxBytes p)
                   (lp_GetMaxBlockSpace lane) of
              Err e \<Rightarrow> (p, Err e)
            | Panic s \<Rightarrow> (p, Panic s)
            | Ok maxTxBytesForLane \<Rightarrow>
                if partialProposalSize > maxTxBytesForLane then
                  (p, Err (ErrMsg ''lane prepared a partial proposal that is too large''))
                else
                  (let updatedSize = i64 (totalTxBytes p + partialProposalSize)
                   in if updatedSize > maxTxBytes p then
                        (p, Err (ErrMsg ''lane prepared a block proposal that is too large''))
                      else
                        (p\<lparr>totalTxBytes := updatedSize, txs := txs p @ partialTxs,
                           cache := cache_txs sha partialTxs (cache p)\<rparr>, Ok ()))))"

section \<open>Sizes and the cache\<close>

lemma cache_txs_eq: "cache_txs sha ts c = c \<union> hash_str sha ` set ts"
  by (induction ts arbitrary: c) auto

lemma partial_size_eq:
  assumes "0 \<le> acc" "acc + txs_size ts < 2 ^ 63"
  shows "partial_size acc ts = acc + txs_size ts"
  using assms
proof (induction ts arbitrary: acc)
  case Nil
  then show ?case by simp
next
  case (Cons t ts)
  have "0 \<le> txs_size ts" by simp
  with Cons.prems have "i64 (acc + int (length t)) = acc + int (length t)"
    by (intro i64_nonneg) (simp, unfold txs_size_simps, linarith)
  with Cons show ?case by simp
qed

section \<open>The invariant of a proposal\<close>

text \<open>
  The recorded size is the size of the transactions, the cache holds exactly their hashes,
  and the size is within the limit of the request. (A request may carry a negative limit;
  then the proposal stays empty.)
\<close>

definition wf_proposal :: "(bytes \<Rightarrow> bytes) \<Rightarrow> Proposal \<Rightarrow> bool" where
  "wf_proposal sha p \<longleftrightarrow>
     totalTxBytes p = txs_size (txs p) \<and>
     cache p = hash_str sha ` set (txs p) \<and>
     totalTxBytes p \<le> max 0 (maxTxBytes p)"

lemma wf_NewProposal [simp, intro]: "wf_proposal sha (NewProposal mx)"
  by (simp add: wf_proposal_def NewProposal_def)

lemma wf_AddVoteExtension [simp]:
  "wf_proposal sha (AddVoteExtension p ve) \<longleftrightarrow> wf_proposal sha p"
  by (simp add: wf_proposal_def AddVoteExtension_def)

text \<open>
  Sizes below \<open>2\<^sup>6\<^sup>2\<close>: the sums of the size checks then stay within \<^verbatim>\<open>int64\<close>. CometBFT's
  limit on block bytes is far below this, and no list of byte slices in memory exceeds it.
\<close>

definition bounded_txs :: "bytes list \<Rightarrow> bool" where
  "bounded_txs ts \<longleftrightarrow> txs_size ts < 2 ^ 62"

lemma bounded_txs_partial_size [simp]:
  "bounded_txs ts \<Longrightarrow> partial_size 0 ts = txs_size ts"
  by (subst partial_size_eq) (simp_all add: bounded_txs_def)

lemma UpdateProposal_fail_unchanged:
  "UpdateProposal D sha lane ts p = (p', r) \<Longrightarrow> r \<noteq> Ok () \<Longrightarrow> p' = p"
  by (auto simp: UpdateProposal_def Let_def split: outcome.splits if_splits)

lemma UpdateProposal_frame:
  "UpdateProposal D sha lane ts p = (p', r) \<Longrightarrow>
   maxTxBytes p' = maxTxBytes p \<and> voteExtensions p' = voteExtensions p"
  by (auto simp: UpdateProposal_def Let_def split: outcome.splits if_splits)

text \<open>On success exactly the given transactions are appended, and both limits hold.\<close>

lemma UpdateProposal_Ok:
  assumes "UpdateProposal D sha lane ts p = (p', Ok ())"
    and "wf_proposal sha p" "bounded_txs ts" "maxTxBytes p < 2 ^ 62"
  shows "txs p' = txs p @ ts"
    and "totalTxBytes p' = totalTxBytes p + txs_size ts"
    and "ts \<noteq> [] \<Longrightarrow> totalTxBytes p' \<le> maxTxBytes p"
    and "ts \<noteq> [] \<Longrightarrow>
      \<exists>mx. GetMaxTxBytesForLane D (maxTxBytes p) (totalTxBytes p) (lp_GetMaxBlockSpace lane)
             = Ok mx \<and> txs_size ts \<le> mx"
    and "cache p' = hash_str sha ` set (txs p')"
proof -
  have tot: "0 \<le> totalTxBytes p" "totalTxBytes p < 2 ^ 62"
    using assms(2,4) by (auto simp: wf_proposal_def)
  have "0 \<le> txs_size ts" "txs_size ts < 2 ^ 62"
    using assms(3) by (auto simp: bounded_txs_def)
  then have sum: "i64 (totalTxBytes p + txs_size ts) = totalTxBytes p + txs_size ts"
    using tot by (intro i64_nonneg) simp_all
  note defs = UpdateProposal_def Let_def GetMaxTxBytes_def GetTotalTxBytes_def
  show "txs p' = txs p @ ts"
    using assms by (auto simp: defs split: outcome.splits if_splits)
  show "totalTxBytes p' = totalTxBytes p + txs_size ts"
    using assms sum by (auto simp: defs split: outcome.splits if_splits)
  show "ts \<noteq> [] \<Longrightarrow> totalTxBytes p' \<le> maxTxBytes p"
    using assms by (auto simp: defs split: outcome.splits if_splits)
  show "ts \<noteq> [] \<Longrightarrow>
      \<exists>mx. GetMaxTxBytesForLane D (maxTxBytes p) (totalTxBytes p) (lp_GetMaxBlockSpace lane)
             = Ok mx \<and> txs_size ts \<le> mx"
    using assms by (auto simp: defs split: outcome.splits if_splits)
  show "cache p' = hash_str sha ` set (txs p')"
    using assms by (auto simp: defs cache_txs_eq wf_proposal_def split: outcome.splits if_splits)
qed

lemma UpdateProposal_wf:
  assumes "UpdateProposal D sha lane ts p = (p', r)"
    and "wf_proposal sha p" "bounded_txs ts" "maxTxBytes p < 2 ^ 62"
  shows "wf_proposal sha p'"
proof (cases "r = Ok () \<and> ts \<noteq> []")
  case True
  then have u: "UpdateProposal D sha lane ts p = (p', Ok ())" using assms(1) by simp
  note ok = UpdateProposal_Ok [OF u assms(2-4)]
  have "maxTxBytes p' = maxTxBytes p" using UpdateProposal_frame [OF u] by simp
  with True ok assms(2) show ?thesis by (auto simp: wf_proposal_def)
next
  case False
  then have "p' = p"
    using assms(1) UpdateProposal_fail_unchanged [OF assms(1)]
    by (auto simp: UpdateProposal_def)
  with assms(2) show ?thesis by simp
qed

lemma Proposal_Contains_iff:
  assumes "wf_proposal sha p" "inj_on sha (insert t (set (txs p)))"
  shows "Proposal_Contains sha p t \<longleftrightarrow> t \<in> set (GetTxs p)"
  using assms by (auto simp: wf_proposal_def Proposal_Contains_def GetTxs_def inj_on_def)

section \<open>Properties\<close>

text \<open>
  C7: Updating a well-formed proposal with a lane's transactions either fails and leaves the
  proposal as it was, or appends exactly these transactions in order, keeps the accounting
  of bytes and the hash cache exact, and respects both the limit of the lane and the limit
  of the block.
\<close>

theorem UpdateProposal_correct:
  assumes "UpdateProposal D sha lane ts p = (p', r)"
    and "wf_proposal sha p" and "bounded_txs ts" and "maxTxBytes p < 2 ^ 62"
  shows "wf_proposal sha p' \<and>
     (r \<noteq> Ok () \<longrightarrow> p' = p) \<and>
     (r = Ok () \<longrightarrow> GetTxs p' = GetTxs p @ ts \<and>
        GetTotalTxBytes p' = GetTotalTxBytes p + txs_size ts \<and>
        (ts \<noteq> [] \<longrightarrow> GetTotalTxBytes p' \<le> GetMaxTxBytes p \<and>
          (\<exists>mx. GetMaxTxBytesForLane D (GetMaxTxBytes p) (GetTotalTxBytes p)
                  (lp_GetMaxBlockSpace lane) = Ok mx \<and> txs_size ts \<le> mx)))"
proof (intro conjI impI)
  show "wf_proposal sha p'" by (rule UpdateProposal_wf [OF assms])
  show "p' = p" if "r \<noteq> Ok ()" using UpdateProposal_fail_unchanged [OF assms(1) that] .
  assume r: "r = Ok ()"
  note ok = UpdateProposal_Ok [OF assms(1) [unfolded r] assms(2-4)]
  show "GetTxs p' = GetTxs p @ ts"
    and "GetTotalTxBytes p' = GetTotalTxBytes p + txs_size ts"
    using ok(1,2) by (simp_all add: GetTxs_def GetTotalTxBytes_def)
  assume "ts \<noteq> []"
  then show "GetTotalTxBytes p' \<le> GetMaxTxBytes p"
    and "\<exists>mx. GetMaxTxBytesForLane D (GetMaxTxBytes p) (GetTotalTxBytes p)
           (lp_GetMaxBlockSpace lane) = Ok mx \<and> txs_size ts \<le> mx"
    using ok(3,4) by (simp_all add: GetTotalTxBytes_def GetMaxTxBytes_def)
qed

theorem UpdateProposal_correct_witness:
  "let p = NewProposal 5; lane = \<lparr>lp_GetMaxBlockSpace = 0, lp_Name = ''default''\<rparr>;
       p' = fst (UpdateProposal int_dec_ops id lane [[1, 2], [3]] p)
   in wf_proposal id p' \<and> GetTxs p' = [[1, 2], [3]] \<and> GetTotalTxBytes p' = 3"
proof -
  let ?p = "NewProposal 5" and ?lane = "\<lparr>lp_GetMaxBlockSpace = 0, lp_Name = ''default''\<rparr>"
  have ok: "snd (UpdateProposal int_dec_ops id ?lane [[1, 2], [3]] ?p) = Ok ()"
    by (simp add: UpdateProposal_def NewProposal_def GetMaxTxBytesForLane_def int_dec_ops_def
        GetMaxTxBytes_def GetTotalTxBytes_def Let_def i64_def)
  have "maxTxBytes ?p < 2 ^ 62" and "bounded_txs [[1, 2], [3]]"
    by (simp_all add: NewProposal_def bounded_txs_def)
  with UpdateProposal_correct [where D = int_dec_ops and sha = id and lane = ?lane and
      ts = "[[1, 2], [3]]" and p = ?p, OF surjective_pairing wf_NewProposal]
  show ?thesis using ok
    by (simp add: Let_def NewProposal_def GetTxs_def GetTotalTxBytes_def)
qed

text \<open>
  In a well-formed proposal, as long as the hash function does not collide on the
  transactions at hand, \<open>Contains\<close> is membership among the proposal's transactions.
\<close>

theorem Contains_membership:
  assumes "wf_proposal sha p" and "inj_on sha (insert t (set (GetTxs p)))"
  shows "Proposal_Contains sha p t \<longleftrightarrow> t \<in> set (GetTxs p)"
  using assms by (intro Proposal_Contains_iff) (simp_all add: GetTxs_def)

theorem Contains_membership_witness:
  "Proposal_Contains id \<lparr>txs = [[1]], voteExtensions = [], cache = {''01''},
     totalTxBytes = 1, maxTxBytes = 4\<rparr> [1] = True"
proof -
  let ?p = "\<lparr>txs = [[1]], voteExtensions = [], cache = {''01''},
     totalTxBytes = 1, maxTxBytes = 4\<rparr> :: Proposal"
  have "wf_proposal id ?p"
    by (simp add: wf_proposal_def hash_str_def hexdigit_def)
  from Contains_membership [OF this, of "[1]"] show ?thesis
    by (simp add: GetTxs_def)
qed

end
