(* ===== verification/Lane.thy ===== *)
theory Lane
  imports Proposal "HOL-Library.Sublist"
begin

text \<open>
  Lanes: the configuration of \<^verbatim>\<open>blockbuster/types.go\<close>, the \<open>LaneConstructor\<close> of
  \<^verbatim>\<open>blockbuster/lane_constructor.go\<close>, its default handlers (\<^verbatim>\<open>lane_handlers.go\<close>) and its ABCI
  methods (\<^verbatim>\<open>lane_abci.go\<close>).
\<close>

section \<open>Configuration\<close>

type_synonym 'b match_handler = "'b Context \<Rightarrow> tx \<Rightarrow> bool"

text \<open>
  \<open>LaneConfig\<close>. A field that may be nil is an option (the logger has no content). The
  ignore list holds the \<open>Match\<close> methods of the ignored lanes.
\<close>

record ('d, 'b) LaneConfig =
  Logger :: "unit option"
  TxEncoder :: "tx_encoder option"
  TxDecoder :: "tx_decoder option"
  AnteHandler :: "'b ante_handler option"
  MaxBlockSpace :: 'd
  IgnoreList :: "'b match_handler list"
  MaxTxs :: int

definition NewBaseLaneConfig ::
  "unit option \<Rightarrow> tx_encoder option \<Rightarrow> tx_decoder option \<Rightarrow> 'b ante_handler option \<Rightarrow> 'd
   \<Rightarrow> ('d, 'b) LaneConfig" where
  "NewBaseLaneConfig logger txEncoder txDecoder anteHandler maxBlockSpace =
     \<lparr>Logger = logger, TxEncoder = txEncoder, TxDecoder = txDecoder,
      AnteHandler = anteHandler, MaxBlockSpace = maxBlockSpace, IgnoreList = [], MaxTxs = 0\<rparr>"

definition LaneConfig_ValidateBasic ::
  "'d dec_ops \<Rightarrow> ('d, 'b) LaneConfig \<Rightarrow> unit outcome" where
  "LaneConfig_ValidateBasic D c =
     (if Logger c = None then Err (ErrMsg ''logger cannot be nil'')
      else if TxEncoder c = None then Err (ErrMsg ''tx encoder cannot be nil'')
      else if TxDecoder c = None then Err (ErrMsg ''tx decoder cannot be nil'')
      else if Dec_IsNil D (MaxBlockSpace c) \<or> Dec_IsNegative D (MaxBlockSpace c)
              \<or> Dec_GT D (MaxBlockSpace c) (LegacyOneDec D) then
        Err (ErrMsg ''max block space must be set to a value between 0 and 1'')
      else Ok ())"

section \<open>The mempool of a lane\<close>

text \<open>
  The interface \<open>LaneMempool\<close> of \<^verbatim>\<open>lane_interface.go\<close>. \<open>Select\<close> returns an iterator; the
  callers walk it without touching the mempool, so it is the list of transactions that it
  yields, beside the state after the call.
\<close>

record ('m, 'b) LaneMempool_ops =
  mp_Insert :: "'m \<Rightarrow> 'b Context \<Rightarrow> tx \<Rightarrow> 'm \<times> unit outcome"
  mp_Remove :: "'m \<Rightarrow> tx \<Rightarrow> 'm \<times> unit outcome"
  mp_Select :: "'m \<Rightarrow> 'm \<times> tx list"
  mp_CountTx :: "'m \<Rightarrow> int"
  mp_Compare :: "'m \<Rightarrow> 'b Context \<Rightarrow> tx \<Rightarrow> tx \<Rightarrow> int outcome"
  mp_Contains :: "'m \<Rightarrow> tx \<Rightarrow> bool"

section \<open>Lanes\<close>

text \<open>
  The part of a \<open>LaneConstructor\<close> that its handlers use, and the lane with its handlers. A
  handler is a closure over the lane: it takes the lane's current core as an argument. The
  prepare handler returns the state of the mempool after its \<open>Select\<close>, the context whose
  store it wrote to, and the transactions to include and to remove.
\<close>

record ('m, 'd, 'b) lane_core =
  cfg :: "('d, 'b) LaneConfig"
  laneName :: string
  mempool_ops :: "('m, 'b) LaneMempool_ops"
  mempool :: 'm
  matchHandler :: "'b match_handler"

type_synonym ('m, 'd, 'b) prepare_handler =
  "('m, 'd, 'b) lane_core \<Rightarrow> 'b Context \<Rightarrow> Proposal \<Rightarrow> int
   \<Rightarrow> 'm \<times> 'b Context \<times> (bytes list \<times> tx list) outcome"

type_synonym ('m, 'd, 'b) check_order_handler =
  "('m, 'd, 'b) lane_core \<Rightarrow> 'b Context \<Rightarrow> tx list \<Rightarrow> unit outcome"

type_synonym ('m, 'd, 'b) process_handler =
  "('m, 'd, 'b) lane_core \<Rightarrow> 'b Context \<Rightarrow> tx list \<Rightarrow> 'b Context \<times> tx list outcome"

record ('m, 'd, 'b) LaneConstructor =
  core :: "('m, 'd, 'b) lane_core"
  prepareLaneHandler :: "('m, 'd, 'b) prepare_handler"
  checkOrderHandler :: "('m, 'd, 'b) check_order_handler"
  processLaneHandler :: "('m, 'd, 'b) process_handler"

subsection \<open>Accessors\<close>

definition lane_TxEncoder :: "('m, 'd, 'b) lane_core \<Rightarrow> tx_encoder" where
  "lane_TxEncoder l t =
     (case TxEncoder (cfg l) of None \<Rightarrow> Panic ''nil function call'' | Some enc \<Rightarrow> enc t)"

definition lane_TxDecoder :: "('m, 'd, 'b) lane_core \<Rightarrow> tx_decoder" where
  "lane_TxDecoder l bz =
     (case TxDecoder (cfg l) of None \<Rightarrow> Panic ''nil function call'' | Some dec \<Rightarrow> dec bz)"

definition lane_GetMaxBlockSpace :: "('m, 'd, 'b) lane_core \<Rightarrow> 'd" where
  "lane_GetMaxBlockSpace l = MaxBlockSpace (cfg l)"

definition lane_Name :: "('m, 'd, 'b) lane_core \<Rightarrow> string" where
  "lane_Name l = laneName l"

definition lane_proposal :: "('m, 'd, 'b) lane_core \<Rightarrow> 'd LaneProposal" where
  "lane_proposal l = \<lparr>lp_GetMaxBlockSpace = lane_GetMaxBlockSpace l, lp_Name = lane_Name l\<rparr>"

definition lane_Select :: "('m, 'd, 'b) lane_core \<Rightarrow> 'm \<times> tx list" where
  "lane_Select l = mp_Select (mempool_ops l) (mempool l)"

definition lane_Compare ::
  "('m, 'd, 'b) lane_core \<Rightarrow> 'b Context \<Rightarrow> tx \<Rightarrow> tx \<Rightarrow> int outcome" where
  "lane_Compare l = mp_Compare (mempool_ops l) (mempool l)"

definition SetIgnoreList ::
  "'b match_handler list \<Rightarrow> ('m, 'd, 'b) lane_core \<Rightarrow> ('m, 'd, 'b) lane_core" where
  "SetIgnoreList lanes l = l\<lparr>cfg := (cfg l)\<lparr>IgnoreList := lanes\<rparr>\<rparr>"

definition SetAnteHandler ::
  "'b ante_handler option \<Rightarrow> ('m, 'd, 'b) lane_core \<Rightarrow> ('m, 'd, 'b) lane_core" where
  "SetAnteHandler h l = l\<lparr>cfg := (cfg l)\<lparr>AnteHandler := h\<rparr>\<rparr>"

subsection \<open>Matching\<close>

fun CheckIgnoreList_loop :: "'b match_handler list \<Rightarrow> 'b Context \<Rightarrow> tx \<Rightarrow> bool" where
  "CheckIgnoreList_loop [] ctx t = False"
| "CheckIgnoreList_loop (match # lanes) ctx t =
     (if match ctx t then True else CheckIgnoreList_loop lanes ctx t)"

definition CheckIgnoreList :: "('m, 'd, 'b) lane_core \<Rightarrow> 'b Context \<Rightarrow> tx \<Rightarrow> bool" where
  "CheckIgnoreList l ctx t = CheckIgnoreList_loop (IgnoreList (cfg l)) ctx t"

definition Match :: "('m, 'd, 'b) lane_core \<Rightarrow> 'b Context \<Rightarrow> tx \<Rightarrow> bool" where
  "Match l ctx t \<longleftrightarrow> matchHandler l ctx t \<and> \<not> CheckIgnoreList l ctx t"

lemma CheckIgnoreList_loop_iff:
  "CheckIgnoreList_loop lanes ctx t \<longleftrightarrow> (\<exists>m \<in> set lanes. m ctx t)"
  by (induction lanes) auto

lemma Match_iff:
  "Match l ctx t \<longleftrightarrow>
     matchHandler l ctx t \<and> (\<forall>m \<in> set (IgnoreList (cfg l)). \<not> m ctx t)"
  by (auto simp: Match_def CheckIgnoreList_def CheckIgnoreList_loop_iff)

subsection \<open>Ante verification\<close>

definition AnteVerifyTx ::
  "('m, 'd, 'b) lane_core \<Rightarrow> 'b Context \<Rightarrow> tx \<Rightarrow> bool \<Rightarrow> 'b Context \<times> unit outcome" where
  "AnteVerifyTx l ctx t simulate =
     (case AnteHandler (cfg l) of
        Some ante \<Rightarrow> ante ctx t simulate
      | None \<Rightarrow> (ctx, Ok ()))"

text \<open>
  A function that receives a context by value leaves the caller's copy with the same fields
  but with the store and the events that the callee wrote.
\<close>

definition sync_ctx :: "'b Context \<Rightarrow> 'b Context \<Rightarrow> 'b Context" where
  "sync_ctx ctx ctx' = ctx\<lparr>ms := ms ctx', ctx_events := ctx_events ctx'\<rparr>"

section \<open>Default handlers\<close>

text \<open>
  The selection loop of \<open>DefaultPrepareLaneHandler\<close>. \<open>sel\<close> and \<open>rm\<close> are the slices \<open>txs\<close>
  and \<open>txsToRemove\<close> built so far. The context is the loop's own variable: it is replaced by
  the result of each ante call, whether the call succeeded or not.
\<close>

fun prepare_loop ::
  "(bytes \<Rightarrow> bytes) \<Rightarrow> ('m, 'd, 'b) lane_core \<Rightarrow> Proposal \<Rightarrow> int \<Rightarrow> tx list \<Rightarrow> 'b Context
   \<Rightarrow> int \<Rightarrow> bytes list \<Rightarrow> tx list \<Rightarrow> 'b Context \<times> (bytes list \<times> tx list) outcome" where
  "prepare_loop sha l proposal mx [] ctx totalSize sel rm = (ctx, Ok (sel, rm))"
| "prepare_loop sha l proposal mx (t # ts) ctx totalSize sel rm =
     (case GetTxHashStr sha (lane_TxEncoder l) t of
        Panic s \<Rightarrow> (ctx, Panic s)
      | Err e \<Rightarrow> prepare_loop sha l proposal mx ts ctx totalSize sel (rm @ [t])
      | Ok (txBytes, hash) \<Rightarrow>
          if \<not> Match l ctx t then
            prepare_loop sha l proposal mx ts ctx totalSize sel (rm @ [t])
          else if Proposal_Contains sha proposal txBytes then
            prepare_loop sha l proposal mx ts ctx totalSize sel rm
          else
            (let txSize = int (length txBytes); updatedSize = i64 (totalSize + txSize)
             in if updatedSize > mx then (ctx, Ok (sel, rm))
                else
                  (case AnteVerifyTx l ctx t False of
                     (ctx', Panic s) \<Rightarrow> (ctx', Panic s)
                   | (ctx', Err e) \<Rightarrow>
                       prepare_loop sha l proposal mx ts ctx' totalSize sel (rm @ [t])
                   | (ctx', Ok _) \<Rightarrow>
                       prepare_loop sha l proposal mx ts ctx' (i64 (totalSize + txSize))
                         (sel @ [txBytes]) rm)))"

definition DefaultPrepareLaneHandler ::
  "(bytes \<Rightarrow> bytes) \<Rightarrow> ('m, 'd, 'b) prepare_handler" where
  "DefaultPrepareLaneHandler sha l ctx proposal mx =
     (case lane_Select l of (m', iter) \<Rightarrow>
        (case prepare_loop sha l proposal mx iter ctx 0 [] [] of (ctx', r) \<Rightarrow> (m', ctx', r)))"

fun DefaultProcessLaneHandler :: "('m, 'd, 'b) process_handler" where
  "DefaultProcessLaneHandler l ctx [] = (ctx, Ok [])"
| "DefaultProcessLaneHandler l ctx (t # ts) =
     (if Match l ctx t then
        (case AnteVerifyTx l ctx t False of
           (ctx', Ok _) \<Rightarrow> DefaultProcessLaneHandler l ctx' ts
         | (ctx', Err e) \<Rightarrow> (ctx', Err (ErrWrap ''failed to verify tx'' e))
         | (ctx', Panic s) \<Rightarrow> (ctx', Panic s))
      else (ctx, Ok (t # ts)))"

text \<open>The loop of \<open>DefaultCheckOrderHandler\<close>; \<open>prev\<close> is \<^verbatim>\<open>txs[index-1]\<close> when \<open>index > 0\<close>.\<close>

fun check_order_loop ::
  "('m, 'd, 'b) lane_core \<Rightarrow> 'b Context \<Rightarrow> bool \<Rightarrow> tx option \<Rightarrow> tx list \<Rightarrow> unit outcome" where
  "check_order_loop l ctx seenOtherLaneTx prev [] = Ok ()"
| "check_order_loop l ctx seenOtherLaneTx prev (t # ts) =
     (if Match l ctx t then
        (if seenOtherLaneTx then
           Err (ErrMsg ''the lane contains a transaction that belongs to another lane'')
         else
           (case prev of
              None \<Rightarrow> check_order_loop l ctx seenOtherLaneTx (Some t) ts
            | Some p \<Rightarrow>
                obind (lane_Compare l ctx p t)
                  (\<lambda>c. if c = -1 then
                     Err (ErrMsg ''transaction has a higher priority than the one before'')
                   else check_order_loop l ctx seenOtherLaneTx (Some t) ts)))
      else check_order_loop l ctx True (Some t) ts)"

definition DefaultCheckOrderHandler :: "('m, 'd, 'b) check_order_handler" where
  "DefaultCheckOrderHandler l ctx ts = check_order_loop l ctx False None ts"

definition DefaultMatchHandler :: "'b match_handler" where
  "DefaultMatchHandler ctx t = True"

text \<open>The no-op and panicking handlers that \<^verbatim>\<open>types.go\<close> offers for tests.\<close>

definition NoOpPrepareLaneHandler :: "('m, 'd, 'b) prepare_handler" where
  "NoOpPrepareLaneHandler l ctx proposal mx = (mempool l, ctx, Ok ([], []))"

definition PanicPrepareLaneHandler :: "('m, 'd, 'b) prepare_handler" where
  "PanicPrepareLaneHandler l ctx proposal mx =
     (mempool l, ctx, Panic ''panic prepare lanes handler'')"

definition NoOpProcessLaneHandler :: "('m, 'd, 'b) process_handler" where
  "NoOpProcessLaneHandler l ctx ts = (ctx, Ok ts)"

definition PanicProcessLaneHandler :: "('m, 'd, 'b) process_handler" where
  "PanicProcessLaneHandler l ctx ts = (ctx, Panic ''panic process lanes handler'')"

section \<open>Construction\<close>

text \<open>
  \<open>ValidateBasic\<close> of a lane under construction, whose handlers, mempool and match handler may
  still be nil: it checks the parts and puts the default handlers where none is set. The
  result is the completed lane.
\<close>

definition Lane_ValidateBasic ::
  "'d dec_ops \<Rightarrow> (bytes \<Rightarrow> bytes) \<Rightarrow> ('d, 'b) LaneConfig \<Rightarrow> string
   \<Rightarrow> (('m, 'b) LaneMempool_ops \<times> 'm) option \<Rightarrow> 'b match_handler option
   \<Rightarrow> ('m, 'd, 'b) prepare_handler option \<Rightarrow> ('m, 'd, 'b) process_handler option
   \<Rightarrow> ('m, 'd, 'b) check_order_handler option
   \<Rightarrow> ('m, 'd, 'b) LaneConstructor outcome" where
  "Lane_ValidateBasic D sha c nm mpool matchFn prep process order =
     obind (LaneConfig_ValidateBasic D c) (\<lambda>_.
       if nm = '''' then Err (ErrMsg ''lane name cannot be empty'')
       else (case mpool of
          None \<Rightarrow> Err (ErrMsg ''lane mempool cannot be nil'')
        | Some (mops, m) \<Rightarrow>
            (case matchFn of
               None \<Rightarrow> Err (ErrMsg ''match handler cannot be nil'')
             | Some match \<Rightarrow>
                 Ok \<lparr>core = \<lparr>cfg = c, laneName = nm, mempool_ops = mops, mempool = m,
                       matchHandler = match\<rparr>,
                     prepareLaneHandler =
                       (case prep of None \<Rightarrow> DefaultPrepareLaneHandler sha | Some h \<Rightarrow> h),
                     checkOrderHandler =
                       (case order of None \<Rightarrow> DefaultCheckOrderHandler | Some h \<Rightarrow> h),
                     processLaneHandler =
                       (case process of None \<Rightarrow> DefaultProcessLaneHandler | Some h \<Rightarrow> h)\<rparr>)))"

definition NewLaneConstructor ::
  "'d dec_ops \<Rightarrow> (bytes \<Rightarrow> bytes) \<Rightarrow> ('d, 'b) LaneConfig \<Rightarrow> string
   \<Rightarrow> (('m, 'b) LaneMempool_ops \<times> 'm) option \<Rightarrow> 'b match_handler option
   \<Rightarrow> ('m, 'd, 'b) LaneConstructor outcome" where
  "NewLaneConstructor D sha c nm mpool matchFn =
     (case Lane_ValidateBasic D sha c nm mpool matchFn None None None of
        Err e \<Rightarrow> Panic ''invalid lane'' | r \<Rightarrow> r)"

definition SetPrepareLaneHandler ::
  "('m, 'd, 'b) prepare_handler option \<Rightarrow> ('m, 'd, 'b) LaneConstructor
   \<Rightarrow> ('m, 'd, 'b) LaneConstructor outcome" where
  "SetPrepareLaneHandler h l =
     (case h of None \<Rightarrow> Panic ''prepare lane handler cannot be nil''
      | Some f \<Rightarrow> Ok (l\<lparr>prepareLaneHandler := f\<rparr>))"

definition SetProcessLaneHandler ::
  "('m, 'd, 'b) process_handler option \<Rightarrow> ('m, 'd, 'b) LaneConstructor
   \<Rightarrow> ('m, 'd, 'b) LaneConstructor outcome" where
  "SetProcessLaneHandler h l =
     (case h of None \<Rightarrow> Panic ''process lane handler cannot be nil''
      | Some f \<Rightarrow> Ok (l\<lparr>processLaneHandler := f\<rparr>))"

definition SetCheckOrderHandler ::
  "('m, 'd, 'b) check_order_handler option \<Rightarrow> ('m, 'd, 'b) LaneConstructor
   \<Rightarrow> ('m, 'd, 'b) LaneConstructor outcome" where
  "SetCheckOrderHandler h l =
     (case h of None \<Rightarrow> Panic ''check order handler cannot be nil''
      | Some f \<Rightarrow> Ok (l\<lparr>checkOrderHandler := f\<rparr>))"

section \<open>ABCI methods\<close>

text \<open>
  \<open>next\<close> prepares the lanes behind this one; their states \<open>w\<close> are passed through it. The
  proposal is shared by reference, so its state is a result on every path. A failed removal
  is only logged.
\<close>

type_synonym ('w, 'b) prepare_next =
  "'w \<Rightarrow> 'b Context \<Rightarrow> Proposal \<Rightarrow> 'w \<times> 'b Context \<times> Proposal \<times> unit outcome"

definition NoOpPrepareLanesHandler :: "('w, 'b) prepare_next" where
  "NoOpPrepareLanesHandler w ctx proposal = (w, ctx, proposal, Ok ())"

definition lane_set_mempool ::
  "'m \<Rightarrow> ('m, 'd, 'b) LaneConstructor \<Rightarrow> ('m, 'd, 'b) LaneConstructor" where
  "lane_set_mempool m l = l\<lparr>core := (core l)\<lparr>mempool := m\<rparr>\<rparr>"

definition PrepareLane ::
  "'d dec_ops \<Rightarrow> (bytes \<Rightarrow> bytes) \<Rightarrow> ('m, 'd, 'b) LaneConstructor \<Rightarrow> 'w \<Rightarrow> 'b Context
   \<Rightarrow> Proposal \<Rightarrow> int \<Rightarrow> ('w, 'b) prepare_next
   \<Rightarrow> ('m, 'd, 'b) LaneConstructor \<times> 'w \<times> 'b Context \<times> Proposal \<times> unit outcome" where
  "PrepareLane D sha l w ctx proposal mx next =
     (case prepareLaneHandler l (core l) ctx proposal mx of (m1, ctx1, r) \<Rightarrow>
        (let l1 = lane_set_mempool m1 l; ctx' = sync_ctx ctx ctx1
         in case r of
              Err e \<Rightarrow> (l1, w, ctx', proposal, Err e)
            | Panic s \<Rightarrow> (l1, w, ctx', proposal, Panic s)
            | Ok (sel, rm) \<Rightarrow>
                (case RemoveTxsFromLane (mp_Remove (mempool_ops (core l))) rm m1 of
                   (m2, Panic s) \<Rightarrow> (lane_set_mempool m2 l, w, ctx', proposal, Panic s)
                 | (m2, _) \<Rightarrow>
                     (let l2 = lane_set_mempool m2 l
                      in case UpdateProposal D sha (lane_proposal (core l2)) sel proposal of
                           (p', Err e) \<Rightarrow> (l2, w, ctx', p', Err e)
                         | (p', Panic s) \<Rightarrow> (l2, w, ctx', p', Panic s)
                         | (p', Ok _) \<Rightarrow>
                             (case next w ctx' p' of
                                (w', ctx2, p2, r2) \<Rightarrow> (l2, w', ctx2, p2, r2))))))"

definition CheckOrder ::
  "('m, 'd, 'b) LaneConstructor \<Rightarrow> 'b Context \<Rightarrow> tx list \<Rightarrow> unit outcome" where
  "CheckOrder l ctx ts = checkOrderHandler l (core l) ctx ts"

type_synonym 'b process_next = "'b Context \<Rightarrow> tx list \<Rightarrow> 'b Context \<times> unit outcome"

definition NoOpProcessLanesHandler :: "'b process_next" where
  "NoOpProcessLanesHandler ctx ts = (ctx, Ok ())"

definition ProcessLane ::
  "('m, 'd, 'b) LaneConstructor \<Rightarrow> 'b Context \<Rightarrow> tx list \<Rightarrow> 'b process_next
   \<Rightarrow> 'b Context \<times> unit outcome" where
  "ProcessLane l ctx ts next =
     (case processLaneHandler l (core l) ctx ts of (ctx1, r) \<Rightarrow>
        (let ctx' = sync_ctx ctx ctx1
         in case r of
              Err e \<Rightarrow> (ctx', Err e)
            | Panic s \<Rightarrow> (ctx', Panic s)
            | Ok remainingTxs \<Rightarrow> next ctx' remainingTxs))"

end
