(* ===== verification/Terminator.thy ===== *)
theory Terminator
  imports Lane
begin

text \<open>
  \<^verbatim>\<open>blockbuster/lanes/terminator/lane.go\<close>: the lane that ends every chain. Its methods do
  nothing; the values that implement the interface \<open>Lane\<close> in this repository are the lane
  constructors and the terminator.
\<close>

definition Terminator_LaneName :: string where
  "Terminator_LaneName = ''Terminator''"

definition Terminator_PrepareLane ::
  "'w \<Rightarrow> 'b Context \<Rightarrow> Proposal \<Rightarrow> int \<Rightarrow> ('w, 'b) prepare_next
   \<Rightarrow> 'w \<times> 'b Context \<times> Proposal \<times> unit outcome" where
  "Terminator_PrepareLane w ctx proposal mx next = (w, ctx, proposal, Ok ())"

definition Terminator_CheckOrder :: "'b Context \<Rightarrow> tx list \<Rightarrow> unit outcome" where
  "Terminator_CheckOrder ctx ts = Ok ()"

definition Terminator_ProcessLane ::
  "'b Context \<Rightarrow> tx list \<Rightarrow> 'b process_next \<Rightarrow> 'b Context \<times> unit outcome" where
  "Terminator_ProcessLane ctx ts next = (ctx, Ok ())"

definition Terminator_GetMaxBlockSpace :: "'d dec_ops \<Rightarrow> 'd" where
  "Terminator_GetMaxBlockSpace D = LegacyZeroDec D"

definition Terminator_Match :: "'b match_handler" where
  "Terminator_Match ctx t = False"

definition Terminator_mempool :: "(unit, 'b) LaneMempool_ops" where
  "Terminator_mempool =
     \<lparr>mp_Insert = (\<lambda>m ctx t. (m, Ok ())), mp_Remove = (\<lambda>m t. (m, Ok ())),
      mp_Select = (\<lambda>m. (m, [])), mp_CountTx = (\<lambda>m. 0),
      mp_Compare = (\<lambda>m ctx a b. Ok 0), mp_Contains = (\<lambda>m t. False)\<rparr>"

section \<open>The lanes of a chain\<close>

datatype ('m, 'd, 'b) lane = LaneC "('m, 'd, 'b) LaneConstructor" | TerminatorLane

text \<open>
  The methods of the interface \<open>Lane\<close> that the proposal handlers call. \<open>'l\<close> is the type of
  lane values; \<open>PrepareLane\<close> passes the states of the lanes behind it through \<open>next\<close>.
\<close>

record ('l, 'd, 'b) Lane_methods =
  if_GetMaxBlockSpace :: "'l \<Rightarrow> 'd"
  if_PrepareLane :: "'l \<Rightarrow> 'l list \<Rightarrow> 'b Context \<Rightarrow> Proposal \<Rightarrow> int \<Rightarrow> ('l list, 'b) prepare_next
     \<Rightarrow> 'l \<times> 'l list \<times> 'b Context \<times> Proposal \<times> unit outcome"
  if_CheckOrder :: "'l \<Rightarrow> 'b Context \<Rightarrow> tx list \<Rightarrow> unit outcome"
  if_ProcessLane :: "'l \<Rightarrow> 'b Context \<Rightarrow> tx list \<Rightarrow> 'b process_next \<Rightarrow> 'b Context \<times> unit outcome"
  if_isTerminator :: "'l \<Rightarrow> bool"
  if_Terminator :: 'l

fun lane_space :: "'d dec_ops \<Rightarrow> ('m, 'd, 'b) lane \<Rightarrow> 'd" where
  "lane_space D (LaneC l) = lane_GetMaxBlockSpace (core l)"
| "lane_space D TerminatorLane = Terminator_GetMaxBlockSpace D"

fun lane_prepare ::
  "'d dec_ops \<Rightarrow> (bytes \<Rightarrow> bytes) \<Rightarrow> ('m, 'd, 'b) lane \<Rightarrow> 'w \<Rightarrow> 'b Context \<Rightarrow> Proposal \<Rightarrow> int
   \<Rightarrow> ('w, 'b) prepare_next
   \<Rightarrow> ('m, 'd, 'b) lane \<times> 'w \<times> 'b Context \<times> Proposal \<times> unit outcome" where
  "lane_prepare D sha (LaneC l) w ctx p mx next =
     (case PrepareLane D sha l w ctx p mx next of (l', rest) \<Rightarrow> (LaneC l', rest))"
| "lane_prepare D sha TerminatorLane w ctx p mx next =
     (TerminatorLane, Terminator_PrepareLane w ctx p mx next)"

fun lane_check_order :: "('m, 'd, 'b) lane \<Rightarrow> 'b Context \<Rightarrow> tx list \<Rightarrow> unit outcome" where
  "lane_check_order (LaneC l) ctx ts = CheckOrder l ctx ts"
| "lane_check_order TerminatorLane ctx ts = Terminator_CheckOrder ctx ts"

fun lane_process ::
  "('m, 'd, 'b) lane \<Rightarrow> 'b Context \<Rightarrow> tx list \<Rightarrow> 'b process_next \<Rightarrow> 'b Context \<times> unit outcome"
where
  "lane_process (LaneC l) ctx ts next = ProcessLane l ctx ts next"
| "lane_process TerminatorLane ctx ts next = Terminator_ProcessLane ctx ts next"

fun is_TerminatorLane :: "('m, 'd, 'b) lane \<Rightarrow> bool" where
  "is_TerminatorLane (LaneC l) = False"
| "is_TerminatorLane TerminatorLane = True"

definition lane_methods ::
  "'d dec_ops \<Rightarrow> (bytes \<Rightarrow> bytes) \<Rightarrow> (('m, 'd, 'b) lane, 'd, 'b) Lane_methods" where
  "lane_methods D sha =
     \<lparr>if_GetMaxBlockSpace = lane_space D, if_PrepareLane = lane_prepare D sha,
      if_CheckOrder = lane_check_order, if_ProcessLane = lane_process,
      if_isTerminator = is_TerminatorLane, if_Terminator = TerminatorLane\<rparr>"

lemma lane_methods_sel [simp]:
  "if_GetMaxBlockSpace (lane_methods D sha) = lane_space D"
  "if_PrepareLane (lane_methods D sha) = lane_prepare D sha"
  "if_CheckOrder (lane_methods D sha) = lane_check_order"
  "if_ProcessLane (lane_methods D sha) = lane_process"
  "if_isTerminator (lane_methods D sha) = is_TerminatorLane"
  "if_Terminator (lane_methods D sha) = TerminatorLane"
  by (simp_all add: lane_methods_def)

lemmas terminator_defs =
  Terminator_PrepareLane_def Terminator_CheckOrder_def Terminator_ProcessLane_def
  Terminator_GetMaxBlockSpace_def

end
