(* ===== verification/Abci.thy ===== *)
theory Abci
  imports Terminator
begin

text \<open>
  \<^verbatim>\<open>blockbuster/abci/abci.go\<close>: the ABCI++ proposal handlers, which chain the lanes. They see
  a lane through its interface only, so the definitions take the record of its methods; the
  contract that preparing relies on is the locale \<open>preparing_lanes\<close>, and the lanes of the
  repository satisfy it.
\<close>

section \<open>Chaining\<close>

text \<open>A chain whose last lane is not the terminator gets one appended.\<close>

definition terminated :: "('l, 'd, 'b) Lane_methods \<Rightarrow> 'l list \<Rightarrow> 'l list" where
  "terminated I chain =
     (if if_isTerminator I (last chain) then chain else chain @ [if_Terminator I])"

text \<open>The first lane's turn: its byte limit is computed and its \<open>PrepareLane\<close> is called.\<close>

definition attempt_lane ::
  "('l, 'd, 'b) Lane_methods \<Rightarrow> 'd dec_ops \<Rightarrow> 'l \<Rightarrow> 'l list \<Rightarrow> 'b Context \<Rightarrow> Proposal
   \<Rightarrow> ('l list, 'b) prepare_next \<Rightarrow> 'l \<times> 'l list \<times> 'b Context \<times> Proposal \<times> unit outcome" where
  "attempt_lane I D lane rest ctx p next =
     (case GetMaxTxBytesForLane D (GetMaxTxBytes p) (GetTotalTxBytes p)
             (if_GetMaxBlockSpace I lane) of
        Ok mx \<Rightarrow> if_PrepareLane I lane rest ctx p mx next
      | Err e \<Rightarrow> (lane, rest, ctx, p, Err e)
      | Panic s \<Rightarrow> (lane, rest, ctx, p, Panic s))"

text \<open>
  The function that \<open>ChainPrepareLanes\<close> returns, on a terminated chain: the first lane is
  prepared on a cached context with the rest of the chain as \<open>next\<close>. If it fails (an error
  or a recovered panic), the cache is dropped and the rest of the chain prepares the
  proposal, unless only the terminator is left. The fuel is the length of the chain, which
  shrinks by one in each call. An empty chain is the nil function.
\<close>

fun prepare_chain ::
  "('l, 'd, 'b) Lane_methods \<Rightarrow> 'd dec_ops \<Rightarrow> nat \<Rightarrow> ('l list, 'b) prepare_next" where
  "prepare_chain I D 0 chain ctx p = (chain, ctx, p, Panic ''nil function call'')"
| "prepare_chain I D (Suc n) [] ctx p = ([], ctx, p, Panic ''nil function call'')"
| "prepare_chain I D (Suc n) (lane # rest) ctx p =
     (case attempt_lane I D lane rest (CacheContext ctx) p (prepare_chain I D n) of
        (lane', rest', cc, p', Ok _) \<Rightarrow> (lane' # rest', cache_write ctx cc, p', Ok ())
      | (lane', rest', cc, p', _) \<Rightarrow>
          if length (lane # rest) \<le> 2 then (lane' # rest', ctx, p', Ok ())
          else
            (case prepare_chain I D n rest' ctx p' of
               (rest2, ctx2, p2, r2) \<Rightarrow> (lane' # rest2, ctx2, p2, r2)))"

definition ChainPrepareLanes ::
  "('l, 'd, 'b) Lane_methods \<Rightarrow> 'd dec_ops \<Rightarrow> ('l list, 'b) prepare_next" where
  "ChainPrepareLanes I D chain ctx p =
     (if chain = [] then (chain, ctx, p, Panic ''nil function call'')
      else prepare_chain I D (length (terminated I chain)) (terminated I chain) ctx p)"

text \<open>The function that \<open>ChainProcessLanes\<close> returns, on a terminated chain.\<close>

fun process_chain ::
  "('l, 'd, 'b) Lane_methods \<Rightarrow> 'l list \<Rightarrow> 'b process_next" where
  "process_chain I [] ctx ts = (ctx, Panic ''nil function call'')"
| "process_chain I (lane # rest) ctx ts =
     (if ts = [] then (ctx, Ok ())
      else
        (case if_CheckOrder I lane ctx ts of
           Err e \<Rightarrow> (ctx, Err e)
         | Panic s \<Rightarrow> (ctx, Panic s)
         | Ok _ \<Rightarrow> if_ProcessLane I lane ctx ts (process_chain I rest)))"

definition ChainProcessLanes ::
  "('l, 'd, 'b) Lane_methods \<Rightarrow> 'l list \<Rightarrow> 'b process_next" where
  "ChainProcessLanes I chain ctx ts =
     (if chain = [] then (ctx, Panic ''nil function call'')
      else process_chain I (terminated I chain) ctx ts)"

section \<open>The handlers\<close>

text \<open>
  \<open>PrepareProposalHandler\<close> returns the transactions of the response and the error. A panic
  is recovered into an empty response with a nil error.
\<close>

definition PrepareProposalHandler ::
  "('l, 'd, 'b) Lane_methods \<Rightarrow> 'd dec_ops \<Rightarrow> 'l list \<Rightarrow> 'b Context \<Rightarrow> int
   \<Rightarrow> 'l list \<times> 'b Context \<times> bytes list \<times> error option" where
  "PrepareProposalHandler I D lanes ctx reqMaxTxBytes =
     (case ChainPrepareLanes I D lanes ctx (NewProposal reqMaxTxBytes) of
        (lanes', ctx', proposal, Ok _) \<Rightarrow> (lanes', ctx', GetProposal proposal, None)
      | (lanes', ctx', proposal, Err e) \<Rightarrow> (lanes', ctx', [], Some e)
      | (lanes', ctx', proposal, Panic s) \<Rightarrow> (lanes', ctx', [], None))"

datatype status = ACCEPT | REJECT

definition ProcessProposalHandler ::
  "('l, 'd, 'b) Lane_methods \<Rightarrow> tx_decoder \<Rightarrow> 'l list \<Rightarrow> 'b Context \<Rightarrow> bytes list
   \<Rightarrow> 'b Context \<times> status \<times> error option" where
  "ProcessProposalHandler I txDecoder lanes ctx reqTxs =
     (if reqTxs = [] then (ctx, ACCEPT, None)
      else
        (case GetDecodedTxs txDecoder reqTxs of
           Err e \<Rightarrow> (ctx, REJECT, Some e)
         | Panic s \<Rightarrow> (ctx, REJECT, Some (ErrMsg ''failed to process proposal''))
         | Ok decodedTxs \<Rightarrow>
             (case ChainProcessLanes I lanes ctx decodedTxs of
                (ctx', Ok _) \<Rightarrow> (ctx', ACCEPT, None)
              | (ctx', Err e) \<Rightarrow> (ctx', REJECT, Some e)
              | (ctx', Panic s) \<Rightarrow>
                  (ctx', REJECT, Some (ErrMsg ''failed to process proposal'')))))"

text \<open>One call of the chain, by the outcome of the first lane.\<close>

lemma prepare_chain_step:
  assumes "attempt_lane I D lane rest (CacheContext ctx) p (prepare_chain I D n)
             = (l1, w1, c1, p1, r1)"
  shows "r1 = Ok () \<Longrightarrow> prepare_chain I D (Suc n) (lane # rest) ctx p
            = (l1 # w1, cache_write ctx c1, p1, Ok ())"
    and "r1 \<noteq> Ok () \<Longrightarrow> length rest \<le> 1 \<Longrightarrow>
          prepare_chain I D (Suc n) (lane # rest) ctx p = (l1 # w1, ctx, p1, Ok ())"
    and "r1 \<noteq> Ok () \<Longrightarrow> \<not> length rest \<le> 1 \<Longrightarrow>
          prepare_chain I D n w1 ctx p1 = (w2, c2, p2, r2) \<Longrightarrow>
          prepare_chain I D (Suc n) (lane # rest) ctx p = (l1 # w2, c2, p2, r2)"
  using assms by (cases r1; simp)+

section \<open>The contract of a lane that prepares\<close>

text \<open>
  What the lanes behind a lane keep: as many lanes come back as went in, each still good,
  and the proposal's invariant holds again.
\<close>

definition next_keeps ::
  "('l \<Rightarrow> bool) \<Rightarrow> (Proposal \<Rightarrow> bool) \<Rightarrow> ('l list, 'b) prepare_next \<Rightarrow> bool" where
  "next_keeps good pinv next \<longleftrightarrow>
     (\<forall>w c q w' c' q' r. list_all good w \<and> pinv q \<and> next w c q = (w', c', q', r) \<longrightarrow>
        list_all good w' \<and> length w' = length w \<and> pinv q')"

lemma next_keepsD:
  "next_keeps good pinv next \<Longrightarrow> list_all good w \<Longrightarrow> pinv q \<Longrightarrow> next w c q = (w', c', q', r) \<Longrightarrow>
   list_all good w' \<and> length w' = length w \<and> pinv q'"
  unfolding next_keeps_def by blast

text \<open>The handlers rely on every lane to keep this as well.\<close>

locale preparing_lanes =
  fixes I :: "('l, 'd, 'b) Lane_methods"
    and good :: "'l \<Rightarrow> bool"
    and pinv :: "Proposal \<Rightarrow> bool"
  assumes terminator_good: "good (if_Terminator I)"
    and prepare_keeps:
      "\<lbrakk> good l; list_all good w; pinv p; next_keeps good pinv next;
         if_PrepareLane I l w ctx p mx next = (l', w', ctx', p', r) \<rbrakk>
       \<Longrightarrow> good l' \<and> list_all good w' \<and> length w' = length w \<and> pinv p'"
begin

lemma terminated_good: "list_all good chain \<Longrightarrow> list_all good (terminated I chain)"
  by (simp add: terminated_def terminator_good)

lemma attempt_keeps:
  assumes "good l" "list_all good w" "pinv p" "next_keeps good pinv next"
    and "attempt_lane I D l w ctx p next = (l', w', ctx', p', r)"
  shows "good l' \<and> list_all good w' \<and> length w' = length w \<and> pinv p'"
proof (cases "GetMaxTxBytesForLane D (GetMaxTxBytes p) (GetTotalTxBytes p)
    (if_GetMaxBlockSpace I l)")
  case (Ok mx)
  then have "if_PrepareLane I l w ctx p mx next = (l', w', ctx', p', r)"
    using assms(5) by (simp add: attempt_lane_def)
  then show ?thesis by (rule prepare_keeps [OF assms(1-4)])
qed (use assms in \<open>auto simp: attempt_lane_def\<close>)

lemma prepare_chain_keeps:
  "list_all good chain \<Longrightarrow> pinv p \<Longrightarrow> prepare_chain I D n chain ctx p = (chain', ctx', p', r) \<Longrightarrow>
   list_all good chain' \<and> length chain' = length chain \<and> pinv p'"
proof (induction n arbitrary: chain ctx p chain' ctx' p' r)
  case 0
  then show ?case by auto
next
  case (Suc n)
  have nk: "next_keeps good pinv (prepare_chain I D n)"
    unfolding next_keeps_def using Suc.IH by blast
  show ?case
  proof (cases chain)
    case Nil
    with Suc.prems show ?thesis by auto
  next
    case (Cons lane rest)
    obtain l1 w1 c1 p1 r1 where att:
      "attempt_lane I D lane rest (CacheContext ctx) p (prepare_chain I D n) = (l1, w1, c1, p1, r1)"
      using prod_cases5 by blast
    have g: "good lane" "list_all good rest" using Suc.prems(1) Cons by auto
    note k = attempt_keeps [OF g Suc.prems(2) nk att]
    obtain w2 c2 p2 r2 where nx: "prepare_chain I D n w1 ctx p1 = (w2, c2, p2, r2)"
      using prod_cases4 by blast
    have k2: "list_all good w2 \<and> length w2 = length w1 \<and> pinv p2"
      using Suc.IH [OF _ _ nx] k by blast
    note st = prepare_chain_step [OF att]
    consider "r1 = Ok ()" | "r1 \<noteq> Ok ()" "length rest \<le> 1"
      | "r1 \<noteq> Ok ()" "\<not> length rest \<le> 1" by blast
    then show ?thesis
    proof cases
      case 1
      then show ?thesis using Suc.prems(3) k st(1) Cons by simp
    next
      case 2
      then show ?thesis using Suc.prems(3) k st(2) Cons by simp
    next
      case 3
      then show ?thesis using Suc.prems(3) k k2 st(3) [OF _ _ nx] Cons by simp
    qed
  qed
qed

lemma next_keeps_chain: "next_keeps good pinv (prepare_chain I D n)"
  unfolding next_keeps_def using prepare_chain_keeps by blast

text \<open>A failing or panicking lane never makes the chain fail.\<close>

lemma prepare_chain_Ok:
  "list_all good chain \<Longrightarrow> pinv p \<Longrightarrow> chain \<noteq> [] \<Longrightarrow> length chain = n \<Longrightarrow>
   \<exists>chain' ctx' p'. prepare_chain I D n chain ctx p = (chain', ctx', p', Ok ())"
proof (induction n arbitrary: chain ctx p)
  case 0
  then show ?case by simp
next
  case (Suc n)
  then obtain lane rest where Cons: "chain = lane # rest" by (cases chain) auto
  obtain l1 w1 c1 p1 r1 where att:
    "attempt_lane I D lane rest (CacheContext ctx) p (prepare_chain I D n) = (l1, w1, c1, p1, r1)"
    using prod_cases5 by blast
  have g: "good lane" "list_all good rest" using Suc.prems(1) Cons by auto
  note k = attempt_keeps [OF g Suc.prems(2) next_keeps_chain att]
  note st = prepare_chain_step [OF att]
  show ?case
  proof (cases "r1 = Ok () \<or> length rest \<le> 1")
    case True
    then show ?thesis using st(1,2) Cons by blast
  next
    case False
    then have "w1 \<noteq> []" "length w1 = n" using k Cons Suc.prems(4) by auto
    then obtain w2 c2 p2 where "prepare_chain I D n w1 ctx p1 = (w2, c2, p2, Ok ())"
      using Suc.IH k by blast
    then show ?thesis using st(3) False Cons by blast
  qed
qed

lemma ChainPrepareLanes_Ok:
  assumes "list_all good lanes" "pinv p" "lanes \<noteq> []"
  shows "\<exists>lanes' ctx' p'. ChainPrepareLanes I D lanes ctx p = (lanes', ctx', p', Ok ()) \<and> pinv p'"
proof -
  have ne: "terminated I lanes \<noteq> []" using assms(3) by (simp add: terminated_def)
  note g = terminated_good [OF assms(1)]
  from prepare_chain_Ok [OF g assms(2) ne refl] obtain c x p' where
    e: "prepare_chain I D (length (terminated I lanes)) (terminated I lanes) ctx p = (c, x, p', Ok ())"
    by blast
  with prepare_chain_keeps [OF g assms(2) e] assms(3) show ?thesis
    by (auto simp: ChainPrepareLanes_def)
qed

end

end
