(* ===== verification/Demo.thy ===== *)
theory Demo
  imports Lane
begin

text \<open>
  A small concrete lane: its mempool is a list in the order of insertion, a transaction is
  encoded as its raw bytes (any other is refused), and no ante handler is set. The concrete instances of the
  theorems about lanes are stated on it.
\<close>

definition demo_tx :: "bytes \<Rightarrow> tx" where
  "demo_tx bz = \<lparr>GetMsgs = [], GetFee = None, GetTimeoutHeight = None,
     SigVerifiable = None, tx_raw = bz\<rparr>"

definition demo_encoder :: tx_encoder where
  "demo_encoder t = (if t = demo_tx (tx_raw t) then Ok (tx_raw t) else Err (ErrMsg ''encode''))"

definition demo_cfg :: "(int, unit) LaneConfig" where
  "demo_cfg = \<lparr>Logger = Some (), TxEncoder = Some demo_encoder,
     TxDecoder = Some (\<lambda>bz. Ok (demo_tx bz)),
     AnteHandler = None, MaxBlockSpace = 0, IgnoreList = [], MaxTxs = 0\<rparr>"

definition list_mempool :: "(tx list, unit) LaneMempool_ops" where
  "list_mempool = \<lparr>mp_Insert = (\<lambda>m ctx t. (m @ [t], Ok ())),
     mp_Remove = (\<lambda>m t. (remove1 t m, Ok ())), mp_Select = (\<lambda>m. (m, m)),
     mp_CountTx = (\<lambda>m. int (length m)), mp_Compare = (\<lambda>m ctx a b. Ok 0),
     mp_Contains = (\<lambda>m t. t \<in> set m)\<rparr>"

definition demo_core :: "tx list \<Rightarrow> (tx list, int, unit) lane_core" where
  "demo_core m = \<lparr>cfg = demo_cfg, laneName = ''demo'', mempool_ops = list_mempool,
     mempool = m, matchHandler = DefaultMatchHandler\<rparr>"

definition demo_lane ::
  "(tx list, int, unit) prepare_handler \<Rightarrow> tx list \<Rightarrow> (tx list, int, unit) LaneConstructor" where
  "demo_lane h m = \<lparr>core = demo_core m, prepareLaneHandler = h,
     checkOrderHandler = DefaultCheckOrderHandler,
     processLaneHandler = DefaultProcessLaneHandler\<rparr>"

definition const_handler :: "bytes list \<Rightarrow> (tx list, int, unit) prepare_handler" where
  "const_handler sel l ctx p mx = (mempool l, ctx, Ok (sel, []))"

definition demo_ctx :: "unit Context" where
  "demo_ctx = \<lparr>BlockHeight = 1, IsCheckTx = False, IsReCheckTx = False, Priority = 0,
     GasLimit = 0, GasConsumed = 0, TxBytes = [], ctx_events = [],
     ms = \<lparr>builder_store = Map.empty, module_state = ()\<rparr>\<rparr>"

lemma demo_simps [simp]:
  "tx_raw (demo_tx bz) = bz"
  "demo_tx bz = demo_tx bz' \<longleftrightarrow> bz = bz'"
  "demo_encoder (demo_tx bz) = Ok bz"
  "lane_Select (demo_core m) = (m, m)"
  "lane_TxEncoder (demo_core m) = demo_encoder"
  "lane_TxDecoder (demo_core m) = (\<lambda>bz. Ok (demo_tx bz))"
  "Match (demo_core m) ctx t"
  "AnteVerifyTx (demo_core m) ctx t sim = (ctx, Ok ())"
  "lane_Compare (demo_core m) ctx a b = Ok 0"
  "lane_GetMaxBlockSpace (demo_core m) = 0"
  "core (demo_lane h m) = demo_core m"
  "prepareLaneHandler (demo_lane h m) = h"
  "checkOrderHandler (demo_lane h m) = DefaultCheckOrderHandler"
  "processLaneHandler (demo_lane h m) = DefaultProcessLaneHandler"
  by (simp_all add: demo_tx_def demo_encoder_def lane_Select_def demo_core_def list_mempool_def
      lane_TxEncoder_def lane_TxDecoder_def demo_cfg_def Match_iff DefaultMatchHandler_def
      AnteVerifyTx_def lane_Compare_def lane_GetMaxBlockSpace_def demo_lane_def fun_eq_iff)

lemma demo_encoder_Ok: "demo_encoder t = Ok bz \<Longrightarrow> t = demo_tx bz"
  by (auto simp: demo_encoder_def split: if_splits)

end
