(* ===== verification/Lane_Correct.thy ===== *)
theory Lane_Correct
  imports Demo "HOL-Library.Multiset"
begin

text \<open>
  What the default handlers of a lane guarantee: which transactions the prepare handler
  selects and removes, that the process handler accepts what the prepare handler selected,
  what the order check decides, and what \<open>PrepareLane\<close> may do to the proposal.
\<close>

section \<open>Byte limits of one transaction\<close>

definition small_txs :: "('m, 'd, 'b) lane_core \<Rightarrow> tx list \<Rightarrow> bool" where
  "small_txs l ts \<longleftrightarrow> (\<forall>t \<in> set ts. \<forall>bz. lane_TxEncoder l t = Ok bz \<longrightarrow> int (length bz) < 2 ^ 62)"

lemma small_txs_Cons [simp]:
  "small_txs l (t # ts) \<longleftrightarrow>
     (\<forall>bz. lane_TxEncoder l t = Ok bz \<longrightarrow> int (length bz) < 2 ^ 62) \<and> small_txs l ts"
  by (auto simp: small_txs_def)

lemma small_txs_Nil [simp]: "small_txs l []"
  by (simp add: small_txs_def)

section \<open>The selection loop\<close>

text \<open>The transaction \<open>t\<close>, encoded as \<open>bz\<close>, may be part of the lane's portion of \<open>p\<close>.\<close>

definition selectable ::
  "(bytes \<Rightarrow> bytes) \<Rightarrow> ('m, 'd, 'b) lane_core \<Rightarrow> Proposal \<Rightarrow> tx \<Rightarrow> bytes \<Rightarrow> bool" where
  "selectable sha l p t bz \<longleftrightarrow>
     lane_TxEncoder l t = Ok bz \<and> \<not> Proposal_Contains sha p bz \<and>
     (\<exists>c c'. Match l c t \<and> AnteVerifyTx l c t False = (c', Ok ()))"

text \<open>
  One iteration of the loop: the transaction is put on the removal list, skipped, makes the
  loop stop, or is selected.
\<close>

lemma prepare_loop_Cons_cases:
  assumes "prepare_loop sha l p mx (t # ts) ctx tot sel rm = (ctx', Ok r)"
  obtains (remove) c where
      "prepare_loop sha l p mx ts c tot sel (rm @ [t]) = (ctx', Ok r)"
      "c = ctx \<or> (\<exists>e. AnteVerifyTx l ctx t False = (c, Err e))"
  | (skip) "prepare_loop sha l p mx ts ctx tot sel rm = (ctx', Ok r)"
  | (stop) "r = (sel, rm)" "ctx' = ctx"
  | (take) bz c where
      "lane_TxEncoder l t = Ok bz" "Match l ctx t" "\<not> Proposal_Contains sha p bz"
      "i64 (tot + int (length bz)) \<le> mx" "AnteVerifyTx l ctx t False = (c, Ok ())"
      "prepare_loop sha l p mx ts c (i64 (tot + int (length bz))) (sel @ [bz]) rm = (ctx', Ok r)"
proof (cases "lane_TxEncoder l t")
  case (Ok bz)
  then have h: "GetTxHashStr sha (lane_TxEncoder l) t = outcome.Ok (bz, hash_str sha bz)"
    by (simp add: GetTxHashStr_eq_Ok)
  obtain c ra where a: "AnteVerifyTx l ctx t False = (c, ra)" by fastforce
  note eq = assms [unfolded prepare_loop.simps h outcome.case prod.case Let_def a]
  consider "\<not> Match l ctx t" | "Match l ctx t" "Proposal_Contains sha p bz"
    | "Match l ctx t" "\<not> Proposal_Contains sha p bz" "mx < i64 (tot + int (length bz))"
    | "Match l ctx t" "\<not> Proposal_Contains sha p bz" "i64 (tot + int (length bz)) \<le> mx"
    by linarith
  then show ?thesis
  proof cases
    case 1
    with eq show ?thesis by (intro remove [of ctx]) simp_all
  next
    case 2
    with eq show ?thesis by (intro skip) simp
  next
    case 3
    with eq show ?thesis by (intro stop) simp_all
  next
    case 4
    show ?thesis
    proof (cases ra)
      case (Ok u)
      with 4 eq a \<open>lane_TxEncoder l t = _\<close> show ?thesis by (intro take [of bz c]) simp_all
    next
      case (Err e)
      with 4 eq a show ?thesis by (intro remove [of c]) simp_all
    next
      case (Panic s)
      with 4 eq show ?thesis by simp
    qed
  qed
next
  case (Err e)
  then show ?thesis using assms that(1) [of ctx] by (auto simp: GetTxHashStr_def)
next
  case (Panic s)
  then show ?thesis using assms by (auto simp: GetTxHashStr_def)
qed

text \<open>
  The result of the loop: the selected transactions are a subsequence of the iterated ones,
  in order, each selectable; together they stay within the limit; no transaction is both
  selected and removed.
\<close>

lemma prepare_loop_sound:
  assumes "prepare_loop sha l p mx ts ctx tot sel rm = (ctx', Ok (sel', rm'))"
    and "small_txs l ts" "tot = txs_size sel" "tot < 2 ^ 62" "mx < 2 ^ 62"
  shows "\<exists>chosen bzs removed.
     sel' = sel @ bzs \<and> rm' = rm @ removed \<and> list_all2 (selectable sha l p) chosen bzs \<and>
     subseq chosen ts \<and> subseq removed ts \<and> mset chosen + mset removed \<subseteq># mset ts \<and>
     (tot \<le> mx \<longrightarrow> txs_size sel' \<le> mx)"
  using assms
proof (induction ts arbitrary: ctx tot sel rm)
  case Nil
  then show ?case by auto
next
  case (Cons t ts)
  from Cons.prems(1) show ?case
  proof (cases rule: prepare_loop_Cons_cases)
    case (remove c)
    from Cons.IH [OF remove(1)] Cons.prems obtain ch bzs rs where *:
      "sel' = sel @ bzs" "rm' = (rm @ [t]) @ rs" "list_all2 (selectable sha l p) ch bzs"
      "subseq ch ts" "subseq rs ts" "mset ch + mset rs \<subseteq># mset ts"
      "tot \<le> mx \<longrightarrow> txs_size sel' \<le> mx"
      by auto
    have "mset ch + mset (t # rs) \<subseteq># mset (t # ts)" using *(6) by simp
    with * show ?thesis
      by (intro exI [of _ ch] exI [of _ bzs] exI [of _ "t # rs"]) (auto intro: subseq_Cons2)
  next
    case skip
    from Cons.IH [OF skip] Cons.prems obtain ch bzs rs where *:
      "sel' = sel @ bzs" "rm' = rm @ rs" "list_all2 (selectable sha l p) ch bzs"
      "subseq ch ts" "subseq rs ts" "mset ch + mset rs \<subseteq># mset ts"
      "tot \<le> mx \<longrightarrow> txs_size sel' \<le> mx"
      by auto
    have "mset ch + mset rs \<subseteq># mset (t # ts)"
      using *(6) by (metis mset.simps(2) subset_mset.order_trans mset_subset_eq_add_right
          add_mset_add_single union_commute)
    with * show ?thesis
      by (intro exI [of _ ch] exI [of _ bzs] exI [of _ rs]) auto
  next
    case stop
    then show ?thesis
      using Cons.prems by (intro exI [of _ "[]"]) auto
  next
    case (take bz c)
    have sz: "i64 (tot + int (length bz)) = tot + int (length bz)"
      using Cons.prems take(1) by (intro i64_nonneg) auto
    have "tot + int (length bz) < 2 ^ 62" using take(4) Cons.prems(5) sz by simp
    with Cons.IH [OF take(6)] Cons.prems sz obtain ch bzs rs where *:
      "sel' = (sel @ [bz]) @ bzs" "rm' = rm @ rs" "list_all2 (selectable sha l p) ch bzs"
      "subseq ch ts" "subseq rs ts" "mset ch + mset rs \<subseteq># mset ts"
      "tot + int (length bz) \<le> mx \<longrightarrow> txs_size sel' \<le> mx"
      by auto
    have "selectable sha l p t bz" using take by (auto simp: selectable_def)
    moreover have "mset (t # ch) + mset rs \<subseteq># mset (t # ts)" using *(6) by simp
    ultimately show ?thesis
      using * take(4) sz
      by (intro exI [of _ "t # ch"] exI [of _ "bz # bzs"] exI [of _ rs])
        (auto intro: subseq_Cons2)
  qed
qed

section \<open>Prepare and process agree\<close>

text \<open>
  The ante handler leaves the context as it was when it rejects a transaction. The handlers
  of \<^verbatim>\<open>lane_handlers.go\<close> do not run it on a cached context, so this is a property that they
  need of the handler itself.
\<close>

definition ante_atomic :: "('m, 'd, 'b) lane_core \<Rightarrow> bool" where
  "ante_atomic l \<longleftrightarrow> (\<forall>c t c' e. AnteVerifyTx l c t False = (c', Err e) \<longrightarrow> c' = c)"

lemma prepare_loop_process:
  assumes "prepare_loop sha l p mx ts ctx tot sel rm = (ctx', Ok (sel', rm'))"
    and "ante_atomic l"
  shows "\<exists>chosen bzs. sel' = sel @ bzs \<and> subseq chosen ts \<and>
     list_all2 (\<lambda>t bz. lane_TxEncoder l t = Ok bz) chosen bzs \<and>
     DefaultProcessLaneHandler l ctx chosen = (ctx', Ok [])"
  using assms
proof (induction ts arbitrary: ctx tot sel rm)
  case Nil
  then show ?case by auto
next
  case (Cons t ts)
  from Cons.prems(1) show ?case
  proof (cases rule: prepare_loop_Cons_cases)
    case (remove c)
    then have "c = ctx" using Cons.prems(2) by (auto simp: ante_atomic_def)
    with Cons.IH [OF remove(1)] Cons.prems(2) show ?thesis by blast
  next
    case skip
    from Cons.IH [OF skip] Cons.prems(2) show ?thesis by blast
  next
    case stop
    then show ?thesis by (intro exI [of _ "[]"]) auto
  next
    case (take bz c)
    from Cons.IH [OF take(6) Cons.prems(2)] obtain ch bzs where *:
      "sel' = (sel @ [bz]) @ bzs" "subseq ch ts"
      "list_all2 (\<lambda>t bz. lane_TxEncoder l t = Ok bz) ch bzs"
      "DefaultProcessLaneHandler l c ch = (ctx', Ok [])"
      by auto
    with take show ?thesis
      by (intro exI [of _ "t # ch"] exI [of _ "bz # bzs"]) (auto intro: subseq_Cons2)
  qed
qed

section \<open>The process handler\<close>

text \<open>Verifying transactions one after the other, each on the context left by the one before.\<close>

fun ante_run :: "('m, 'd, 'b) lane_core \<Rightarrow> 'b Context \<Rightarrow> tx list \<Rightarrow> 'b Context option" where
  "ante_run l ctx [] = Some ctx"
| "ante_run l ctx (t # ts) =
     (if Match l ctx t then
        (case AnteVerifyTx l ctx t False of (ctx', Ok _) \<Rightarrow> ante_run l ctx' ts | _ \<Rightarrow> None)
      else None)"

lemma DefaultProcessLaneHandler_Ok:
  "DefaultProcessLaneHandler l ctx ts = (ctx', Ok rest) \<longleftrightarrow>
     (\<exists>done. ts = done @ rest \<and> ante_run l ctx done = Some ctx' \<and>
        (rest = [] \<or> \<not> Match l ctx' (hd rest)))"
proof (induction ts arbitrary: ctx)
  case Nil
  then show ?case by auto
next
  case (Cons t ts)
  obtain c ra where a: "AnteVerifyTx l ctx t False = (c, ra)" by fastforce
  show ?case
  proof (cases "Match l ctx t")
    case True
    have "(\<exists>done. t # ts = done @ rest \<and> ante_run l ctx done = Some ctx' \<and>
        (rest = [] \<or> \<not> Match l ctx' (hd rest))) \<longleftrightarrow>
      (\<exists>done. ts = done @ rest \<and> ante_run l ctx (t # done) = Some ctx' \<and>
        (rest = [] \<or> \<not> Match l ctx' (hd rest)))"
      using True by (auto simp: Cons_eq_append_conv)
    then show ?thesis using True a Cons.IH [of c] by (cases ra) auto
  next
    case False
    then show ?thesis by (auto simp: Cons_eq_append_conv)
  qed
qed

section \<open>The order check\<close>

definition compare_total :: "('m, 'd, 'b) lane_core \<Rightarrow> 'b Context \<Rightarrow> (tx \<Rightarrow> tx \<Rightarrow> int) \<Rightarrow> bool" where
  "compare_total l ctx c \<longleftrightarrow> (\<forall>a b. lane_Compare l ctx a b = Ok (c a b))"

lemma check_order_loop_seen:
  "check_order_loop l ctx True prev ts = Ok () \<longleftrightarrow> (\<forall>t \<in> set ts. \<not> Match l ctx t)"
  by (induction ts arbitrary: prev) (auto split: option.splits)

text \<open>The specification of the order check.\<close>

definition ordered_lane_prefix ::
  "('m, 'd, 'b) lane_core \<Rightarrow> 'b Context \<Rightarrow> (tx \<Rightarrow> tx \<Rightarrow> int) \<Rightarrow> tx list \<Rightarrow> bool" where
  "ordered_lane_prefix l ctx c ts \<longleftrightarrow>
     (\<forall>t \<in> set (dropWhile (Match l ctx) ts). \<not> Match l ctx t) \<and>
     successively (\<lambda>a b. c a b \<noteq> -1) (takeWhile (Match l ctx) ts)"

lemma check_order_loop_Some:
  assumes "compare_total l ctx c"
  shows "check_order_loop l ctx False (Some q) ts = Ok () \<longleftrightarrow>
     (\<forall>t \<in> set (dropWhile (Match l ctx) ts). \<not> Match l ctx t) \<and>
     successively (\<lambda>a b. c a b \<noteq> -1) (q # takeWhile (Match l ctx) ts)"
  using assms
  by (induction ts arbitrary: q) (auto simp: compare_total_def check_order_loop_seen)

lemma DefaultCheckOrderHandler_Ok:
  assumes "compare_total l ctx c"
  shows "DefaultCheckOrderHandler l ctx ts = Ok () \<longleftrightarrow> ordered_lane_prefix l ctx c ts"
proof (cases ts)
  case Nil
  then show ?thesis by (simp add: DefaultCheckOrderHandler_def ordered_lane_prefix_def)
next
  case (Cons t us)
  then show ?thesis
    using check_order_loop_Some [OF assms, of t us]
    by (auto simp: DefaultCheckOrderHandler_def ordered_lane_prefix_def check_order_loop_seen)
qed

section \<open>Properties\<close>

text \<open>
  C29: The transactions that the default prepare handler selects are a subsequence of the
  mempool's order; each was encoded by the lane's encoder, is not yet in the proposal,
  matched the lane and passed the ante handler. Their total size is within the limit, the
  transactions to remove come from the mempool, and none is both selected and removed.
\<close>

theorem DefaultPrepareLaneHandler_selects:
  assumes "DefaultPrepareLaneHandler sha l ctx p mx = (m', ctx', Ok (sel, rm))"
    and "small_txs l (snd (lane_Select l))" and "mx < 2 ^ 62"
  shows "\<exists>chosen. list_all2 (selectable sha l p) chosen sel \<and>
     subseq chosen (snd (lane_Select l)) \<and> subseq rm (snd (lane_Select l)) \<and>
     mset chosen + mset rm \<subseteq># mset (snd (lane_Select l)) \<and>
     (0 \<le> mx \<longrightarrow> txs_size sel \<le> mx)"
proof -
  have "prepare_loop sha l p mx (snd (lane_Select l)) ctx 0 [] [] = (ctx', Ok (sel, rm))"
    using assms(1) by (auto simp: DefaultPrepareLaneHandler_def split: prod.splits)
  from prepare_loop_sound [OF this assms(2) _ _ assms(3)] show ?thesis by auto
qed

theorem DefaultPrepareLaneHandler_selects_witness:
  "\<exists>chosen. list_all2 (selectable id (demo_core [demo_tx [1, 2], demo_tx [3, 4, 5], demo_tx [6]])
       (NewProposal 9)) chosen [[1, 2], [3, 4, 5]] \<and>
     subseq chosen [demo_tx [1, 2], demo_tx [3, 4, 5], demo_tx [6]] \<and>
     txs_size [[1, 2], [3, 4, 5]] \<le> (5 :: int)"
proof -
  let ?m = "[demo_tx [1, 2], demo_tx [3, 4, 5], demo_tx [6]]"
  have "DefaultPrepareLaneHandler id (demo_core ?m) demo_ctx (NewProposal 9) 5
      = (?m, demo_ctx, Ok ([[1, 2], [3, 4, 5]], []))"
    by (simp add: DefaultPrepareLaneHandler_def GetTxHashStr_def Proposal_Contains_def
        NewProposal_def i64_def)
  from DefaultPrepareLaneHandler_selects [OF this] show ?thesis
    by (auto simp: small_txs_def)
qed

text \<open>
  C30: The default order check accepts a list of transactions exactly when the lane's
  transactions are a prefix of it and no two neighbours of that prefix are in ascending
  priority.
\<close>

theorem DefaultCheckOrderHandler_spec:
  assumes "\<And>a b. lane_Compare l ctx a b = Ok (c a b)"
  shows "DefaultCheckOrderHandler l ctx ts = Ok () \<longleftrightarrow>
     (\<exists>own others. ts = own @ others \<and> (\<forall>t \<in> set own. Match l ctx t) \<and>
        (\<forall>t \<in> set others. \<not> Match l ctx t) \<and> successively (\<lambda>a b. c a b \<noteq> -1) own)"
    (is "?L = ?R")
proof -
  have "?L \<longleftrightarrow> ordered_lane_prefix l ctx c ts"
    by (rule DefaultCheckOrderHandler_Ok) (simp add: compare_total_def assms)
  also have "\<dots> \<longleftrightarrow> ?R"
  proof
    assume "ordered_lane_prefix l ctx c ts"
    then show ?R
      by (intro exI [of _ "takeWhile (Match l ctx) ts"] exI [of _ "dropWhile (Match l ctx) ts"])
        (auto simp: ordered_lane_prefix_def dest: set_takeWhileD)
  next
    assume ?R
    then obtain own others where *: "ts = own @ others" "\<forall>t \<in> set own. Match l ctx t"
      "\<forall>t \<in> set others. \<not> Match l ctx t" "successively (\<lambda>a b. c a b \<noteq> -1) own" by blast
    then have "takeWhile (Match l ctx) ts = own" "dropWhile (Match l ctx) ts = others"
      by (cases others; simp)+
    with * show "ordered_lane_prefix l ctx c ts" by (simp add: ordered_lane_prefix_def)
  qed
  finally show ?thesis .
qed

theorem DefaultCheckOrderHandler_spec_witness:
  "DefaultCheckOrderHandler (demo_core []) demo_ctx [demo_tx [1], demo_tx [2]] = Ok ()"
proof -
  have "lane_Compare (demo_core []) demo_ctx a b = Ok ((\<lambda>_ _. 0) a b)" for a b
    by simp
  from DefaultCheckOrderHandler_spec [OF this, of "[demo_tx [1], demo_tx [2]]"] show ?thesis
    by force
qed

end
