(* ===== verification/Abci_Correct.thy ===== *)
theory Abci_Correct
  imports Abci Lane_Correct
begin

text \<open>
  The proposal handlers on the lanes of the repository: the lanes satisfy the contract of
  \<open>preparing_lanes\<close> whatever their handlers are, so a prepared block never exceeds the
  limit of the request and no lane can make the preparation fail; and what an accepted
  proposal looks like.
\<close>

section \<open>What PrepareLane does to the proposal\<close>

lemma lane_set_mempool_simps [simp]:
  "prepareLaneHandler (lane_set_mempool m l) = prepareLaneHandler l"
  "checkOrderHandler (lane_set_mempool m l) = checkOrderHandler l"
  "processLaneHandler (lane_set_mempool m l) = processLaneHandler l"
  "cfg (core (lane_set_mempool m l)) = cfg (core l)"
  "laneName (core (lane_set_mempool m l)) = laneName (core l)"
  "lane_proposal (core (lane_set_mempool m l)) = lane_proposal (core l)"
  by (simp_all add: lane_set_mempool_def lane_proposal_def lane_GetMaxBlockSpace_def lane_Name_def)

text \<open>
  Either the lane fails before the lanes behind it are called, and the proposal is as it
  was, or its transactions are in the proposal and the lanes behind it are called.
\<close>

lemma PrepareLane_cases:
  assumes "PrepareLane D sha l w ctx p mx next = (l', w', ctx', p', r)"
  obtains (fail) m where "l' = lane_set_mempool m l" "w' = w" "p' = p" "r \<noteq> Ok ()"
  | (ok) m1 c1 sel rm m2 p1 where
      "prepareLaneHandler l (core l) ctx p mx = (m1, c1, Ok (sel, rm))"
      "UpdateProposal D sha (lane_proposal (core l)) sel p = (p1, Ok ())"
      "next w (sync_ctx ctx c1) p1 = (w', ctx', p', r)" "l' = lane_set_mempool m2 l"
proof -
  obtain m1 c1 hr where h: "prepareLaneHandler l (core l) ctx p mx = (m1, c1, hr)"
    using prod_cases3 by blast
  show ?thesis
  proof (cases hr)
    case (Ok a)
    obtain sel rm where a: "a = (sel, rm)" by fastforce
    obtain m2 rr where rem: "RemoveTxsFromLane (mp_Remove (mempool_ops (core l))) rm m1 = (m2, rr)"
      by fastforce
    obtain p1 ur where up: "UpdateProposal D sha (lane_proposal (core l)) sel p = (p1, ur)"
      by fastforce
    obtain w2 c2 p2 r2 where nx: "next w (sync_ctx ctx c1) p1 = (w2, c2, p2, r2)"
      using prod_cases4 by blast
    have un: "ur \<noteq> outcome.Ok () \<Longrightarrow> p1 = p" using UpdateProposal_fail_unchanged [OF up] by simp
    show ?thesis
    proof (cases rr)
      case (Panic s)
      with assms h Ok a rem that(1) show ?thesis by (auto simp: PrepareLane_def Let_def)
    qed (use assms h Ok a rem up nx un that in
        \<open>(cases ur; auto simp: PrepareLane_def Let_def)\<close>)+
  next
    case (Err e)
    with assms h that(1) show ?thesis by (auto simp: PrepareLane_def Let_def)
  next
    case (Panic s)
    with assms h that(1) show ?thesis by (auto simp: PrepareLane_def Let_def)
  qed
qed

text \<open>A handler that never returns more bytes than fit in memory.\<close>

definition bounded_handler :: "('m, 'd, 'b) prepare_handler \<Rightarrow> bool" where
  "bounded_handler h \<longleftrightarrow>
     (\<forall>c ctx p mx m ctx' sel rm. h c ctx p mx = (m, ctx', Ok (sel, rm)) \<longrightarrow> bounded_txs sel)"

lemma bounded_handlerD:
  "bounded_handler h \<Longrightarrow> h c ctx p mx = (m, ctx', Ok (sel, rm)) \<Longrightarrow> bounded_txs sel"
  unfolding bounded_handler_def by blast

fun bounded_lane :: "('m, 'd, 'b) lane \<Rightarrow> bool" where
  "bounded_lane (LaneC l) = bounded_handler (prepareLaneHandler l)"
| "bounded_lane TerminatorLane = True"

definition block_inv :: "(bytes \<Rightarrow> bytes) \<Rightarrow> int \<Rightarrow> Proposal \<Rightarrow> bool" where
  "block_inv sha mx p \<longleftrightarrow>
     wf_proposal sha p \<and> maxTxBytes p = mx \<and> mx < 2 ^ 62 \<and> voteExtensions p = []"

lemma block_inv_update:
  assumes "UpdateProposal D sha lane sel p = (p', r)" "block_inv sha mx p" "bounded_txs sel"
  shows "block_inv sha mx p'"
  using UpdateProposal_wf [OF assms(1)] UpdateProposal_frame [OF assms(1)] assms(2,3)
  by (auto simp: block_inv_def)

interpretation bb_lanes: preparing_lanes "lane_methods D sha" bounded_lane "block_inv sha mx"
  for D :: "'d dec_ops" and sha mx
proof (unfold_locales, goal_cases)
  case 1
  then show ?case by simp
next
  case (2 l w p "next" ctx lim l' w' ctx' p' r)
  show ?case
  proof (cases l)
    case (LaneC lc)
    with 2(5) obtain lc' where
      pl: "PrepareLane D sha lc w ctx p lim next = (lc', w', ctx', p', r)" "l' = LaneC lc'"
      by (auto split: prod.splits)
    from pl(1) show ?thesis
    proof (cases rule: PrepareLane_cases)
      case (fail m)
      with 2 LaneC pl(2) show ?thesis by simp
    next
      case (ok m1 c1 sel rm m2 p1)
      have "bounded_handler (prepareLaneHandler lc)" using 2(1) LaneC by simp
      then have "bounded_txs sel" using ok(1) by (rule bounded_handlerD)
      then have "block_inv sha mx p1" using block_inv_update [OF ok(2) 2(3)] by simp
      from next_keepsD [OF 2(4) 2(2) this ok(3)] 2(1) LaneC pl(2) ok(4) show ?thesis by simp
    qed
  next
    case TerminatorLane
    with 2 show ?thesis by (auto simp: terminator_defs)
  qed
qed

section \<open>Preparing a block\<close>

text \<open>
  C2: Whatever the handlers of the lanes do (select, fail or panic), preparing a proposal
  with at least one lane returns no error, and the transactions of the response never
  exceed the byte limit of the request.
\<close>

theorem PrepareProposal_within_limit:
  assumes "lanes \<noteq> []" and "list_all bounded_lane lanes" and "mx < 2 ^ 62"
    and "PrepareProposalHandler (lane_methods D sha) D lanes ctx mx = (lanes', ctx', resp, err)"
  shows "err = None \<and> txs_size resp \<le> max 0 mx"
proof -
  have "block_inv sha mx (NewProposal mx)"
    using assms(3) by (simp add: block_inv_def) (simp add: NewProposal_def)
  then obtain ls c p where e:
    "ChainPrepareLanes (lane_methods D sha) D lanes ctx (NewProposal mx) = (ls, c, p, Ok ())"
    and p: "block_inv sha mx p"
    using bb_lanes.ChainPrepareLanes_Ok [OF assms(2) _ assms(1)] by blast
  from p have "txs_size (GetProposal p) \<le> max 0 mx"
    by (auto simp: block_inv_def wf_proposal_def GetProposal_def)
  with e assms(4) show ?thesis by (auto simp: PrepareProposalHandler_def)
qed

section \<open>A failing lane is skipped\<close>

text \<open>
  C31: A lane whose prepare handler returns an error or panics contributes nothing: with a
  lane and the terminator behind it, the context and the proposal after the chain are those
  of the chain without it.
\<close>

theorem failing_lane_skipped:
  assumes "GetMaxTxBytesForLane D (GetMaxTxBytes p) (GetTotalTxBytes p)
             (lane_GetMaxBlockSpace (core l)) = Ok mx"
    and "prepareLaneHandler l (core l) (CacheContext ctx) p mx = (m, c, r)" and "\<not> is_Ok r"
    and "2 \<le> length rest"
    and "prepare_chain (lane_methods D sha) D n rest ctx p = (rest', ctx', p', r')"
  shows "prepare_chain (lane_methods D sha) D (Suc n) (LaneC l # rest) ctx p =
     (LaneC (lane_set_mempool m l) # rest', ctx', p', r')"
proof -
  have "\<exists>r1 c1. r1 \<noteq> Ok () \<and>
    PrepareLane D sha l rest (CacheContext ctx) p mx (prepare_chain (lane_methods D sha) D n)
     = (lane_set_mempool m l, rest, c1, p, r1)"
    using assms(2,3) by (cases r) (auto simp: PrepareLane_def Let_def)
  then obtain r1 c1 where r1: "r1 \<noteq> Ok ()" and pl:
    "PrepareLane D sha l rest (CacheContext ctx) p mx (prepare_chain (lane_methods D sha) D n)
     = (lane_set_mempool m l, rest, c1, p, r1)" by blast
  have "attempt_lane (lane_methods D sha) D (LaneC l) rest (CacheContext ctx) p
      (prepare_chain (lane_methods D sha) D n)
     = (LaneC (lane_set_mempool m l), rest, c1, p, r1)"
    using pl assms(1) by (simp add: attempt_lane_def)
  from prepare_chain_step(3) [OF this r1 _ assms(5)] assms(4) show ?thesis by simp
qed

theorem PrepareProposal_within_limit_witness:
  "case PrepareProposalHandler (lane_methods int_dec_ops id) int_dec_ops
      [LaneC (demo_lane PanicPrepareLaneHandler []), LaneC (demo_lane (const_handler [[1, 2]]) [])]
      demo_ctx 7 of
     (lanes', ctx', resp, err) \<Rightarrow> err = None \<and> txs_size resp \<le> max 0 7"
proof -
  let ?lanes = "[LaneC (demo_lane PanicPrepareLaneHandler []),
    LaneC (demo_lane (const_handler [[1, 2]]) [])]"
  have b: "list_all bounded_lane ?lanes"
    by (simp add: bounded_handler_def const_handler_def PanicPrepareLaneHandler_def
        bounded_txs_def)
  obtain lanes' ctx' resp err where e: "PrepareProposalHandler (lane_methods int_dec_ops id)
     int_dec_ops ?lanes demo_ctx 7 = (lanes', ctx', resp, err)"
    using prod_cases4 by blast
  from PrepareProposal_within_limit [OF _ b _ e] e show ?thesis by simp
qed

theorem failing_lane_skipped_witness:
  "let l = demo_lane PanicPrepareLaneHandler [];
       rest = [LaneC (demo_lane (const_handler [[1, 2]]) []), TerminatorLane];
       I = lane_methods int_dec_ops id
   in prepare_chain I int_dec_ops 3 (LaneC l # rest) demo_ctx (NewProposal 7) =
      (case prepare_chain I int_dec_ops 2 rest demo_ctx (NewProposal 7) of
         (rest', ctx', p', r') \<Rightarrow> (LaneC (lane_set_mempool [] l) # rest', ctx', p', r'))"
proof -
  let ?l = "demo_lane PanicPrepareLaneHandler []" and ?I = "lane_methods int_dec_ops id"
  let ?rest = "[LaneC (demo_lane (const_handler [[1, 2]]) []), TerminatorLane]"
  have lim: "GetMaxTxBytesForLane int_dec_ops (GetMaxTxBytes (NewProposal 7))
      (GetTotalTxBytes (NewProposal 7)) (lane_GetMaxBlockSpace (core ?l)) = Ok 7"
    by (simp add: GetMaxTxBytesForLane_def int_dec_ops_def
        NewProposal_def GetMaxTxBytes_def GetTotalTxBytes_def i64_def)
  have h: "prepareLaneHandler ?l (core ?l) (CacheContext demo_ctx) (NewProposal 7) 7
      = ([], CacheContext demo_ctx, Panic ''panic prepare lanes handler'')"
    by (simp add: PanicPrepareLaneHandler_def demo_core_def)
  obtain rest' ctx' p' r' where e:
    "prepare_chain ?I int_dec_ops 2 ?rest demo_ctx (NewProposal 7) = (rest', ctx', p', r')"
    using prod_cases4 by blast
  have "prepare_chain ?I int_dec_ops (Suc 2) (LaneC ?l # ?rest) demo_ctx (NewProposal 7)
      = (LaneC (lane_set_mempool [] ?l) # rest', ctx', p', r')"
    by (rule failing_lane_skipped [OF lim h _ _ e]) simp_all
  with e show ?thesis by (simp add: Let_def)
qed

section \<open>Processing a block\<close>

text \<open>
  Verifying consecutive segments by consecutive lanes, each transaction on the store that
  the one before it left.
\<close>

fun lanes_run ::
  "('m, 'd, 'b) LaneConstructor list \<Rightarrow> 'b Context \<Rightarrow> tx list list \<Rightarrow> 'b Context option" where
  "lanes_run [] ctx [] = Some ctx"
| "lanes_run (l # ls) ctx (s # ss) =
     (case ante_run (core l) ctx s of None \<Rightarrow> None | Some c \<Rightarrow> lanes_run ls (sync_ctx ctx c) ss)"
| "lanes_run _ _ _ = None"

definition default_handlers :: "('m, 'd, 'b) LaneConstructor \<Rightarrow> bool" where
  "default_handlers l \<longleftrightarrow>
     checkOrderHandler l = DefaultCheckOrderHandler \<and>
     processLaneHandler l = DefaultProcessLaneHandler"

text \<open>Whether a transaction belongs to the lane does not depend on the context.\<close>

definition static_match :: "('m, 'd, 'b) LaneConstructor \<Rightarrow> (tx \<Rightarrow> bool) \<Rightarrow> bool" where
  "static_match l mt \<longleftrightarrow> (\<forall>ctx t. Match (core l) ctx t = mt t)"

lemma sync_ctx_self [simp]: "sync_ctx ctx ctx = ctx"
  by (simp add: sync_ctx_def)

lemma ante_run_Match:
  "ante_run l ctx ts = Some c \<Longrightarrow> (\<And>ctx t. Match l ctx t = mt t) \<Longrightarrow> t \<in> set ts \<Longrightarrow> mt t"
  by (induction ts arbitrary: ctx) (auto split: if_splits prod.splits outcome.splits)

lemma check_order_no_late:
  assumes "check_order_loop l ctx seen prev (xs @ y # ys) = Ok ()" "\<not> Match l ctx y"
  shows "\<forall>t \<in> set ys. \<not> Match l ctx t"
  using assms
proof (induction xs arbitrary: seen prev)
  case Nil
  then show ?case by (simp add: check_order_loop_seen)
next
  case (Cons x xs)
  then show ?case by (auto simp: obind_eq_Ok split: if_splits option.splits)
qed

lemma lanes_run_empty: "lanes_run ls ctx (map (\<lambda>_. []) ls) = Some ctx"
  by (induction ls) simp_all

lemma empty_segments:
  "list_all2 P ls mts \<Longrightarrow> list_all2 (\<lambda>mt seg. \<forall>t \<in> set seg. mt t) mts (map (\<lambda>_. []) ls)"
  by (induction rule: list_all2_induct) simp_all

lemma accepted_segments:
  assumes "process_chain (lane_methods D sha) (map LaneC ls @ [TerminatorLane]) ctx ts
             = (ctx', Ok ())"
    and "list_all default_handlers ls" "list_all2 static_match ls mts"
  shows "\<exists>segs left. ts = concat segs @ left \<and> lanes_run ls ctx segs = Some ctx' \<and>
     list_all2 (\<lambda>mt seg. \<forall>t \<in> set seg. mt t) mts segs \<and>
     (\<forall>mt \<in> set mts. \<forall>t \<in> set left. \<not> mt t)"
  using assms
proof (induction ls arbitrary: ctx ts mts)
  case Nil
  then show ?case
    by (intro exI [of _ "[]"] exI [of _ ts]) (auto simp: terminator_defs split: if_splits)
next
  case (Cons l ls)
  then obtain mt mts' where mts: "mts = mt # mts'" "static_match l mt" "list_all2 static_match ls mts'"
    by (auto simp: list_all2_Cons1)
  have mt: "Match (core l) c t = mt t" for c t using mts(2) by (simp add: static_match_def)
  show ?case
  proof (cases "ts = []")
    case True
    have "list_all2 (\<lambda>mt seg. \<forall>t \<in> set seg. mt t) mts (map (\<lambda>_. []) (l # ls))"
      using Cons.prems(3) by (rule empty_segments)
    moreover have "ctx' = ctx" using True Cons.prems(1) by simp
    ultimately show ?thesis using True
      by (intro exI [of _ "map (\<lambda>_. []) (l # ls)"] exI [of _ "[]"])
        (simp add: lanes_run_empty del: list.map)
  next
    case False
    obtain c r where h: "DefaultProcessLaneHandler (core l) ctx ts = (c, r)" by fastforce
    have ord: "check_order_loop (core l) ctx False None ts = Ok ()"
      using Cons.prems(1,2) False
      by (auto simp: default_handlers_def CheckOrder_def DefaultCheckOrderHandler_def
          split: outcome.splits)
    from Cons.prems(1,2) False h ord obtain rest where r: "r = Ok rest"
      and nx: "process_chain (lane_methods D sha) (map LaneC ls @ [TerminatorLane])
         (sync_ctx ctx c) rest = (ctx', Ok ())"
      by (auto simp: default_handlers_def CheckOrder_def DefaultCheckOrderHandler_def
          ProcessLane_def Let_def split: outcome.splits)
    from h r obtain seg where seg: "ts = seg @ rest" "ante_run (core l) ctx seg = Some c"
      "rest = [] \<or> \<not> Match (core l) c (hd rest)"
      by (auto simp: DefaultProcessLaneHandler_Ok)
    from Cons.IH [OF nx _ mts(3)] Cons.prems(2) obtain segs left where *:
      "rest = concat segs @ left" "lanes_run ls (sync_ctx ctx c) segs = Some ctx'"
      "list_all2 (\<lambda>mt seg. \<forall>t \<in> set seg. mt t) mts' segs"
      "\<forall>mt \<in> set mts'. \<forall>t \<in> set left. \<not> mt t" by auto
    have "\<forall>t \<in> set seg. mt t" using ante_run_Match [OF seg(2) mt] by blast
    moreover have "\<forall>t \<in> set rest. \<not> mt t"
    proof (cases rest)
      case (Cons y ys)
      with check_order_no_late [of "core l" ctx False None seg y ys] ord seg mt show ?thesis
        by auto
    qed simp
    ultimately show ?thesis
      using * seg mts(1) by (intro exI [of _ "seg # segs"] exI [of _ left]) auto
  qed
qed



end
