(* ===== verification/Lane_Mempool.thy ===== *)
theory Lane_Mempool
  imports Lane
begin

text \<open>
  \<^verbatim>\<open>blockbuster/lane_mempool.go\<close>: the mempool of a lane, which adds a cache of transaction hashes
  to an index of transactions, and the default priority of a transaction.
\<close>

section \<open>Priorities\<close>

text \<open>\<open>TxPriority\<close> of \<^verbatim>\<open>priority_nonce.go\<close>; \<open>'p\<close> is the type of priorities.\<close>

record ('p, 'b) TxPriority =
  GetTxPriority :: "'b Context \<Rightarrow> tx \<Rightarrow> 'p outcome"
  ComparePriority :: "'p \<Rightarrow> 'p \<Rightarrow> int"
  MinValue :: 'p

text \<open>The comparison of two coin strings that the default and the auction priority share.\<close>

definition compare_coin_strings :: "coin_set_ops \<Rightarrow> string \<Rightarrow> string \<Rightarrow> int" where
  "compare_coin_strings S a b =
     (case (ParseCoinsNormalized S a, ParseCoinsNormalized S b) of
        (None, None) \<Rightarrow> 0
      | (None, Some bCoins) \<Rightarrow> -1
      | (Some aCoins, None) \<Rightarrow> 1
      | (Some aCoins, Some bCoins) \<Rightarrow>
          if IsAllGT S aCoins bCoins then 1
          else if IsAllLT S aCoins bCoins then -1
          else 0)"

definition DefaultTxPriority :: "coin_set_ops \<Rightarrow> (string, 'b) TxPriority" where
  "DefaultTxPriority S =
     \<lparr>GetTxPriority = (\<lambda>ctx t. case GetFee t of None \<Rightarrow> Ok '''' | Some fee \<Rightarrow> Ok (CoinSet_String S fee)),
      ComparePriority = compare_coin_strings S,
      MinValue = ''''\<rparr>"

section \<open>The lane mempool\<close>

text \<open>The index behind the lane mempool (interface \<^verbatim>\<open>sdkmempool.Mempool\<close>).\<close>

record ('i, 'b) index_ops =
  idx_Insert :: "'i \<Rightarrow> 'b Context \<Rightarrow> tx \<Rightarrow> 'i \<times> unit outcome"
  idx_Remove :: "'i \<Rightarrow> tx \<Rightarrow> 'i \<times> unit outcome"
  idx_Select :: "'i \<Rightarrow> 'i \<times> tx list"
  idx_CountTx :: "'i \<Rightarrow> int"

record ('i, 'p, 'b) ConstructorMempool =
  cm_index :: 'i
  cm_txPriority :: "('p, 'b) TxPriority"
  cm_txEncoder :: "tx_encoder option"
  cm_txCache :: "string set"

text \<open>\<open>newIndex\<close> is \<open>NewPriorityMempool\<close> on the configuration with this priority and cap.\<close>

definition NewConstructorMempool ::
  "(('p, 'b) TxPriority \<Rightarrow> int \<Rightarrow> 'i) \<Rightarrow> ('p, 'b) TxPriority \<Rightarrow> tx_encoder option \<Rightarrow> int
   \<Rightarrow> ('i, 'p, 'b) ConstructorMempool" where
  "NewConstructorMempool newIndex txPriority txEncoder maxTx =
     \<lparr>cm_index = newIndex txPriority maxTx, cm_txPriority = txPriority, cm_txEncoder = txEncoder,
      cm_txCache = {}\<rparr>"

definition cm_hash ::
  "(bytes \<Rightarrow> bytes) \<Rightarrow> ('i, 'p, 'b) ConstructorMempool \<Rightarrow> tx \<Rightarrow> (bytes \<times> string) outcome" where
  "cm_hash sha cm t =
     (case cm_txEncoder cm of None \<Rightarrow> Panic ''nil function call'' | Some enc \<Rightarrow> GetTxHashStr sha enc t)"

definition CM_Remove ::
  "('i, 'b) index_ops \<Rightarrow> (bytes \<Rightarrow> bytes) \<Rightarrow> ('i, 'p, 'b) ConstructorMempool \<Rightarrow> tx
   \<Rightarrow> ('i, 'p, 'b) ConstructorMempool \<times> unit outcome" where
  "CM_Remove IX sha cm t =
     (case idx_Remove IX (cm_index cm) t of (i', r) \<Rightarrow>
        (let cm1 = cm\<lparr>cm_index := i'\<rparr>; 
             notFound = (case r of Err e \<Rightarrow> errors_Is e ErrTxNotFound | _ \<Rightarrow> False)
         in case r of
              Panic s \<Rightarrow> (cm1, Panic s)
            | _ \<Rightarrow>
                if r \<noteq> Ok () \<and> \<not> notFound then
                  (cm1, wrap_err ''failed to remove transaction from the mempool'' r)
                else
                  (case wrap_err ''failed to get tx hash string'' (cm_hash sha cm1 t) of
                     Ok (_, txHashStr) \<Rightarrow> (cm1\<lparr>cm_txCache := cm_txCache cm1 - {txHashStr}\<rparr>, Ok ())
                   | Err e \<Rightarrow> (cm1, Err e)
                   | Panic s \<Rightarrow> (cm1, Panic s))))"

text \<open>If the hash cannot be computed, the transaction is taken out again.\<close>

definition CM_Insert ::
  "('i, 'b) index_ops \<Rightarrow> (bytes \<Rightarrow> bytes) \<Rightarrow> ('i, 'p, 'b) ConstructorMempool \<Rightarrow> 'b Context \<Rightarrow> tx
   \<Rightarrow> ('i, 'p, 'b) ConstructorMempool \<times> unit outcome" where
  "CM_Insert IX sha cm ctx t =
     (case idx_Insert IX (cm_index cm) ctx t of
        (i', Err e) \<Rightarrow> (cm\<lparr>cm_index := i'\<rparr>, Err (ErrWrap ''failed to insert tx into auction index'' e))
      | (i', Panic s) \<Rightarrow> (cm\<lparr>cm_index := i'\<rparr>, Panic s)
      | (i', Ok _) \<Rightarrow>
          (let cm1 = cm\<lparr>cm_index := i'\<rparr>
           in case cm_hash sha cm1 t of
                Ok (_, txHashStr) \<Rightarrow> (cm1\<lparr>cm_txCache := insert txHashStr (cm_txCache cm1)\<rparr>, Ok ())
              | Panic s \<Rightarrow> (cm1, Panic s)
              | Err e \<Rightarrow>
                  (case CM_Remove IX sha cm1 t of
                     (cm2, Panic s) \<Rightarrow> (cm2, Panic s)
                   | (cm2, _) \<Rightarrow> (cm2, Err e))))"

definition CM_Select ::
  "('i, 'b) index_ops \<Rightarrow> ('i, 'p, 'b) ConstructorMempool \<Rightarrow> ('i, 'p, 'b) ConstructorMempool \<times> tx list" where
  "CM_Select IX cm = (case idx_Select IX (cm_index cm) of (i', ts) \<Rightarrow> (cm\<lparr>cm_index := i'\<rparr>, ts))"

definition CM_CountTx :: "('i, 'b) index_ops \<Rightarrow> ('i, 'p, 'b) ConstructorMempool \<Rightarrow> int" where
  "CM_CountTx IX cm = idx_CountTx IX (cm_index cm)"

definition CM_Contains :: "(bytes \<Rightarrow> bytes) \<Rightarrow> ('i, 'p, 'b) ConstructorMempool \<Rightarrow> tx \<Rightarrow> bool" where
  "CM_Contains sha cm t =
     (case cm_hash sha cm t of Ok (_, txHashStr) \<Rightarrow> txHashStr \<in> cm_txCache cm | _ \<Rightarrow> False)"

definition CM_Compare ::
  "('i, 'p, 'b) ConstructorMempool \<Rightarrow> 'b Context \<Rightarrow> tx \<Rightarrow> tx \<Rightarrow> int outcome" where
  "CM_Compare cm ctx this other =
     obind (GetTxPriority (cm_txPriority cm) ctx this) (\<lambda>firstPriority.
     obind (GetTxPriority (cm_txPriority cm) ctx other) (\<lambda>secondPriority.
       Ok (ComparePriority (cm_txPriority cm) firstPriority secondPriority)))"

text \<open>The methods of a lane mempool.\<close>

definition CM_ops ::
  "('i, 'b) index_ops \<Rightarrow> (bytes \<Rightarrow> bytes) \<Rightarrow> (('i, 'p, 'b) ConstructorMempool, 'b) LaneMempool_ops" where
  "CM_ops IX sha =
     \<lparr>mp_Insert = CM_Insert IX sha, mp_Remove = CM_Remove IX sha, mp_Select = CM_Select IX,
      mp_CountTx = CM_CountTx IX, mp_Compare = CM_Compare, mp_Contains = CM_Contains sha\<rparr>"

section \<open>The cache\<close>

lemma CM_Insert_Ok:
  assumes "CM_Insert IX sha cm ctx t = (cm', Ok ())"
  shows "CM_Contains sha cm' t" and "cm_txCache cm \<subseteq> cm_txCache cm'" and "cm_txEncoder cm' = cm_txEncoder cm"
  using assms
  by (auto simp: CM_Insert_def CM_Contains_def cm_hash_def Let_def
      split: prod.splits outcome.splits option.splits)

lemma CM_Remove_Ok:
  assumes "CM_Remove IX sha cm t = (cm', Ok ())"
  shows "\<not> CM_Contains sha cm' t" and "cm_txCache cm' \<subseteq> cm_txCache cm"
    and "cm_txEncoder cm' = cm_txEncoder cm"
    and "cm_hash sha cm u = Ok (bz, h) \<Longrightarrow> cm_hash sha cm t = Ok (bz', h') \<Longrightarrow> h' \<noteq> h \<Longrightarrow>
      CM_Contains sha cm' u = CM_Contains sha cm u"
  using assms
  by (auto simp: CM_Remove_def CM_Contains_def cm_hash_def Let_def
      split: prod.splits outcome.splits option.splits if_splits)

end
