(* ===== verification/Builder_Types.thy ===== *)
theory Builder_Types
  imports Sdk
begin

text \<open>
  The data of \<^verbatim>\<open>x/builder/types\<close>: the module's parameters with their validation, its messages
  with their stateless checks, the genesis state and the information about a bid.
\<close>

section \<open>Parameters\<close>

text \<open>\<open>EscrowAccountAddress\<close> is a byte slice that may be nil; \<open>'d\<close> is the type of decimals.\<close>

record 'd Params =
  MaxBundleSize :: "32 word"
  EscrowAccountAddress :: "bytes option"
  ReserveFee :: coin
  MinBidIncrement :: coin
  FrontRunningProtection :: bool
  ProposerFee :: 'd

definition NewParams ::
  "32 word \<Rightarrow> bytes option \<Rightarrow> coin \<Rightarrow> coin \<Rightarrow> bool \<Rightarrow> 'd \<Rightarrow> 'd Params" where
  "NewParams maxBundleSize escrowAccountAddress reserveFee minBidIncrement
     frontRunningProtection proposerFee =
     \<lparr>MaxBundleSize = maxBundleSize, EscrowAccountAddress = escrowAccountAddress,
      ReserveFee = reserveFee, MinBidIncrement = minBidIncrement,
      FrontRunningProtection = frontRunningProtection, ProposerFee = proposerFee\<rparr>"

text \<open>\<open>moduleAddress\<close> is \<^verbatim>\<open>authtypes.NewModuleAddress(ModuleName)\<close>.\<close>

definition DefaultParams :: "'d dec_ops \<Rightarrow> bytes \<Rightarrow> 'd Params" where
  "DefaultParams D moduleAddress =
     NewParams 2 (Some moduleAddress) \<lparr>Denom = ''stake'', Amount = Some 1\<rparr>
       \<lparr>Denom = ''stake'', Amount = Some 1\<rparr> True (LegacyZeroDec D)"

definition validateFee :: "coin_ops \<Rightarrow> coin \<Rightarrow> unit outcome" where
  "validateFee C fee =
     (if Coin_IsNil C fee then Err (ErrMsg ''fee cannot be nil'') else Coin_Validate C fee)"

definition validateProposerFee :: "'d dec_ops \<Rightarrow> 'd \<Rightarrow> unit outcome" where
  "validateProposerFee D v =
     (if Dec_IsNil D v then Err (ErrMsg ''proposer fee cannot be nil'')
      else if Dec_IsNegative D v then Err (ErrMsg ''proposer fee cannot be negative'')
      else if Dec_GT D v (LegacyOneDec D) then Err (ErrMsg ''proposer fee too large'')
      else Ok ())"

text \<open>
  The errors of \<open>validateFee\<close> are formatted with \<open>%s\<close>, so they are not wrapped. The map
  \<open>denoms\<close> has one entry per distinct denomination.
\<close>

definition Params_Validate :: "coin_ops \<Rightarrow> 'd dec_ops \<Rightarrow> 'd Params \<Rightarrow> unit outcome" where
  "Params_Validate C D p =
     (if EscrowAccountAddress p = None then
        Err (ErrMsg ''escrow account address cannot be nil'')
      else case validateFee C (ReserveFee p) of
        Err e \<Rightarrow> Err (ErrMsg ''invalid reserve fee'')
      | Panic s \<Rightarrow> Panic s
      | Ok _ \<Rightarrow>
          (case validateFee C (MinBidIncrement p) of
             Err e \<Rightarrow> Err (ErrMsg ''invalid minimum bid increment'')
           | Panic s \<Rightarrow> Panic s
           | Ok _ \<Rightarrow>
               obind (Coin_NewCoin C (Denom (MinBidIncrement p)) 0) (\<lambda>zero.
               obind (Coin_IsLTE C (MinBidIncrement p) zero) (\<lambda>lte.
                 if lte then Err (ErrMsg ''minimum bid increment cannot be zero'')
                 else if card {Denom (ReserveFee p), Denom (MinBidIncrement p)} \<noteq> 1 then
                   Err (ErrMsg ''mismatched auction fee denoms'')
                 else validateProposerFee D (ProposerFee p)))))"

section \<open>Messages\<close>

text \<open>The methods \<open>GetSigners\<close> ignore the error of the address conversion (a nil address).\<close>

record 'd MsgUpdateParams =
  Authority :: string
  mup_Params :: "'d Params"

definition addr_or_nil :: "addr_ops \<Rightarrow> string \<Rightarrow> bytes" where
  "addr_or_nil A s = (case AccAddressFromBech32 A s of Ok a \<Rightarrow> a | _ \<Rightarrow> [])"

definition MsgUpdateParams_GetSigners :: "addr_ops \<Rightarrow> 'd MsgUpdateParams \<Rightarrow> bytes list" where
  "MsgUpdateParams_GetSigners A m = [addr_or_nil A (Authority m)]"

definition MsgUpdateParams_ValidateBasic ::
  "addr_ops \<Rightarrow> coin_ops \<Rightarrow> 'd dec_ops \<Rightarrow> 'd MsgUpdateParams \<Rightarrow> unit outcome" where
  "MsgUpdateParams_ValidateBasic A C D m =
     obind (wrap_err ''invalid authority address'' (AccAddressFromBech32 A (Authority m)))
       (\<lambda>_. Params_Validate C D (mup_Params m))"

definition NewMsgAuctionBid :: "addr_ops \<Rightarrow> bytes \<Rightarrow> coin \<Rightarrow> bytes list \<Rightarrow> MsgAuctionBid" where
  "NewMsgAuctionBid A bidder bid transactions =
     \<lparr>Bidder = AccAddress_String A bidder, Bid = bid, Transactions = transactions\<rparr>"

definition MsgAuctionBid_GetSigners :: "addr_ops \<Rightarrow> MsgAuctionBid \<Rightarrow> bytes list" where
  "MsgAuctionBid_GetSigners A m = [addr_or_nil A (Bidder m)]"

fun validate_txs :: "bytes list \<Rightarrow> unit outcome" where
  "validate_txs [] = Ok ()"
| "validate_txs (t # ts) =
     (if t = [] then Err (ErrMsg ''empty transaction included'') else validate_txs ts)"

definition MsgAuctionBid_ValidateBasic ::
  "addr_ops \<Rightarrow> coin_ops \<Rightarrow> MsgAuctionBid \<Rightarrow> unit outcome" where
  "MsgAuctionBid_ValidateBasic A C m =
     obind (wrap_err ''invalid bidder address'' (AccAddressFromBech32 A (Bidder m))) (\<lambda>_.
       if Coin_IsNil C (Bid m) then Err (ErrMsg ''no bid included'')
       else obind (wrap_err ''invalid bid'' (Coin_Validate C (Bid m))) (\<lambda>_.
         if Transactions m = [] then Err (ErrMsg ''no transactions included'')
         else validate_txs (Transactions m)))"

section \<open>Genesis state\<close>

record 'd GenesisState =
  gs_Params :: "'d Params"

definition NewGenesisState :: "'d Params \<Rightarrow> 'd GenesisState" where
  "NewGenesisState p = \<lparr>gs_Params = p\<rparr>"

definition DefaultGenesisState :: "'d dec_ops \<Rightarrow> bytes \<Rightarrow> 'd GenesisState" where
  "DefaultGenesisState D moduleAddress = \<lparr>gs_Params = DefaultParams D moduleAddress\<rparr>"

definition GenesisState_Validate ::
  "coin_ops \<Rightarrow> 'd dec_ops \<Rightarrow> 'd GenesisState \<Rightarrow> unit outcome" where
  "GenesisState_Validate C D gs = Params_Validate C D (gs_Params gs)"

section \<open>Bids\<close>

text \<open>
  \<open>BidInfo\<close>: \<open>Signers\<close> holds, for each transaction of the bundle, the set of addresses that
  signed it. The timeout is an unsigned 64-bit height.
\<close>

record BidInfo =
  bi_Bidder :: bytes
  bi_Bid :: coin
  bi_Transactions :: "bytes list"
  bi_Timeout :: "64 word"
  bi_Signers :: "string set list"

section \<open>What validation guarantees\<close>

lemma validate_txs_Ok_iff: "validate_txs ts = Ok () \<longleftrightarrow> [] \<notin> set ts"
  by (induction ts) auto

lemma validateFee_Ok:
  assumes "coin_laws C" "validateFee C fee = Ok ()"
  shows "Coin_Validate C fee = Ok ()" "\<exists>n. Amount fee = Some n \<and> 0 \<le> n"
  using assms coin_lawsD(8) [OF assms(1)] by (auto simp: validateFee_def split: if_splits)

lemma validateProposerFee_Ok_iff:
  assumes "dec_laws D v"
  shows "validateProposerFee D d = Ok () \<longleftrightarrow> \<not> Dec_IsNil D d \<and> 0 \<le> v d \<and> v d \<le> dec_unit"
  using dec_lawsD [OF assms] by (auto simp: validateProposerFee_def not_less)

text \<open>The parameters that pass validation.\<close>

definition good_params :: "coin_ops \<Rightarrow> 'd dec_ops \<Rightarrow> ('d \<Rightarrow> int) \<Rightarrow> 'd Params \<Rightarrow> bool" where
  "good_params C D v p \<longleftrightarrow>
     EscrowAccountAddress p \<noteq> None \<and>
     Coin_Validate C (ReserveFee p) = Ok () \<and> Coin_Validate C (MinBidIncrement p) = Ok () \<and>
     (\<exists>n. Amount (MinBidIncrement p) = Some n \<and> 0 < n) \<and>
     Denom (ReserveFee p) = Denom (MinBidIncrement p) \<and>
     \<not> Dec_IsNil D (ProposerFee p) \<and> 0 \<le> v (ProposerFee p) \<and> v (ProposerFee p) \<le> dec_unit"

lemma Params_Validate_Ok_iff:
  assumes C: "coin_laws C" and D: "dec_laws D v"
  shows "Params_Validate C D p = Ok () \<longleftrightarrow> good_params C D v p"
proof (cases "validateFee C (ReserveFee p) = Ok () \<and> validateFee C (MinBidIncrement p) = Ok ()")
  case True
  then obtain n where n: "Amount (MinBidIncrement p) = Some n" "0 \<le> n"
    using validateFee_Ok [OF C] by blast
  have val: "Coin_Validate C (ReserveFee p) = Ok ()" "Coin_Validate C (MinBidIncrement p) = Ok ()"
    using True validateFee_Ok [OF C] by blast+
  have z: "Coin_NewCoin C (Denom (MinBidIncrement p)) 0
      = Ok \<lparr>Denom = Denom (MinBidIncrement p), Amount = Some 0\<rparr>"
    using coin_lawsD(9) [OF C val(2)] by simp
  have "Coin_IsLTE C (MinBidIncrement p) \<lparr>Denom = Denom (MinBidIncrement p), Amount = Some 0\<rparr>
      = Ok (n \<le> 0)"
    by (rule coin_lawsD(3) [OF C n(1)]) simp_all
  moreover have "card {Denom (ReserveFee p), Denom (MinBidIncrement p)} = 1 \<longleftrightarrow>
      Denom (ReserveFee p) = Denom (MinBidIncrement p)"
    by (simp add: card_insert_if)
  ultimately show ?thesis
    using True n val z by (auto simp: Params_Validate_def good_params_def
        validateProposerFee_Ok_iff [OF D])
next
  case False
  then have "Params_Validate C D p \<noteq> Ok ()"
    by (auto simp: Params_Validate_def split: outcome.splits)
  moreover have "\<not> good_params C D v p"
  proof
    assume "good_params C D v p"
    then have "Coin_Validate C (ReserveFee p) = Ok ()" "Coin_Validate C (MinBidIncrement p) = Ok ()"
      by (simp_all add: good_params_def)
    with False coin_lawsD(1,8) [OF C] show False by (force simp: validateFee_def)
  qed
  ultimately show ?thesis by simp
qed

end
