(* ===== verification/Auction.thy ===== *)
theory Auction
  imports Lane_Mempool Builder_Types
begin

text \<open>
  \<^verbatim>\<open>blockbuster/lanes/auction\<close>: the top-of-block auction lane. \<^verbatim>\<open>utils.go\<close> and \<^verbatim>\<open>factory.go\<close>
  recognise bids, \<^verbatim>\<open>mempool.go\<close> orders them, \<^verbatim>\<open>abci.go\<close> selects and verifies the winning bundle,
  \<^verbatim>\<open>lane.go\<close> puts the lane together.
\<close>

section \<open>Recognising bids\<close>

fun auction_bid_msgs :: "msg list \<Rightarrow> MsgAuctionBid list" where
  "auction_bid_msgs [] = []"
| "auction_bid_msgs (AuctionBidMsg m # rest) = m # auction_bid_msgs rest"
| "auction_bid_msgs (_ # rest) = auction_bid_msgs rest"

definition GetMsgAuctionBidFromTx :: "tx \<Rightarrow> MsgAuctionBid option outcome" where
  "GetMsgAuctionBidFromTx t =
     (let auctionBidMsgs = auction_bid_msgs (GetMsgs t)
      in if length auctionBidMsgs = 0 then Ok None
         else if length auctionBidMsgs = 1 \<and> length (GetMsgs t) = 1 then Ok (Some (hd auctionBidMsgs))
         else Err (ErrMsg ''invalid MsgAuctionBid transaction''))"

text \<open>The interface \<open>Factory\<close>.\<close>

record 'b Factory =
  WrapBundleTransaction :: "bytes \<Rightarrow> tx outcome"
  GetAuctionBidInfo :: "tx \<Rightarrow> BidInfo option outcome"
  MatchHandler :: "'b match_handler"

fun getBundleSigners :: "addr_ops \<Rightarrow> tx_decoder \<Rightarrow> bytes list \<Rightarrow> string set list outcome" where
  "getBundleSigners A txDecoder [] = Ok []"
| "getBundleSigners A txDecoder (bz # bundle) =
     obind (txDecoder bz) (\<lambda>sdkTx.
       case SigVerifiable sdkTx of
         None \<Rightarrow> Err (ErrMsg ''transaction is not valid'')
       | Some (signers_res, _) \<Rightarrow>
           obind signers_res (\<lambda>signers.
           obind (getBundleSigners A txDecoder bundle) (\<lambda>rest.
             Ok (set (map (AccAddress_String A) signers) # rest))))"

definition Default_GetAuctionBidInfo :: "addr_ops \<Rightarrow> tx_decoder \<Rightarrow> tx \<Rightarrow> BidInfo option outcome" where
  "Default_GetAuctionBidInfo A txDecoder t =
     obind (GetMsgAuctionBidFromTx t) (\<lambda>msg.
       case msg of
         None \<Rightarrow> Ok None
       | Some m \<Rightarrow>
           obind (wrap_err ''invalid bidder address'' (AccAddressFromBech32 A (Bidder m))) (\<lambda>bidder.
             case GetTimeoutHeight t of
               None \<Rightarrow> Err (ErrMsg ''cannot extract timeout; transaction does not implement TxWithTimeoutHeight'')
             | Some timeout \<Rightarrow>
                 obind (getBundleSigners A txDecoder (Transactions m)) (\<lambda>signers.
                   Ok (Some \<lparr>bi_Bidder = bidder, bi_Bid = Bid m, bi_Transactions = Transactions m,
                             bi_Timeout = timeout, bi_Signers = signers\<rparr>))))"

definition Default_MatchHandler :: "addr_ops \<Rightarrow> tx_decoder \<Rightarrow> 'b match_handler" where
  "Default_MatchHandler A txDecoder ctx t =
     (case Default_GetAuctionBidInfo A txDecoder t of Ok (Some bidInfo) \<Rightarrow> True | _ \<Rightarrow> False)"

definition NewDefaultAuctionFactory :: "addr_ops \<Rightarrow> tx_decoder \<Rightarrow> 'b Factory" where
  "NewDefaultAuctionFactory A txDecoder =
     \<lparr>WrapBundleTransaction = txDecoder, GetAuctionBidInfo = Default_GetAuctionBidInfo A txDecoder,
      MatchHandler = Default_MatchHandler A txDecoder\<rparr>"

section \<open>Ordering bids\<close>

text \<open>A failure to get the bid information, and a missing bid, panic.\<close>

definition Auction_TxPriority :: "coin_ops \<Rightarrow> coin_set_ops \<Rightarrow> 'b Factory \<Rightarrow> (string, 'b) TxPriority" where
  "Auction_TxPriority C S config =
     \<lparr>GetTxPriority = (\<lambda>ctx t.
        case GetAuctionBidInfo config t of
          Ok (Some bidInfo) \<Rightarrow> Ok (Coin_String C (bi_Bid bidInfo))
        | Ok None \<Rightarrow> Panic ''nil pointer dereference''
        | Err e \<Rightarrow> Panic ''auction bid info''
        | Panic s \<Rightarrow> Panic s),
      ComparePriority = compare_coin_strings S,
      MinValue = ''''\<rparr>"

definition GetTopAuctionTx :: "('m, 'd, 'b) lane_core \<Rightarrow> 'm \<times> tx option" where
  "GetTopAuctionTx l =
     (case lane_Select l of
        (m', []) \<Rightarrow> (m', None)
      | (m', t # ts) \<Rightarrow> (m', Some t))"

section \<open>Verifying a bid and its bundle\<close>

fun verify_bundle ::
  "'b Factory \<Rightarrow> ('m, 'd, 'b) lane_core \<Rightarrow> 'b Context \<Rightarrow> bytes list \<Rightarrow> 'b Context \<times> unit outcome" where
  "verify_bundle F l ctx [] = (ctx, Ok ())"
| "verify_bundle F l ctx (bz # rest) =
     (case WrapBundleTransaction F bz of
        Err e \<Rightarrow> (ctx, Err (ErrWrap ''invalid bid tx; failed to decode bundled tx'' e))
      | Panic s \<Rightarrow> (ctx, Panic s)
      | Ok bundledTx \<Rightarrow>
          (case AnteVerifyTx l ctx bundledTx False of
             (ctx', Ok _) \<Rightarrow> verify_bundle F l ctx' rest
           | (ctx', Err e) \<Rightarrow>
               (ctx', Err (ErrWrap ''invalid bid tx; failed to execute bundled transaction'' e))
           | (ctx', Panic s) \<Rightarrow> (ctx', Panic s)))"

definition VerifyTx ::
  "'b Factory \<Rightarrow> ('m, 'd, 'b) lane_core \<Rightarrow> 'b Context \<Rightarrow> tx \<Rightarrow> BidInfo option
   \<Rightarrow> 'b Context \<times> unit outcome" where
  "VerifyTx F l ctx bidTx bidInfo =
     (case bidInfo of
        None \<Rightarrow> (ctx, Err (ErrMsg ''bid info is nil''))
      | Some info \<Rightarrow>
          (case AnteVerifyTx l ctx bidTx False of
             (ctx', Ok _) \<Rightarrow> verify_bundle F l ctx' (bi_Transactions info)
           | (ctx', Err e) \<Rightarrow>
               (ctx', Err (ErrWrap ''invalid bid tx; failed to execute ante handler'' e))
           | (ctx', Panic s) \<Rightarrow> (ctx', Panic s)))"

section \<open>Preparing the top of the block\<close>

text \<open>
  The loop that re-encodes the bundled transactions: all of them, or why the bid is given up
  (a malformed transaction, or one that the proposal already contains).
\<close>

datatype bundle_bytes = BundleOk "bytes list" | BundleInvalid | BundleSeen | BundlePanic string

fun encode_bundle ::
  "(bytes \<Rightarrow> bytes) \<Rightarrow> 'b Factory \<Rightarrow> ('m, 'd, 'b) lane_core \<Rightarrow> Proposal \<Rightarrow> bytes list \<Rightarrow> bundle_bytes" where
  "encode_bundle sha F l proposal [] = BundleOk []"
| "encode_bundle sha F l proposal (rawRefTx # rest) =
     (case WrapBundleTransaction F rawRefTx of
        Err e \<Rightarrow> BundleInvalid
      | Panic s \<Rightarrow> BundlePanic s
      | Ok sdkTx \<Rightarrow>
          (case GetTxHashStr sha (lane_TxEncoder l) sdkTx of
             Err e \<Rightarrow> BundleInvalid
           | Panic s \<Rightarrow> BundlePanic s
           | Ok (sdkTxBz, _) \<Rightarrow>
               if Proposal_Contains sha proposal sdkTxBz then BundleSeen
               else (case encode_bundle sha F l proposal rest of
                       BundleOk bzs \<Rightarrow> BundleOk (sdkTxBz # bzs) | r \<Rightarrow> r)))"

text \<open>
  The selection loop: the first bid of the mempool that is valid with its whole bundle wins;
  \<open>rm\<close> is \<open>txsToRemove\<close>. Each bid is tried on a cached context, which is written back for the
  winner only.
\<close>

fun select_bid_loop ::
  "(bytes \<Rightarrow> bytes) \<Rightarrow> 'b Factory \<Rightarrow> ('m, 'd, 'b) lane_core \<Rightarrow> Proposal \<Rightarrow> int \<Rightarrow> tx list
   \<Rightarrow> 'b Context \<Rightarrow> tx list \<Rightarrow> 'b Context \<times> (bytes list \<times> tx list) outcome" where
  "select_bid_loop sha F l proposal mx [] ctx rm = (ctx, Ok ([], rm))"
| "select_bid_loop sha F l proposal mx (t # ts) ctx rm =
     (case GetTxHashStr sha (lane_TxEncoder l) t of
        Panic s \<Rightarrow> (ctx, Panic s)
      | Err e \<Rightarrow> select_bid_loop sha F l proposal mx ts ctx (rm @ [t])
      | Ok (bidTxBz, hash) \<Rightarrow>
          if Proposal_Contains sha proposal bidTxBz then
            select_bid_loop sha F l proposal mx ts ctx rm
          else if int (length bidTxBz) \<le> mx then
            (case GetAuctionBidInfo F t of
               Panic s \<Rightarrow> (ctx, Panic s)
             | Err e \<Rightarrow> select_bid_loop sha F l proposal mx ts ctx (rm @ [t])
             | Ok bidInfo \<Rightarrow>
                 (case VerifyTx F l (CacheContext ctx) t bidInfo of
                    (cc, Panic s) \<Rightarrow> (ctx, Panic s)
                  | (cc, Err e) \<Rightarrow> select_bid_loop sha F l proposal mx ts ctx (rm @ [t])
                  | (cc, Ok _) \<Rightarrow>
                      (case encode_bundle sha F l proposal
                              (case bidInfo of None \<Rightarrow> [] | Some info \<Rightarrow> bi_Transactions info) of
                         BundlePanic s \<Rightarrow> (ctx, Panic s)
                       | BundleInvalid \<Rightarrow> select_bid_loop sha F l proposal mx ts ctx (rm @ [t])
                       | BundleSeen \<Rightarrow> select_bid_loop sha F l proposal mx ts ctx rm
                       | BundleOk bundledTxBz \<Rightarrow>
                           (cache_write ctx cc, Ok (bidTxBz # bundledTxBz, rm)))))
          else select_bid_loop sha F l proposal mx ts ctx rm)"

definition TOB_PrepareLaneHandler ::
  "(bytes \<Rightarrow> bytes) \<Rightarrow> 'b Factory \<Rightarrow> ('m, 'd, 'b) prepare_handler" where
  "TOB_PrepareLaneHandler sha F l ctx proposal mx =
     (case lane_Select l of (m', iter) \<Rightarrow>
        (case select_bid_loop sha F l proposal mx iter ctx [] of (ctx', r) \<Rightarrow> (m', ctx', r)))"

section \<open>Processing and ordering\<close>

definition TOB_ProcessLaneHandler :: "'b Factory \<Rightarrow> ('m, 'd, 'b) process_handler" where
  "TOB_ProcessLaneHandler F l ctx ts =
     (case ts of
        [] \<Rightarrow> (ctx, Ok ts)
      | bidTx # _ \<Rightarrow>
          if \<not> Match l ctx bidTx then (ctx, Ok ts)
          else
            (case GetAuctionBidInfo F bidTx of
               Err e \<Rightarrow> (ctx, Err (ErrWrap ''failed to get bid info for lane'' e))
             | Panic s \<Rightarrow> (ctx, Panic s)
             | Ok bidInfo \<Rightarrow>
                 (case VerifyTx F l ctx bidTx bidInfo of
                    (ctx', Err e) \<Rightarrow> (ctx', Err (ErrWrap ''invalid bid tx'' e))
                  | (ctx', Panic s) \<Rightarrow> (ctx', Panic s)
                  | (ctx', Ok _) \<Rightarrow>
                      (let n = length (case bidInfo of None \<Rightarrow> [] | Some info \<Rightarrow> bi_Transactions info) + 1
                       in if n \<le> length ts then (ctx', Ok (drop n ts))
                          else (ctx', Panic ''slice bounds out of range'')))))"

fun no_bids :: "('m, 'd, 'b) lane_core \<Rightarrow> 'b Context \<Rightarrow> string \<Rightarrow> tx list \<Rightarrow> unit outcome" where
  "no_bids l ctx msg [] = Ok ()"
| "no_bids l ctx msg (t # ts) = (if Match l ctx t then Err (ErrMsg msg) else no_bids l ctx msg ts)"

text \<open>The transactions after the bid against the bundle that the bid names.\<close>

fun bundle_in_order ::
  "('m, 'd, 'b) lane_core \<Rightarrow> 'b Context \<Rightarrow> tx list \<Rightarrow> bytes list \<Rightarrow> unit outcome" where
  "bundle_in_order l ctx (bundleTx # ts) (raw # raws) =
     (if Match l ctx bundleTx then Err (ErrMsg ''multiple bid transactions in lane'')
      else
        obind (wrap_err ''failed to encode bundled tx in lane'' (lane_TxEncoder l bundleTx)) (\<lambda>txBz.
          if txBz \<noteq> raw then Err (ErrMsg ''invalid order of transactions in lane'')
          else bundle_in_order l ctx ts raws))"
| "bundle_in_order l ctx _ _ = Ok ()"

definition TOB_CheckOrderHandler :: "'b Factory \<Rightarrow> ('m, 'd, 'b) check_order_handler" where
  "TOB_CheckOrderHandler F l ctx ts =
     (case ts of
        [] \<Rightarrow> Ok ()
      | bidTx # rest \<Rightarrow>
          if \<not> Match l ctx bidTx then no_bids l ctx ''misplaced bid transactions in lane'' rest
          else
            obind (wrap_err ''failed to get bid info for lane'' (GetAuctionBidInfo F bidTx)) (\<lambda>bidInfo.
              case bidInfo of
                None \<Rightarrow> Panic ''nil pointer dereference''
              | Some info \<Rightarrow>
                  (let n = length (bi_Transactions info)
                   in if length ts < n + 1 then
                        Err (ErrMsg ''invalid number of transactions in lane'')
                      else
                        obind (bundle_in_order l ctx (take n rest) (bi_Transactions info)) (\<lambda>_.
                          no_bids l ctx ''multiple bid transactions in lane'' (drop n rest)))))"

section \<open>The lanes\<close>

definition TOB_LaneName :: string where
  "TOB_LaneName = ''top-of-block''"

definition NewTOBLane ::
  "coin_ops \<Rightarrow> coin_set_ops \<Rightarrow> 'd dec_ops \<Rightarrow> (bytes \<Rightarrow> bytes) \<Rightarrow> ('i, 'b) index_ops
   \<Rightarrow> ((string, 'b) TxPriority \<Rightarrow> int \<Rightarrow> 'i) \<Rightarrow> ('d, 'b) LaneConfig \<Rightarrow> 'b Factory
   \<Rightarrow> (('i, string, 'b) ConstructorMempool, 'd, 'b) LaneConstructor outcome" where
  "NewTOBLane C S D sha IX newIndex c factory =
     obind (NewLaneConstructor D sha c TOB_LaneName
        (Some (CM_ops IX sha,
               NewConstructorMempool newIndex (Auction_TxPriority C S factory) (TxEncoder c) (MaxTxs c)))
        (Some (MatchHandler factory))) (\<lambda>lane.
     obind (SetPrepareLaneHandler (Some (TOB_PrepareLaneHandler sha factory)) lane) (\<lambda>lane.
     obind (SetProcessLaneHandler (Some (TOB_ProcessLaneHandler factory)) lane) (\<lambda>lane.
       SetCheckOrderHandler (Some (TOB_CheckOrderHandler factory)) lane)))"

text \<open>\<^verbatim>\<open>lanes/base\<close>: the default lane.\<close>

definition Base_LaneName :: string where
  "Base_LaneName = ''default''"

definition NewDefaultLane ::
  "coin_set_ops \<Rightarrow> 'd dec_ops \<Rightarrow> (bytes \<Rightarrow> bytes) \<Rightarrow> ('i, 'b) index_ops
   \<Rightarrow> ((string, 'b) TxPriority \<Rightarrow> int \<Rightarrow> 'i) \<Rightarrow> ('d, 'b) LaneConfig
   \<Rightarrow> (('i, string, 'b) ConstructorMempool, 'd, 'b) LaneConstructor outcome" where
  "NewDefaultLane S D sha IX newIndex c =
     NewLaneConstructor D sha c Base_LaneName
       (Some (CM_ops IX sha,
              NewConstructorMempool newIndex (DefaultTxPriority S) (TxEncoder c) (MaxTxs c)))
       (Some DefaultMatchHandler)"

text \<open>\<^verbatim>\<open>lanes/free\<close>: the lane of transactions that pay no fee.\<close>

definition Free_LaneName :: string where
  "Free_LaneName = ''free''"

definition NewFreeLane ::
  "'d dec_ops \<Rightarrow> (bytes \<Rightarrow> bytes) \<Rightarrow> ('i, 'b) index_ops
   \<Rightarrow> ((string, 'b) TxPriority \<Rightarrow> int \<Rightarrow> 'i) \<Rightarrow> ('d, 'b) LaneConfig \<Rightarrow> (string, 'b) TxPriority
   \<Rightarrow> 'b match_handler option \<Rightarrow> (('i, string, 'b) ConstructorMempool, 'd, 'b) LaneConstructor outcome" where
  "NewFreeLane D sha IX newIndex c txPriority matchFn =
     NewLaneConstructor D sha c Free_LaneName
       (Some (CM_ops IX sha, NewConstructorMempool newIndex txPriority (TxEncoder c) (MaxTxs c))) matchFn"

fun free_msgs :: "msg list \<Rightarrow> bool" where
  "free_msgs [] = False"
| "free_msgs (MsgDelegate # rest) = True"
| "free_msgs (MsgBeginRedelegate # rest) = True"
| "free_msgs (MsgCancelUnbondingDelegation # rest) = True"
| "free_msgs (_ # rest) = free_msgs rest"

definition Free_DefaultMatchHandler :: "'b match_handler" where
  "Free_DefaultMatchHandler ctx t = free_msgs (GetMsgs t)"

end
