(* ===== verification/Auction_Correct.thy ===== *)
theory Auction_Correct
  imports Auction Demo
begin

text \<open>
  Correctness of the top-of-block lane: the first valid bid in the order of the mempool wins
  with its whole bundle and is the only one that changes the state; which proposals pass the
  order check; and that what the lane prepares it also accepts.
\<close>

section \<open>The winning bid\<close>

text \<open>
  A transaction wins with the transactions \<open>sel\<close>: it encodes, is new, fits, carries a bid,
  passes verification with its bundle (leaving the cached context \<open>cc\<close>), and its bundle encodes
  to transactions that are new as well.
\<close>

definition bid_wins ::
  "(bytes \<Rightarrow> bytes) \<Rightarrow> 'b Factory \<Rightarrow> ('m, 'd, 'b) lane_core \<Rightarrow> Proposal \<Rightarrow> int \<Rightarrow> 'b Context \<Rightarrow> tx
   \<Rightarrow> bytes list \<Rightarrow> 'b Context \<Rightarrow> bool" where
  "bid_wins sha F l p mx ctx t sel cc \<longleftrightarrow>
     (\<exists>bz info bundle. lane_TxEncoder l t = Ok bz \<and> \<not> Proposal_Contains sha p bz \<and>
        int (length bz) \<le> mx \<and> GetAuctionBidInfo F t = Ok (Some info) \<and>
        VerifyTx F l (CacheContext ctx) t (Some info) = (cc, Ok ()) \<and>
        encode_bundle sha F l p (bi_Transactions info) = BundleOk bundle \<and> sel = bz # bundle)"

lemma VerifyTx_Ok_Some: "VerifyTx F l ctx t bidInfo = (cc, Ok ()) \<Longrightarrow> \<exists>info. bidInfo = Some info"
  by (cases bidInfo) (auto simp: VerifyTx_def)

text \<open>One round of the loop: the bid wins, or it is passed over and perhaps marked for removal.\<close>

lemma select_bid_loop_Cons:
  assumes "select_bid_loop sha F l p mx (t # ts) ctx rm = (ctx', Ok (sel, rm'))"
  obtains (win) cc where "bid_wins sha F l p mx ctx t sel cc" "ctx' = cache_write ctx cc" "rm' = rm"
  | (pass) rm1 where "\<And>s c. \<not> bid_wins sha F l p mx ctx t s c" "rm1 = rm \<or> rm1 = rm @ [t]"
      "select_bid_loop sha F l p mx ts ctx rm1 = (ctx', Ok (sel, rm'))"
proof (cases "lane_TxEncoder l t")
  case (Ok bz)
  then have h: "GetTxHashStr sha (lane_TxEncoder l) t = Ok (bz, hash_str sha bz)"
    by (simp add: GetTxHashStr_def)
  show ?thesis
  proof (cases "Proposal_Contains sha p bz \<or> \<not> int (length bz) \<le> mx")
    case True
    then have "\<not> bid_wins sha F l p mx ctx t s c" for s c using Ok by (auto simp: bid_wins_def)
    moreover have "select_bid_loop sha F l p mx ts ctx rm = (ctx', Ok (sel, rm'))"
      using assms True h by (auto split: if_splits)
    ultimately show ?thesis using pass by blast
  next
    case False
    show ?thesis
    proof (cases "GetAuctionBidInfo F t")
      case i: (Ok bidInfo)
      obtain cc vr where v: "VerifyTx F l (CacheContext ctx) t bidInfo = (cc, vr)" by fastforce
      show ?thesis
      proof (cases vr)
        case vOk: (Ok u)
        then obtain info where info: "bidInfo = Some info"
          using VerifyTx_Ok_Some [of F l "CacheContext ctx" t bidInfo cc] v by auto
        show ?thesis
        proof (cases "encode_bundle sha F l p (bi_Transactions info)")
          case (BundleOk bzs)
          with info v vOk i False assms h Ok show ?thesis
            by (intro win [of cc]) (auto simp: bid_wins_def)
        next
          case BundleInvalid
          with info v vOk i False assms h Ok show ?thesis
            by (intro pass [of "rm @ [t]"]) (auto simp: bid_wins_def)
        next
          case BundleSeen
          with info v vOk i False assms h Ok show ?thesis
            by (intro pass [of rm]) (auto simp: bid_wins_def)
        next
          case (BundlePanic s)
          with info v vOk i False assms h show ?thesis by auto
        qed
      next
        case vErr: (Err e)
        with v i False assms h Ok show ?thesis
          by (intro pass [of "rm @ [t]"]) (auto simp: bid_wins_def)
      next
        case vPanic: (Panic s)
        with v i False assms h show ?thesis by auto
      qed
    next
      case iErr: (Err e)
      with False assms h Ok show ?thesis
        by (intro pass [of "rm @ [t]"]) (auto simp: bid_wins_def)
    next
      case iPanic: (Panic s)
      with False assms h show ?thesis by auto
    qed
  qed
next
  case (Err e)
  with assms show ?thesis by (intro pass [of "rm @ [t]"]) (auto simp: GetTxHashStr_def bid_wins_def)
next
  case (Panic s)
  with assms show ?thesis by (auto simp: GetTxHashStr_def)
qed

lemma select_bid_loop_spec:
  "select_bid_loop sha F l p mx iter ctx rm = (ctx', Ok (sel, rm')) \<Longrightarrow>
   (\<exists>pre t post cc. iter = pre @ t # post \<and> bid_wins sha F l p mx ctx t sel cc \<and>
      ctx' = cache_write ctx cc \<and> (\<forall>u \<in> set pre. \<forall>s c. \<not> bid_wins sha F l p mx ctx u s c) \<and>
      set rm' \<subseteq> set rm \<union> set pre) \<or>
   (sel = [] \<and> ctx' = ctx \<and> (\<forall>u \<in> set iter. \<forall>s c. \<not> bid_wins sha F l p mx ctx u s c) \<and>
      set rm' \<subseteq> set rm \<union> set iter)"
proof (induction iter arbitrary: rm)
  case (Cons t ts)
  from Cons.prems show ?case
  proof (cases rule: select_bid_loop_Cons)
    case (win cc)
    then show ?thesis by (intro disjI1 exI [of _ "[]"] exI [of _ t] exI [of _ ts] exI [of _ cc]) auto
  next
    case (pass rm1)
    from Cons.IH [OF pass(3)] show ?thesis
    proof (elim disjE exE conjE)
      fix pre u post cc
      assume *: "ts = pre @ u # post" "bid_wins sha F l p mx ctx u sel cc" "ctx' = cache_write ctx cc"
        "\<forall>u \<in> set pre. \<forall>s c. \<not> bid_wins sha F l p mx ctx u s c" "set rm' \<subseteq> set rm1 \<union> set pre"
      show ?thesis
        by (rule disjI1, rule exI [of _ "t # pre"], rule exI [of _ u], rule exI [of _ post], rule exI [of _ cc])
          (use * pass(1,2) in auto)
    next
      assume "sel = []" "ctx' = ctx" "\<forall>u \<in> set ts. \<forall>s c. \<not> bid_wins sha F l p mx ctx u s c"
        "set rm' \<subseteq> set rm1 \<union> set ts"
      with pass(1,2) show ?thesis by (intro disjI2) auto
    qed
  qed
qed auto

section \<open>The order check\<close>

definition carries_bid :: "'b Factory \<Rightarrow> tx \<Rightarrow> bool" where
  "carries_bid F t \<longleftrightarrow> (\<exists>info. GetAuctionBidInfo F t = Ok (Some info))"

text \<open>The default factory matches what carries a bid, unless a lane is ignored.\<close>

lemma default_match:
  assumes "matchHandler l = MatchHandler (NewDefaultAuctionFactory A dec)" "IgnoreList (cfg l) = []"
  shows "Match l ctx t \<longleftrightarrow> carries_bid (NewDefaultAuctionFactory A dec) t"
  using assms by (auto simp: Match_iff carries_bid_def NewDefaultAuctionFactory_def
      Default_MatchHandler_def split: outcome.splits option.splits)

lemma no_bids_Ok: "no_bids l ctx m ts = Ok () \<longleftrightarrow> (\<forall>t \<in> set ts. \<not> Match l ctx t)"
  by (induction ts) auto

lemma bundle_in_order_Ok:
  "length ts = length raws \<Longrightarrow> bundle_in_order l ctx ts raws = Ok () \<longleftrightarrow>
     list_all2 (\<lambda>t raw. \<not> Match l ctx t \<and> lane_TxEncoder l t = Ok raw) ts raws"
  by (induction ts raws rule: list_induct2) (auto simp: obind_eq_Ok)

lemma TOB_CheckOrder_Ok_iff:
  assumes m: "\<And>t. Match l ctx t \<longleftrightarrow> carries_bid F t"
  shows "TOB_CheckOrderHandler F l ctx ts = Ok () \<longleftrightarrow>
     (\<forall>t \<in> set ts. \<not> carries_bid F t) \<or>
     (\<exists>bid info bs others. ts = bid # bs @ others \<and> GetAuctionBidInfo F bid = Ok (Some info) \<and>
        list_all2 (\<lambda>t raw. lane_TxEncoder l t = Ok raw) bs (bi_Transactions info) \<and>
        (\<forall>t \<in> set (bs @ others). \<not> carries_bid F t))" (is "?L = (?N \<or> ?B)")
proof (cases "ts = [] \<or> \<not> carries_bid F (hd ts)")
  case True
  then have "?L \<longleftrightarrow> ?N"
    by (cases ts) (auto simp: TOB_CheckOrderHandler_def no_bids_Ok m)
  moreover have "?B \<Longrightarrow> False" using True by (auto simp: carries_bid_def)
  ultimately show ?thesis by blast
next
  case False
  then obtain bid rest info where ts: "ts = bid # rest" and i: "GetAuctionBidInfo F bid = Ok (Some info)"
    by (cases ts) (auto simp: carries_bid_def)
  then have mb: "Match l ctx bid" "\<not> ?N" by (auto simp: m carries_bid_def)
  let ?n = "length (bi_Transactions info)"
  let ?E = "\<lambda>t raw. lane_TxEncoder l t = Ok raw"
  have "?L \<longleftrightarrow> ?n \<le> length rest \<and> bundle_in_order l ctx (take ?n rest) (bi_Transactions info) = Ok ()
      \<and> no_bids l ctx ''multiple bid transactions in lane'' (drop ?n rest) = Ok ()"
    using mb by (auto simp: TOB_CheckOrderHandler_def ts i Let_def obind_eq_Ok not_less)
  also have "\<dots> \<longleftrightarrow> ?n \<le> length rest \<and> list_all2 ?E (take ?n rest) (bi_Transactions info)
      \<and> (\<forall>t \<in> set rest. \<not> carries_bid F t)"
  proof (cases "?n \<le> length rest")
    case True
    then have l: "length (take ?n rest) = ?n" by simp
    have "set rest = set (take ?n rest) \<union> set (drop ?n rest)"
      by (metis append_take_drop_id set_append)
    with True show ?thesis
      by (auto simp: bundle_in_order_Ok [OF l] list_all2_guard no_bids_Ok m)
  qed simp
  also have "\<dots> \<longleftrightarrow> ?B"
  proof
    assume "?n \<le> length rest \<and> list_all2 ?E (take ?n rest) (bi_Transactions info)
      \<and> (\<forall>t \<in> set rest. \<not> carries_bid F t)"
    then show ?B using ts i
      by (intro exI [of _ bid] exI [of _ info] exI [of _ "take ?n rest"] exI [of _ "drop ?n rest"])
        (simp del: set_append)
  next
    assume ?B
    then obtain bs others where b: "rest = bs @ others" "list_all2 ?E bs (bi_Transactions info)"
      "\<forall>t \<in> set (bs @ others). \<not> carries_bid F t" using ts i by auto
    from list_all2_lengthD [OF b(2)] b show "?n \<le> length rest \<and>
      list_all2 ?E (take ?n rest) (bi_Transactions info) \<and> (\<forall>t \<in> set rest. \<not> carries_bid F t)" by simp
  qed
  finally show ?thesis using mb by blast
qed

section \<open>Prepared bundles are accepted\<close>

lemma encode_bundle_Ok:
  "encode_bundle sha F l p raws = BundleOk bzs \<Longrightarrow>
   \<exists>us. list_all2 (\<lambda>raw u. WrapBundleTransaction F raw = Ok u) raws us \<and>
        list_all2 (\<lambda>u bz. lane_TxEncoder l u = Ok bz \<and> \<not> Proposal_Contains sha p bz) us bzs"
proof (induction raws arbitrary: bzs)
  case (Cons raw raws)
  then obtain u bz bzs' where "WrapBundleTransaction F raw = Ok u" "lane_TxEncoder l u = Ok bz"
    "\<not> Proposal_Contains sha p bz" "encode_bundle sha F l p raws = BundleOk bzs'" "bzs = bz # bzs'"
    by (auto simp: GetTxHashStr_eq_Ok split: outcome.splits if_splits bundle_bytes.splits)
  moreover from Cons.IH [OF this(4)] obtain us where
    "list_all2 (\<lambda>raw u. WrapBundleTransaction F raw = Ok u) raws us"
    "list_all2 (\<lambda>u bz. lane_TxEncoder l u = Ok bz \<and> \<not> Proposal_Contains sha p bz) us bzs'" by blast
  ultimately show ?case by (intro exI [of _ "u # us"]) simp
qed simp

text \<open>
  The bundle of a bid is in canonical form: each of its transactions is the encoding of what
  it decodes to, and none is a bid itself.
\<close>

definition canonical_bundle :: "'b Factory \<Rightarrow> ('m, 'd, 'b) lane_core \<Rightarrow> tx \<Rightarrow> bool" where
  "canonical_bundle F l t \<longleftrightarrow>
     (\<forall>info raw u. GetAuctionBidInfo F t = Ok (Some info) \<and> raw \<in> set (bi_Transactions info) \<and>
        WrapBundleTransaction F raw = Ok u \<longrightarrow> lane_TxEncoder l u = Ok raw \<and> \<not> carries_bid F u)"

lemma bid_wins_segment:
  assumes win: "bid_wins sha F l p mx ctx t sel cc"
    and m: "\<And>ctx t. Match l ctx t \<longleftrightarrow> carries_bid F t"
    and canonical: "canonical_bundle F l t"
  shows "\<exists>ts. list_all2 (\<lambda>t bz. lane_TxEncoder l t = Ok bz) ts sel \<and>
     (\<forall>others c. (\<forall>u \<in> set others. \<not> carries_bid F u) \<longrightarrow>
        TOB_CheckOrderHandler F l c (ts @ others) = Ok () \<and>
        TOB_ProcessLaneHandler F l (CacheContext ctx) (ts @ others) = (cc, Ok others))"
proof -
  obtain bz info bzs where w: "lane_TxEncoder l t = Ok bz" "GetAuctionBidInfo F t = Ok (Some info)"
    "VerifyTx F l (CacheContext ctx) t (Some info) = (cc, Ok ())"
    "encode_bundle sha F l p (bi_Transactions info) = BundleOk bzs" "sel = bz # bzs"
    using win by (auto simp: bid_wins_def)
  from encode_bundle_Ok [OF w(4)] obtain us where
    us: "list_all2 (\<lambda>raw u. WrapBundleTransaction F raw = Ok u) (bi_Transactions info) us"
        "list_all2 (\<lambda>u bz. lane_TxEncoder l u = Ok bz \<and> \<not> Proposal_Contains sha p bz) us bzs" by blast
  have len: "length us = length (bi_Transactions info)" using list_all2_lengthD [OF us(1)] by simp
  have "list_all2 (\<lambda>t bz. lane_TxEncoder l t = Ok bz) us bzs"
    using us(2) by (rule list_all2_mono) simp
  then have d: "list_all2 (\<lambda>t bz. lane_TxEncoder l t = Ok bz) (t # us) sel"
    using w(1,5) by simp
  have canon: "\<And>raw u. raw \<in> set (bi_Transactions info) \<Longrightarrow> WrapBundleTransaction F raw = Ok u \<Longrightarrow>
      lane_TxEncoder l u = Ok raw \<and> \<not> carries_bid F u"
    using canonical w(2) by (auto simp: canonical_bundle_def)
  have enc: "list_all2 (\<lambda>u raw. lane_TxEncoder l u = Ok raw) us (bi_Transactions info)"
    using us(1) canon by (auto simp: list_all2_conv_all_nth)
  have nb: "\<forall>u \<in> set us. \<not> carries_bid F u"
    using us(1) canon by (auto simp: list_all2_conv_all_nth in_set_conv_nth) blast
  have "TOB_CheckOrderHandler F l c ((t # us) @ others) = Ok ()"
    if others: "\<forall>u \<in> set others. \<not> carries_bid F u" for others c
    unfolding TOB_CheckOrder_Ok_iff [OF m]
    by (rule disjI2, rule exI [of _ t], rule exI [of _ info], rule exI [of _ us], rule exI [of _ others])
      (use w(2) enc nb others in auto)
  moreover have "Match l (CacheContext ctx) t" using w(2) by (auto simp: m carries_bid_def)
  then have "TOB_ProcessLaneHandler F l (CacheContext ctx) ((t # us) @ others) = (cc, Ok others)" for others
    using w(2,3) len by (simp add: TOB_ProcessLaneHandler_def)
  ultimately show ?thesis using d by blast
qed

section \<open>A concrete auction\<close>

text \<open>
  A factory on the demonstration lane: a transaction whose first byte is 0 is a bid for the
  bundle of one-byte transactions given by its other bytes.
\<close>

definition demo_info :: "bytes \<Rightarrow> BidInfo" where
  "demo_info bz = \<lparr>bi_Bidder = [1], bi_Bid = \<lparr>Denom = ''stake'', Amount = Some 1\<rparr>,
     bi_Transactions = map (\<lambda>b. [b]) (tl bz), bi_Timeout = 9, bi_Signers = []\<rparr>"

definition demo_factory :: "unit Factory" where
  "demo_factory =
     \<lparr>WrapBundleTransaction = (\<lambda>bz. Ok (demo_tx bz)),
      GetAuctionBidInfo = (\<lambda>t. Ok (if tx_raw t \<noteq> [] \<and> hd (tx_raw t) = 0 then Some (demo_info (tx_raw t)) else None)),
      MatchHandler = (\<lambda>ctx t. tx_raw t \<noteq> [] \<and> hd (tx_raw t) = 0)\<rparr>"

definition demo_tob :: "tx list \<Rightarrow> (tx list, int, unit) lane_core" where
  "demo_tob m = (demo_core m)\<lparr>matchHandler := MatchHandler demo_factory\<rparr>"

lemma demo_tob_simps [simp]:
  "lane_TxEncoder (demo_tob m) = demo_encoder"
  "lane_TxDecoder (demo_tob m) = (\<lambda>bz. Ok (demo_tx bz))"
  "lane_Select (demo_tob m) = (m, m)"
  "AnteVerifyTx (demo_tob m) ctx t sim = (ctx, Ok ())"
  "lane_GetMaxBlockSpace (demo_tob m) = 0"
  "Match (demo_tob m) ctx t \<longleftrightarrow> carries_bid demo_factory t"
  by (simp_all add: demo_tob_def lane_TxEncoder_def lane_TxDecoder_def lane_Select_def
      lane_GetMaxBlockSpace_def AnteVerifyTx_def Match_iff demo_core_def demo_cfg_def list_mempool_def fun_eq_iff
      carries_bid_def demo_factory_def)

lemma demo_tob_wins:
  "bid_wins id demo_factory (demo_tob m) (NewProposal 9) 5 demo_ctx (demo_tx [0, 1, 2])
     [[0, 1, 2], [1], [2]] (CacheContext demo_ctx)"
  by (simp add: bid_wins_def demo_factory_def demo_info_def VerifyTx_def NewProposal_def
      Proposal_Contains_def GetTxHashStr_def)

lemma demo_tob_prepares:
  "TOB_PrepareLaneHandler id demo_factory (demo_tob [demo_tx [9], demo_tx [0, 1, 2], demo_tx [0, 3]])
     demo_ctx (NewProposal 9) 5 =
   ([demo_tx [9], demo_tx [0, 1, 2], demo_tx [0, 3]], demo_ctx, Ok ([[0, 1, 2], [1], [2]], [demo_tx [9]]))"
  by (simp add: TOB_PrepareLaneHandler_def GetTxHashStr_def demo_factory_def demo_info_def VerifyTx_def
      NewProposal_def Proposal_Contains_def cache_write_def CacheContext_def demo_ctx_def)

section \<open>Properties\<close>



text \<open>
  C9: The order check of the top-of-block lane accepts exactly the proposals without any bid,
  and those that start with one bid, directly followed by the transactions of its bundle in
  the order the bid names them, with no other bid anywhere after it.
\<close>

theorem TOB_CheckOrder_spec:
  assumes "\<And>t. Match l ctx t \<longleftrightarrow> carries_bid F t"
  shows "TOB_CheckOrderHandler F l ctx ts = Ok () \<longleftrightarrow>
     (\<forall>t \<in> set ts. \<not> carries_bid F t) \<or>
     (\<exists>bid info bs others. ts = bid # bs @ others \<and> GetAuctionBidInfo F bid = Ok (Some info) \<and>
        list_all2 (\<lambda>t raw. lane_TxEncoder l t = Ok raw) bs (bi_Transactions info) \<and>
        (\<forall>t \<in> set (bs @ others). \<not> carries_bid F t))"
  by (rule TOB_CheckOrder_Ok_iff [OF assms])

theorem TOB_CheckOrder_spec_witness:
  "TOB_CheckOrderHandler demo_factory (demo_tob []) demo_ctx
     [demo_tx [0, 1], demo_tx [1], demo_tx [7]] = Ok ()"
  unfolding TOB_CheckOrder_spec [OF demo_tob_simps(6)]
  by (rule disjI2, rule exI [of _ "demo_tx [0, 1]"], rule exI [of _ "demo_info [0, 1]"],
      rule exI [of _ "[demo_tx [1]]"], rule exI [of _ "[demo_tx [7]]"])
    (simp add: demo_factory_def demo_info_def carries_bid_def)


definition demo_tob_lane :: "tx list \<Rightarrow> (tx list, int, unit) LaneConstructor" where
  "demo_tob_lane m = \<lparr>core = demo_tob m, prepareLaneHandler = TOB_PrepareLaneHandler id demo_factory,
     checkOrderHandler = TOB_CheckOrderHandler demo_factory,
     processLaneHandler = TOB_ProcessLaneHandler demo_factory\<rparr>"


end
