(* ===== verification/Agreement.thy ===== *)
theory Agreement
  imports Abci_Correct Auction_Correct
begin

text \<open>
  Agreement of \<open>PrepareProposal\<close> and \<open>ProcessProposal\<close> (\<^verbatim>\<open>blockbuster/abci/abci.go\<close>): a block
  that one node prepares is accepted by every node with the same lanes, whatever their
  mempools hold, and both reach the same state. What one lane has to guarantee for this is
  the locale \<open>agreeing_lanes\<close>; the chain is composed from it once, and the default handlers
  and the handlers of the top-of-block lane satisfy it.
\<close>

section \<open>Contexts up to their events\<close>

text \<open>
  Preparing works on cached contexts, whose event list starts empty, and processing does
  not: the two sides see contexts that agree on everything but the events.
\<close>

definition same_state :: "'b Context \<Rightarrow> 'b Context \<Rightarrow> bool" where
  "same_state c d \<longleftrightarrow> CacheContext c = CacheContext d"

lemma same_state_refl [simp]: "same_state c c"
  by (simp add: same_state_def)

lemma same_state_sym: "same_state c d \<Longrightarrow> same_state d c"
  by (simp add: same_state_def)

lemma same_state_trans [trans]: "same_state a b \<Longrightarrow> same_state b c \<Longrightarrow> same_state a c"
  by (simp add: same_state_def)

lemma same_state_Cache [simp]:
  "same_state (CacheContext c) d \<longleftrightarrow> same_state c d"
  "same_state d (CacheContext c) \<longleftrightarrow> same_state d c"
  by (simp_all add: same_state_def CacheContext_def)

text \<open>The second context is the first one with another store (and other events).\<close>

definition same_frame :: "'b Context \<Rightarrow> 'b Context \<Rightarrow> bool" where
  "same_frame c d \<longleftrightarrow> same_state (c\<lparr>ms := ms d\<rparr>) d"

lemma same_frame_simps [simp]:
  "same_frame c c" "same_frame c (sync_ctx c d)" "same_frame c (cache_write c d)"
  "same_frame (CacheContext c) d \<longleftrightarrow> same_frame c d"
  by (simp_all add: same_frame_def same_state_def CacheContext_def sync_ctx_def cache_write_def)

lemma same_frame_trans: "same_frame a b \<Longrightarrow> same_frame b c \<Longrightarrow> same_frame a c"
  by (cases a, cases b, cases c) (simp add: same_frame_def same_state_def CacheContext_def)

lemma same_state_sync:
  "same_state c d \<Longrightarrow> same_state c1 d1 \<Longrightarrow> same_state (sync_ctx c c1) (sync_ctx d d1)"
  by (cases c, cases d, cases c1, cases d1) (simp add: same_state_def CacheContext_def sync_ctx_def)

lemma same_state_cache_write: "same_frame c d \<Longrightarrow> same_state (cache_write c d) d"
  by (cases c, cases d) (simp add: same_frame_def same_state_def CacheContext_def cache_write_def)

lemma prepare_chain_frame: "prepare_chain I D n chain ctx p = (ch, ctx', p', r) \<Longrightarrow> same_frame ctx ctx'"
  by (induction I D n chain ctx p arbitrary: ch ctx' p' r rule: prepare_chain.induct)
    (auto split: prod.splits outcome.splits if_splits)

section \<open>What a lane guarantees\<close>

text \<open>The transactions \<open>ts\<close> are encoded as \<open>bzs\<close>.\<close>

definition encodes :: "tx_encoder \<Rightarrow> tx list \<Rightarrow> bytes list \<Rightarrow> bool" where
  "encodes enc ts bzs \<longleftrightarrow> list_all2 (\<lambda>t bz. enc t = Ok bz) ts bzs"

lemma encodes_Nil [simp]: "encodes enc [] []"
  by (simp add: encodes_def)

lemma encodes_append: "encodes enc a b \<Longrightarrow> encodes enc a' b' \<Longrightarrow> encodes enc (a @ a') (b @ b')"
  by (simp add: encodes_def list_all2_appendI)

text \<open>
  A validator's lane \<open>v\<close> takes the segment \<open>ts\<close> off the front of a block: whatever foreign
  transactions follow, the order is right, the segment is verified, and the others are
  handed on with the store of \<open>c1\<close>.
\<close>

definition takes_segment ::
  "('l, 'd, 'b) Lane_methods \<Rightarrow> 'l \<Rightarrow> (tx \<Rightarrow> bool) \<Rightarrow> 'b Context \<Rightarrow> tx list \<Rightarrow> 'b Context \<Rightarrow> bool" where
  "takes_segment I v foreign ctx ts c1 \<longleftrightarrow>
     (\<forall>d others nxt. same_state ctx d \<and> list_all foreign others \<longrightarrow>
        if_CheckOrder I v d (ts @ others) = Ok () \<and>
        (\<exists>d1. same_state c1 d1 \<and> if_ProcessLane I v d (ts @ others) nxt = nxt d1 others))"

text \<open>
  Lanes that agree one by one, where every lane hands on what the lanes behind it may
  propose; the last argument holds of every transaction that one of them may propose.
\<close>

inductive chain_agree ::
  "('l \<Rightarrow> 'l \<Rightarrow> (tx \<Rightarrow> bool) \<Rightarrow> (tx \<Rightarrow> bool) \<Rightarrow> bool) \<Rightarrow> 'l list \<Rightarrow> 'l list \<Rightarrow> (tx \<Rightarrow> bool) \<Rightarrow> bool"
  for agree where
  none: "chain_agree agree [] [] (\<lambda>t. False)"
| more: "agree l v own foreign \<Longrightarrow> chain_agree agree ls vs rest \<Longrightarrow> (\<And>t. rest t \<Longrightarrow> foreign t) \<Longrightarrow>
    chain_agree agree (l # ls) (v # vs) (\<lambda>t. own t \<or> rest t)"

text \<open>
  \<open>agree l v own foreign\<close>: the lane \<open>l\<close> of the proposer and the lane \<open>v\<close> of a validator agree,
  where \<open>own\<close> holds of every transaction that \<open>l\<close> puts into a block, and \<open>v\<close> hands the
  \<open>foreign\<close> ones on.
\<close>

locale agreeing_lanes =
  fixes I :: "('l, 'd, 'b) Lane_methods"
    and enc :: tx_encoder
    and agree :: "'l \<Rightarrow> 'l \<Rightarrow> (tx \<Rightarrow> bool) \<Rightarrow> (tx \<Rightarrow> bool) \<Rightarrow> bool"
  assumes prepares:
      "\<lbrakk> agree l v own foreign; if_PrepareLane I l w ctx p mx next = (l', w', ctx', p', r) \<rbrakk> \<Longrightarrow>
       (p' = p \<and> w' = w \<and> r \<noteq> Ok ()) \<or>
       (\<exists>ts sel c1 p1. next w c1 p1 = (w', ctx', p', r) \<and> same_frame ctx c1 \<and>
          GetTxs p1 = GetTxs p @ sel \<and> GetVoteExtensions p1 = GetVoteExtensions p \<and>
          encodes enc ts sel \<and> list_all own ts \<and> takes_segment I v foreign ctx ts c1)"
    and passes: "agree l v own foreign \<Longrightarrow> takes_segment I v foreign ctx [] ctx"
    and terminates:
      "if_PrepareLane I (if_Terminator I) w ctx p mx next = (if_Terminator I, w, ctx, p, Ok ())"
    and not_terminator: "agree l v own foreign \<Longrightarrow> \<not> if_isTerminator I l \<and> \<not> if_isTerminator I v"
begin

lemma attempt_cases:
  assumes "agree l v own foreign" "attempt_lane I D l w ctx p next = (l', w', ctx', p', r)"
  obtains (fail) "p' = p" "w' = w" "r \<noteq> Ok ()"
  | (ok) ts sel c1 p1 where "next w c1 p1 = (w', ctx', p', r)" "same_frame ctx c1"
      "GetTxs p1 = GetTxs p @ sel" "GetVoteExtensions p1 = GetVoteExtensions p"
      "encodes enc ts sel" "list_all own ts" "takes_segment I v foreign ctx ts c1"
proof (cases "GetMaxTxBytesForLane D (GetMaxTxBytes p) (GetTotalTxBytes p) (if_GetMaxBlockSpace I l)")
  case (Ok mx)
  then have "if_PrepareLane I l w ctx p mx next = (l', w', ctx', p', r)"
    using assms(2) by (simp add: attempt_lane_def)
  from prepares [OF assms(1) this] fail ok show ?thesis by blast
qed (use assms(2) fail in \<open>auto simp: attempt_lane_def\<close>)

text \<open>Processing a segment and what follows it.\<close>

lemma process_segment:
  assumes "takes_segment I v foreign ctx ts c1" "same_state ctx d" "list_all foreign us"
    and "\<And>d1. same_state c1 d1 \<Longrightarrow> \<exists>d'. process_chain I chain d1 us = (d', Ok ()) \<and> same_state ctx' d'"
    and "chain \<noteq> []" "takes_segment I v foreign ctx [] ctx"
  shows "\<exists>d'. process_chain I (v # chain) d (ts @ us) = (d', Ok ()) \<and> same_state ctx' d'"
proof (cases "ts @ us = []")
  case True
  then have "ts = []" "us = []" by simp_all
  define nxt :: "'b process_next" where "nxt = (\<lambda>c t. (c, Ok ()))"
  from assms(1,2) \<open>ts = []\<close> obtain d1 where "same_state c1 d1" "if_ProcessLane I v d [] nxt = nxt d1 []"
    by (force simp: takes_segment_def)
  moreover from assms(6,2) obtain d2 where "same_state ctx d2" "if_ProcessLane I v d [] nxt = nxt d2 []"
    by (force simp: takes_segment_def)
  ultimately have "same_state c1 d"
    using assms(2) by (auto simp: nxt_def same_state_def)
  from assms(4) [OF this] \<open>us = []\<close> assms(5) have "same_state ctx' d"
    by (cases chain) auto
  with True show ?thesis by simp
next
  case False
  from assms(1-3) obtain d1 where "same_state c1 d1"
    "if_CheckOrder I v d (ts @ us) = Ok ()"
    "if_ProcessLane I v d (ts @ us) (process_chain I chain) = process_chain I chain d1 us"
    unfolding takes_segment_def by blast
  with assms(4) [OF this(1)] False show ?thesis by auto
qed

lemma prepare_process_chain:
  assumes "chain_agree agree ls vs own"
    and "prepare_chain I D (Suc (length ls)) (ls @ [if_Terminator I]) ctx p = (ch, ctx', p', r)"
  shows "r = Ok () \<and> (\<exists>ts sel. GetTxs p' = GetTxs p @ sel \<and>
     GetVoteExtensions p' = GetVoteExtensions p \<and> encodes enc ts sel \<and> list_all own ts \<and>
     (\<forall>d. same_state ctx d \<longrightarrow>
        (\<exists>d'. process_chain I (vs @ [if_Terminator I]) d ts = (d', Ok ()) \<and> same_state ctx' d')))"
  using assms
proof (induction arbitrary: ctx p ch ctx' p' r)
  case none
  obtain l1 w1 c1 p1 r1 where att: "attempt_lane I D (if_Terminator I) [] (CacheContext ctx) p
      (prepare_chain I D 0) = (l1, w1, c1, p1, r1)" using prod_cases5 by blast
  then have "p1 = p" "r1 = Ok () \<Longrightarrow> c1 = CacheContext ctx"
    by (auto simp: attempt_lane_def terminates split: outcome.splits)
  moreover have "same_state (cache_write ctx (CacheContext ctx)) ctx"
    by (simp add: same_state_def CacheContext_def cache_write_def)
  ultimately have "r = Ok ()" "p' = p" "same_state ctx' ctx"
    using none prepare_chain_step [OF att] by (cases "r1 = Ok ()"; simp)+
  then show ?case
    by (intro conjI exI [of _ "[]"]) (simp_all add: same_state_def)
next
  case (more l v own foreign ls vs rest)
  let ?T = "[if_Terminator I]"
  obtain l1 w1 c1 p1 r1 where att: "attempt_lane I D l (ls @ ?T) (CacheContext ctx) p
      (prepare_chain I D (Suc (length ls))) = (l1, w1, c1, p1, r1)" using prod_cases5 by blast
  note pass = passes [OF more.hyps(1)]
  from more.hyps(1) att show ?case
  proof (cases rule: attempt_cases)
    case fail
    have seg: "list_all foreign us" if "list_all rest us" for us
      using that more.hyps(3) by (simp add: list_all_iff)
    show ?thesis
    proof (cases "ls = []")
      case True
      with fail prepare_chain_step(2) [OF att] more.prems have "r = Ok ()" "p' = p" "ctx' = ctx" by simp_all
      then show ?thesis by (intro conjI exI [of _ "[]"]) simp_all
    next
      case False
      obtain ch2 c2 p2 r2 where nx: "prepare_chain I D (Suc (length ls)) (ls @ ?T) ctx p = (ch2, c2, p2, r2)"
        using prod_cases4 by blast
      with False fail prepare_chain_step(3) [OF att] more.prems have r: "r = r2" "p' = p2" "ctx' = c2"
        by simp_all
      from more.IH [OF nx] obtain us sel where *: "r2 = Ok ()" "GetTxs p2 = GetTxs p @ sel"
        "GetVoteExtensions p2 = GetVoteExtensions p" "encodes enc us sel" "list_all rest us"
        "\<And>d. same_state ctx d \<Longrightarrow> \<exists>d'. process_chain I (vs @ ?T) d us = (d', Ok ()) \<and> same_state c2 d'"
        by blast
      have "\<exists>d'. process_chain I (v # vs @ ?T) d us = (d', Ok ()) \<and> same_state c2 d'"
        if d: "same_state ctx d" for d
        using process_segment [OF pass d seg [OF *(5)] *(6)] pass by auto
      with * r show ?thesis
        by (intro conjI exI [of _ us] exI [of _ sel]) (auto simp: list_all_iff)
    qed
  next
    case (ok ts sel c2 p2)
    note ih = more.IH [OF ok(1)]
    then obtain us sel2 where *: "GetTxs p1 = GetTxs p2 @ sel2"
      "GetVoteExtensions p1 = GetVoteExtensions p2" "encodes enc us sel2" "list_all rest us"
      "\<And>d. same_state c2 d \<Longrightarrow> \<exists>d'. process_chain I (vs @ ?T) d us = (d', Ok ()) \<and> same_state c1 d'"
      by blast
    have "same_frame ctx c1"
      using ok(2) prepare_chain_frame [OF ok(1)] by (auto intro: same_frame_trans)
    then have "same_state (cache_write ctx c1) c1" by (rule same_state_cache_write)
    moreover have "r = Ok ()" "p' = p1" "ctx' = cache_write ctx c1"
      using ih prepare_chain_step(1) [OF att] more.prems by simp_all
    moreover have "list_all foreign us" using *(4) more.hyps(3) by (simp add: list_all_iff)
    with ok(7) pass *(5) have "\<exists>d'. process_chain I (v # vs @ ?T) d (ts @ us) = (d', Ok ()) \<and> same_state c1 d'"
      if "same_state ctx d" for d
      using that process_segment [of v foreign "CacheContext ctx" ts c2 d us "vs @ ?T" c1] by simp
    ultimately show ?thesis
      using * ok(3-6) encodes_append [OF ok(5) *(3)]
      by (intro conjI exI [of _ "ts @ us"] exI [of _ "sel @ sel2"])
        (auto simp: list_all_iff same_state_def)
  qed
qed

lemma chain_agree_terminated:
  "chain_agree agree ls vs own \<Longrightarrow> ls \<noteq> [] \<Longrightarrow>
   vs \<noteq> [] \<and> terminated I ls = ls @ [if_Terminator I] \<and> terminated I vs = vs @ [if_Terminator I]"
proof (induction rule: chain_agree.induct)
  case (more l v own foreign ls vs rest)
  then show ?case using not_terminator [OF more.hyps(1)]
    by (cases "ls = []") (auto simp: terminated_def elim: chain_agree.cases)
qed simp

lemma handlers_agree:
  assumes "chain_agree agree ls vs own" and "ls \<noteq> []"
    and dec: "\<And>t bz. enc t = Ok bz \<Longrightarrow> dec bz = Ok t"
    and "PrepareProposalHandler I D ls ctx mx = (ls', ctx', resp, err)" and "same_state ctx d"
  shows "err = None \<and>
     (\<exists>d'. ProcessProposalHandler I dec vs d resp = (d', ACCEPT, None) \<and> same_state ctx' d')"
proof -
  note T = chain_agree_terminated [OF assms(1,2)]
  obtain ch c p r where pc: "prepare_chain I D (Suc (length ls)) (ls @ [if_Terminator I]) ctx (NewProposal mx)
      = (ch, c, p, r)" using prod_cases4 by blast
  from prepare_process_chain [OF assms(1) pc] obtain ts sel where
    r: "r = Ok ()" and sel: "GetTxs p = sel" "GetVoteExtensions p = []" and e: "encodes enc ts sel"
    and "\<And>d. same_state ctx d \<Longrightarrow>
      \<exists>d'. process_chain I (vs @ [if_Terminator I]) d ts = (d', Ok ()) \<and> same_state c d'"
    by (auto simp: NewProposal_def GetTxs_def GetVoteExtensions_def)
  with assms(5) obtain d' where d': "process_chain I (vs @ [if_Terminator I]) d ts = (d', Ok ())"
    "same_state c d'" by blast
  have h: "resp = sel" "err = None" "ctx' = c"
    using assms(2,4) pc r sel T
    by (auto simp: PrepareProposalHandler_def ChainPrepareLanes_def GetProposal_def GetTxs_def
        GetVoteExtensions_def)
  have "GetDecodedTxs dec sel = Ok ts"
    using e dec unfolding GetDecodedTxs_Ok_iff encodes_def by (auto simp: list_all2_conv_all_nth)
  then have "ProcessProposalHandler I dec vs d sel = (d', ACCEPT, None)"
    using d' T e by (cases vs) (auto simp: ProcessProposalHandler_def ChainProcessLanes_def encodes_def)
  with h d' show ?thesis by blast
qed

end

section \<open>The lanes of the repository\<close>

text \<open>
  The events that earlier transactions emitted do not influence what the ante handler
  decides or writes.
\<close>

definition events_blind :: "('m, 'd, 'b) lane_core \<Rightarrow> bool" where
  "events_blind l \<longleftrightarrow>
     (\<forall>c d t c' r. same_state c d \<and> AnteVerifyTx l c t False = (c', r) \<longrightarrow>
        (\<exists>d'. AnteVerifyTx l d t False = (d', r) \<and> same_state c' d'))"

lemma events_blindD:
  "events_blind l \<Longrightarrow> same_state c d \<Longrightarrow> AnteVerifyTx l c t False = (c', r) \<Longrightarrow>
   \<exists>d'. AnteVerifyTx l d t False = (d', r) \<and> same_state c' d'"
  unfolding events_blind_def by blast

text \<open>The lane on a node whose mempool holds something else.\<close>

lemma set_mempool_core [simp]:
  "Match (core (lane_set_mempool m l)) = Match (core l)"
  "AnteVerifyTx (core (lane_set_mempool m l)) = AnteVerifyTx (core l)"
  "lane_TxEncoder (core (lane_set_mempool m l)) = lane_TxEncoder (core l)"
  by (simp_all add: fun_eq_iff Match_def CheckIgnoreList_def AnteVerifyTx_def lane_TxEncoder_def
      lane_set_mempool_def)

subsection \<open>Default handlers\<close>

lemma DefaultProcess_cong:
  "Match l = Match l' \<Longrightarrow> AnteVerifyTx l = AnteVerifyTx l' \<Longrightarrow>
   DefaultProcessLaneHandler l ctx ts = DefaultProcessLaneHandler l' ctx ts"
  by (induction ts arbitrary: ctx) (auto split: prod.splits outcome.splits)

text \<open>What follows a segment is handed on, and the events do not matter.\<close>

lemma DefaultProcess_segment:
  assumes "DefaultProcessLaneHandler l c ts = (c', Ok [])" "same_state c d" "events_blind l"
    and mt: "\<And>ctx t. Match l ctx t = mt t" and "list_all (\<lambda>t. \<not> mt t) others"
  shows "\<exists>d'. DefaultProcessLaneHandler l d (ts @ others) = (d', Ok others) \<and> same_state c' d'"
  using assms(1,2)
proof (induction ts arbitrary: c d)
  case Nil
  with assms(5) mt show ?case by (cases others) auto
next
  case (Cons t ts)
  then have t: "mt t" by (auto simp: mt split: if_splits)
  obtain c1 r where a: "AnteVerifyTx l c t False = (c1, r)" by fastforce
  with Cons.prems(1) t mt have "r = Ok ()" "DefaultProcessLaneHandler l c1 ts = (c', Ok [])"
    by (auto split: outcome.splits)
  moreover from events_blindD [OF assms(3) Cons.prems(2) a] obtain d1 where
    "AnteVerifyTx l d t False = (d1, r)" "same_state c1 d1" by blast
  ultimately show ?case using Cons.IH [of c1 d1] t mt by simp
qed

text \<open>
  A lane with the default handlers that agrees with itself on every node: membership does
  not depend on the state, the ante handler is atomic and blind to events, and the mempool
  iterates in an order that never goes up in the priority that \<open>cmp\<close> compares.
\<close>

definition default_agreeing ::
  "(bytes \<Rightarrow> bytes) \<Rightarrow> tx_encoder \<Rightarrow> (tx \<Rightarrow> tx \<Rightarrow> int) \<Rightarrow> (tx \<Rightarrow> bool)
   \<Rightarrow> ('m, 'd, 'b) LaneConstructor \<Rightarrow> bool" where
  "default_agreeing sha enc cmp mt l \<longleftrightarrow>
     prepareLaneHandler l = DefaultPrepareLaneHandler sha \<and> default_handlers l \<and>
     lane_TxEncoder (core l) = enc \<and> static_match l mt \<and>
     ante_atomic (core l) \<and> events_blind (core l) \<and>
     sorted_wrt (\<lambda>a b. cmp a b \<noteq> -1) (snd (lane_Select (core l)))"

lemma sorted_wrt_subseq:
  assumes "subseq xs ys" "sorted_wrt P ys"
  shows "sorted_wrt P xs"
  using assms
proof (induction rule: list_emb.induct)
  case (list_emb_Cons2 x y xs ys)
  moreover have "set xs \<subseteq> set ys" using list_emb_set [OF list_emb_Cons2.hyps(2)] by blast
  ultimately show ?case by auto
qed auto

lemma default_order:
  assumes "compare_total l ctx cmp" "\<And>t. Match l ctx t = mt t" "list_all mt ts"
    and "list_all (\<lambda>t. \<not> mt t) others" "sorted_wrt (\<lambda>a b. cmp a b \<noteq> -1) ts"
  shows "DefaultCheckOrderHandler l ctx (ts @ others) = Ok ()"
proof -
  have [simp]: "Match l ctx = mt" using assms(2) by (simp add: fun_eq_iff)
  have "takeWhile mt (ts @ others) = ts" "dropWhile mt (ts @ others) = others"
    using assms(3,4) by (cases others; auto simp: list_all_iff)+
  with assms(4,5) show ?thesis
    unfolding DefaultCheckOrderHandler_Ok [OF assms(1)] ordered_lane_prefix_def
    by (auto simp: list_all_iff successively_if_sorted_wrt)
qed

lemma default_segment:
  assumes l: "default_agreeing sha enc cmp mt l"
    and cmp: "\<And>ctx. compare_total (core (lane_set_mempool m l)) ctx cmp"
    and h: "DefaultPrepareLaneHandler sha (core l) ctx p mx = (m1, c1, Ok (sel, rm))"
  shows "\<exists>ts. encodes enc ts sel \<and> list_all mt ts \<and>
     takes_segment (lane_methods D sha) (LaneC (lane_set_mempool m l)) (\<lambda>t. \<not> mt t) ctx ts (sync_ctx ctx c1)"
proof -
  note L = l [unfolded default_agreeing_def default_handlers_def static_match_def]
  let ?v = "lane_set_mempool m l"
  have "prepare_loop sha (core l) p mx (snd (lane_Select (core l))) ctx 0 [] [] = (c1, Ok (sel, rm))"
    using h by (auto simp: DefaultPrepareLaneHandler_def split: prod.splits)
  from prepare_loop_process [OF this] L obtain ts where ts:
    "subseq ts (snd (lane_Select (core l)))" "list_all2 (\<lambda>t bz. enc t = Ok bz) ts sel"
    "DefaultProcessLaneHandler (core l) ctx ts = (c1, Ok [])" by auto
  have own: "list_all mt ts"
    using ts(3) L unfolding DefaultProcessLaneHandler_Ok by (auto simp: list_all_iff dest: ante_run_Match)
  have "sorted_wrt (\<lambda>a b. cmp a b \<noteq> -1) ts" using sorted_wrt_subseq [OF ts(1)] L by blast
  then have ord: "DefaultCheckOrderHandler (core ?v) d (ts @ others) = Ok ()"
    if "list_all (\<lambda>t. \<not> mt t) others" for d others
    using L own that by (intro default_order [OF cmp, where mt = mt]) auto
  have proc: "\<exists>d'. DefaultProcessLaneHandler (core ?v) d (ts @ others) = (d', Ok others) \<and> same_state c1 d'"
    if "list_all (\<lambda>t. \<not> mt t) others" "same_state ctx d" for d others
    using DefaultProcess_segment [OF ts(3) that(2) _ _ that(1)] L
    by (simp add: DefaultProcess_cong [of "core ?v" "core l"])
  show ?thesis
  proof (intro exI [of _ ts] conjI)
    show "takes_segment (lane_methods D sha) (LaneC ?v) (\<lambda>t. \<not> mt t) ctx ts (sync_ctx ctx c1)"
      unfolding takes_segment_def
    proof (intro allI impI, elim conjE, goal_cases)
      case (1 d others nxt)
      with proc obtain d' where "DefaultProcessLaneHandler (core ?v) d (ts @ others) = (d', Ok others)"
        "same_state c1 d'" by blast
      with 1 L ord show ?case
        by (intro conjI exI [of _ "sync_ctx d d'"])
          (auto simp: CheckOrder_def ProcessLane_def intro: same_state_sync)
    qed
  qed (use ts(2) own in \<open>simp_all add: encodes_def\<close>)
qed

subsection \<open>The top-of-block lane\<close>

lemma verify_bundle_blind:
  assumes "events_blind l" "same_state c d" "verify_bundle F l c raws = (c', r)"
  shows "\<exists>d'. verify_bundle F l d raws = (d', r) \<and> same_state c' d'"
  using assms(2,3)
proof (induction raws arbitrary: c d)
  case (Cons raw raws)
  show ?case
  proof (cases "WrapBundleTransaction F raw")
    case (Ok u)
    obtain c1 ra where a: "AnteVerifyTx l c u False = (c1, ra)" by fastforce
    from events_blindD [OF assms(1) Cons.prems(1) a] obtain d1 where
      d1: "AnteVerifyTx l d u False = (d1, ra)" "same_state c1 d1" by blast
    show ?thesis
      using Cons.prems(2) Ok a d1 Cons.IH [OF d1(2)] by (cases ra) auto
  qed (use Cons.prems in auto)
qed auto

lemma VerifyTx_blind:
  assumes "events_blind l" "same_state c d" "VerifyTx F l c t bidInfo = (c', r)"
  shows "\<exists>d'. VerifyTx F l d t bidInfo = (d', r) \<and> same_state c' d'"
proof (cases bidInfo)
  case (Some info)
  obtain c1 ra where a: "AnteVerifyTx l c t False = (c1, ra)" by fastforce
  from events_blindD [OF assms(1,2) a] obtain d1 where
    d1: "AnteVerifyTx l d t False = (d1, ra)" "same_state c1 d1" by blast
  show ?thesis
    using assms(3) Some a d1 verify_bundle_blind [OF assms(1) d1(2)]
    by (cases ra) (auto simp: VerifyTx_def)
qed (use assms in \<open>auto simp: VerifyTx_def\<close>)

lemma TOB_Process_blind:
  assumes "events_blind l" "\<And>ctx t. Match l ctx t = mt t" "same_state c d"
    and "TOB_ProcessLaneHandler F l c ts = (c', r)"
  shows "\<exists>d'. TOB_ProcessLaneHandler F l d ts = (d', r) \<and> same_state c' d'"
proof (cases ts)
  case (Cons t us)
  show ?thesis
  proof (cases "mt t \<and> is_Ok (GetAuctionBidInfo F t)")
    case True
    then obtain info where i: "GetAuctionBidInfo F t = Ok info" by (cases "GetAuctionBidInfo F t") auto
    obtain c1 ra where v: "VerifyTx F l c t info = (c1, ra)" by fastforce
    from VerifyTx_blind [OF assms(1,3) v] obtain d1 where
      "VerifyTx F l d t info = (d1, ra)" "same_state c1 d1" by blast
    with assms(2,4) Cons True i v show ?thesis
      by (cases ra) (auto simp: TOB_ProcessLaneHandler_def Let_def)
  next
    case False
    with assms Cons show ?thesis
      by (cases "GetAuctionBidInfo F t") (auto simp: TOB_ProcessLaneHandler_def split: if_splits)
  qed
qed (use assms in \<open>auto simp: TOB_ProcessLaneHandler_def\<close>)

text \<open>
  A top-of-block lane that agrees with itself on every node: it matches the transactions
  that carry a bid, its ante handler is blind to events, and the bundles of the bids in its
  mempool are canonical.
\<close>

definition tob_agreeing ::
  "(bytes \<Rightarrow> bytes) \<Rightarrow> tx_encoder \<Rightarrow> 'b Factory \<Rightarrow> ('m, 'd, 'b) LaneConstructor \<Rightarrow> bool" where
  "tob_agreeing sha enc F l \<longleftrightarrow>
     prepareLaneHandler l = TOB_PrepareLaneHandler sha F \<and>
     checkOrderHandler l = TOB_CheckOrderHandler F \<and>
     processLaneHandler l = TOB_ProcessLaneHandler F \<and>
     lane_TxEncoder (core l) = enc \<and> static_match l (carries_bid F) \<and> events_blind (core l) \<and>
     list_all (canonical_bundle F (core l)) (snd (lane_Select (core l)))"

text \<open>The handlers of the lane do not look at its mempool.\<close>

lemma tob_parts_set_mempool [simp]:
  "verify_bundle F (core (lane_set_mempool m l)) ctx raws = verify_bundle F (core l) ctx raws"
  "no_bids (core (lane_set_mempool m l)) ctx msg ts = no_bids (core l) ctx msg ts"
  "bundle_in_order (core (lane_set_mempool m l)) ctx ts raws = bundle_in_order (core l) ctx ts raws"
proof -
  show "verify_bundle F (core (lane_set_mempool m l)) ctx raws = verify_bundle F (core l) ctx raws"
    by (induction raws arbitrary: ctx) (auto split: outcome.splits prod.splits)
  show "no_bids (core (lane_set_mempool m l)) ctx msg ts = no_bids (core l) ctx msg ts"
    by (induction ts) auto
  show "bundle_in_order (core (lane_set_mempool m l)) ctx ts raws = bundle_in_order (core l) ctx ts raws"
    by (induction "core l" ctx ts raws rule: bundle_in_order.induct) (simp_all cong: if_cong)
qed

lemma TOB_set_mempool [simp]:
  "TOB_CheckOrderHandler F (core (lane_set_mempool m l)) = TOB_CheckOrderHandler F (core l)"
  "TOB_ProcessLaneHandler F (core (lane_set_mempool m l)) = TOB_ProcessLaneHandler F (core l)"
  by (simp_all add: fun_eq_iff TOB_CheckOrderHandler_def TOB_ProcessLaneHandler_def VerifyTx_def
      cong: list.case_cong option.case_cong outcome.case_cong if_cong)

lemma tob_takes_segment:
  assumes l: "tob_agreeing sha enc F l"
    and ord: "\<And>d others. list_all (\<lambda>t. \<not> carries_bid F t) others \<Longrightarrow>
       TOB_CheckOrderHandler F (core l) d (ts @ others) = Ok ()"
    and proc: "\<And>others. list_all (\<lambda>t. \<not> carries_bid F t) others \<Longrightarrow>
       TOB_ProcessLaneHandler F (core l) (CacheContext ctx) (ts @ others) = (cc, Ok others)"
  shows "takes_segment (lane_methods D sha) (LaneC (lane_set_mempool m l)) (\<lambda>t. \<not> carries_bid F t)
     ctx ts (sync_ctx ctx cc)"
  unfolding takes_segment_def
proof (intro allI impI, elim conjE, goal_cases)
  case (1 d others nxt)
  note L = l [unfolded tob_agreeing_def static_match_def]
  have "same_state (CacheContext ctx) d" using 1 by simp
  from TOB_Process_blind [OF _ _ this proc [OF 1(2)]] L obtain d' where
    "TOB_ProcessLaneHandler F (core l) d (ts @ others) = (d', Ok others)" "same_state cc d'" by blast
  with 1 L ord show ?case
    by (intro conjI exI [of _ "sync_ctx d d'"])
      (auto simp: CheckOrder_def ProcessLane_def intro: same_state_sync)
qed

lemma tob_passes:
  assumes l: "tob_agreeing sha enc F l"
  shows "takes_segment (lane_methods D sha) (LaneC (lane_set_mempool m l)) (\<lambda>t. \<not> carries_bid F t) ctx [] ctx"
proof -
  note L = l [unfolded tob_agreeing_def static_match_def]
  have ord: "TOB_CheckOrderHandler F (core l) d ([] @ others) = Ok ()"
    and proc: "TOB_ProcessLaneHandler F (core l) d ([] @ others) = (d, Ok others)"
    if "list_all (\<lambda>t. \<not> carries_bid F t) others" for d others
    using that L by (cases others; auto simp: TOB_CheckOrder_Ok_iff list_all_iff TOB_ProcessLaneHandler_def)+
  have "takes_segment (lane_methods D sha) (LaneC (lane_set_mempool m l)) (\<lambda>t. \<not> carries_bid F t)
      ctx [] (sync_ctx ctx (CacheContext ctx))"
    by (rule tob_takes_segment [OF l ord proc])
  then show ?thesis
    by (simp add: takes_segment_def same_state_def CacheContext_def sync_ctx_def)
qed

lemma tob_segment:
  assumes l: "tob_agreeing sha enc F l"
    and h: "TOB_PrepareLaneHandler sha F (core l) ctx p mx = (m1, c1, Ok (sel, rm))"
  shows "\<exists>ts. encodes enc ts sel \<and> list_all (\<lambda>t. True) ts \<and>
     takes_segment (lane_methods D sha) (LaneC (lane_set_mempool m l)) (\<lambda>t. \<not> carries_bid F t)
       ctx ts (sync_ctx ctx c1)"
proof -
  note L = l [unfolded tob_agreeing_def static_match_def]
  have "select_bid_loop sha F (core l) p mx (snd (lane_Select (core l))) ctx [] = (c1, Ok (sel, rm))"
    using h by (auto simp: TOB_PrepareLaneHandler_def split: prod.splits)
  from select_bid_loop_spec [OF this] consider
    (win) t cc where "t \<in> set (snd (lane_Select (core l)))" "bid_wins sha F (core l) p mx ctx t sel cc"
      "c1 = cache_write ctx cc"
    | (none) "sel = []" "c1 = ctx" by (elim disjE exE conjE) (simp, blast)
  then show ?thesis
  proof cases
    case win
    have "canonical_bundle F (core l) t" using L win(1) by (simp add: list_all_iff)
    from bid_wins_segment [OF win(2) _ this] L obtain ts where ts: "encodes enc ts sel"
      "\<forall>others c. (\<forall>u \<in> set others. \<not> carries_bid F u) \<longrightarrow>
        TOB_CheckOrderHandler F (core l) c (ts @ others) = Ok () \<and>
        TOB_ProcessLaneHandler F (core l) (CacheContext ctx) (ts @ others) = (cc, Ok others)"
      by (auto simp: encodes_def)
    have "takes_segment (lane_methods D sha) (LaneC (lane_set_mempool m l)) (\<lambda>t. \<not> carries_bid F t)
       ctx ts (sync_ctx ctx cc)"
      using ts(2) by (intro tob_takes_segment [OF l]) (auto simp: list_all_iff)
    moreover have "same_state (sync_ctx ctx c1) (sync_ctx ctx cc)"
      by (simp add: win(3) same_state_def CacheContext_def sync_ctx_def cache_write_def)
    ultimately show ?thesis using ts(1)
      by (intro exI [of _ ts]) (auto simp: takes_segment_def same_state_def list_all_iff)
  next
    case none
    then show ?thesis using tob_passes [OF l] by (intro exI [of _ "[]"]) simp
  qed
qed

subsection \<open>The contract holds\<close>

text \<open>
  The lanes that agree: lanes with the default handlers and top-of-block lanes. The
  validator's lane is the proposer's with another mempool, which compares in the same way.
\<close>

inductive bb_agree ::
  "(bytes \<Rightarrow> bytes) \<Rightarrow> tx_encoder \<Rightarrow> ('m, 'd, 'b) lane \<Rightarrow> ('m, 'd, 'b) lane
   \<Rightarrow> (tx \<Rightarrow> bool) \<Rightarrow> (tx \<Rightarrow> bool) \<Rightarrow> bool"
  for sha enc where
  default: "default_agreeing sha enc cmp mt l \<Longrightarrow> (\<And>ctx. compare_total (core (lane_set_mempool m l)) ctx cmp) \<Longrightarrow>
    bb_agree sha enc (LaneC l) (LaneC (lane_set_mempool m l)) mt (\<lambda>t. \<not> mt t)"
| tob: "tob_agreeing sha enc F l \<Longrightarrow>
    bb_agree sha enc (LaneC l) (LaneC (lane_set_mempool m l)) (\<lambda>t. True) (\<lambda>t. \<not> carries_bid F t)"

lemma default_passes:
  assumes l: "default_agreeing sha enc cmp mt l"
    and cmp: "\<And>ctx. compare_total (core (lane_set_mempool m l)) ctx cmp"
  shows "takes_segment (lane_methods D sha) (LaneC (lane_set_mempool m l)) (\<lambda>t. \<not> mt t) ctx [] ctx"
proof -
  note L = l [unfolded default_agreeing_def default_handlers_def static_match_def]
  let ?v = "lane_set_mempool m l"
  have "DefaultCheckOrderHandler (core ?v) d others = Ok ()"
    "DefaultProcessLaneHandler (core ?v) d others = (d, Ok others)"
    if "list_all (\<lambda>t. \<not> mt t) others" for d others
    using L that default_order [OF cmp, of d mt "[]" others] by (cases others; auto)+
  then show ?thesis
    using L by (auto simp: takes_segment_def CheckOrder_def ProcessLane_def)
qed

text \<open>One call of \<open>PrepareLane\<close>, given what its handler guarantees.\<close>

lemma PrepareLane_segment:
  assumes pl: "PrepareLane D sha l w ctx p mx next = (l', w', ctx', p', r)"
    and seg: "\<And>m1 c1 sel rm. prepareLaneHandler l (core l) ctx p mx = (m1, c1, Ok (sel, rm)) \<Longrightarrow>
      \<exists>ts. encodes enc ts sel \<and> list_all own ts \<and> takes_segment I v foreign ctx ts (sync_ctx ctx c1)"
  shows "(p' = p \<and> w' = w \<and> r \<noteq> Ok ()) \<or>
     (\<exists>ts sel c1 p1. next w c1 p1 = (w', ctx', p', r) \<and> same_frame ctx c1 \<and>
        GetTxs p1 = GetTxs p @ sel \<and> GetVoteExtensions p1 = GetVoteExtensions p \<and>
        encodes enc ts sel \<and> list_all own ts \<and> takes_segment I v foreign ctx ts c1)"
  using pl
proof (cases rule: PrepareLane_cases)
  case (ok m1 c1 sel rm m2 p1)
  have "GetTxs p1 = GetTxs p @ sel" "GetVoteExtensions p1 = GetVoteExtensions p"
    using ok(2) by (auto simp: UpdateProposal_def GetTxs_def GetVoteExtensions_def Let_def
        split: if_splits outcome.splits)
  with seg [OF ok(1)] ok(3) show ?thesis by (metis same_frame_simps(2))
qed simp

interpretation bb_agreement: agreeing_lanes "lane_methods D sha" enc "bb_agree sha enc"
  for D :: "'d dec_ops" and sha enc
proof (unfold_locales, goal_cases)
  case (1 l v own foreign w ctx p mx "next" l' w' ctx' p' r)
  from 1(1) show ?case
  proof cases
    case (default cmp lc m)
    have h: "prepareLaneHandler lc = DefaultPrepareLaneHandler sha"
      using default(4) by (simp add: default_agreeing_def)
    from 1(2) default obtain lc' where "PrepareLane D sha lc w ctx p mx next = (lc', w', ctx', p', r)"
      by (auto split: prod.splits)
    then show ?thesis
      using default_segment [OF default(4,5)] unfolding default(1-3)
      by (rule PrepareLane_segment) (simp add: h)
  next
    case (tob F lc m)
    have h: "prepareLaneHandler lc = TOB_PrepareLaneHandler sha F"
      using tob(5) by (simp add: tob_agreeing_def)
    from 1(2) tob obtain lc' where "PrepareLane D sha lc w ctx p mx next = (lc', w', ctx', p', r)"
      by (auto split: prod.splits)
    then show ?thesis
      using tob_segment [OF tob(5)] unfolding tob(1-4)
      by (rule PrepareLane_segment) (simp add: h)
  qed
next
  case (2 l v own foreign ctx)
  then show ?case by cases (simp_all add: default_passes tob_passes)
next
  case (3 w ctx p mx "next")
  then show ?case by (simp add: terminator_defs)
next
  case (4 l v own foreign)
  then show ?case by cases simp_all
qed

section \<open>Properties\<close>


text \<open>
  A top-of-block lane in front of a default lane that ignores its bids. The proposer has a
  bid for the transactions 1 and 2 and a transaction 5; the validator's mempools are empty.
\<close>

definition demo_base :: "tx list \<Rightarrow> (tx list, int, unit) LaneConstructor" where
  "demo_base m = \<lparr>core = SetIgnoreList [MatchHandler demo_factory] (demo_core m),
     prepareLaneHandler = DefaultPrepareLaneHandler id,
     checkOrderHandler = DefaultCheckOrderHandler, processLaneHandler = DefaultProcessLaneHandler\<rparr>"

lemma demo_base_simps [simp]:
  "lane_Select (core (demo_base m)) = (m, m)"
  "lane_TxEncoder (core (demo_base m)) = demo_encoder"
  "Match (core (demo_base m)) ctx t \<longleftrightarrow> \<not> carries_bid demo_factory t"
  "AnteVerifyTx (core (demo_base m)) ctx t sim = (ctx, Ok ())"
  "lane_Compare (core (demo_base m)) ctx a b = Ok 0"
  "lane_GetMaxBlockSpace (core (demo_base m)) = 0"
  "lane_set_mempool m' (demo_base m) = demo_base m'"
  "lane_set_mempool m' (demo_tob_lane m) = demo_tob_lane m'"
  by (simp_all add: demo_base_def SetIgnoreList_def lane_Select_def lane_TxEncoder_def Match_iff
      AnteVerifyTx_def lane_Compare_def lane_GetMaxBlockSpace_def lane_set_mempool_def demo_core_def
      demo_cfg_def list_mempool_def DefaultMatchHandler_def demo_tob_lane_def demo_tob_def
      carries_bid_def demo_factory_def ext)

lemma demo_base_agreeing:
  "default_agreeing id demo_encoder (\<lambda>a b. 0) (\<lambda>t. \<not> carries_bid demo_factory t) (demo_base m)"
proof -
  have "ante_atomic (core (demo_base m))" "events_blind (core (demo_base m))"
    by (simp_all add: ante_atomic_def events_blind_def)
  moreover have "default_handlers (demo_base m)" "prepareLaneHandler (demo_base m) = DefaultPrepareLaneHandler id"
    by (simp_all add: default_handlers_def demo_base_def)
  ultimately show ?thesis
    by (simp add: default_agreeing_def static_match_def)
qed

lemma demo_tob_agreeing:
  "list_all (canonical_bundle demo_factory (demo_tob [])) m \<Longrightarrow>
   tob_agreeing id demo_encoder demo_factory (demo_tob_lane m)"
  by (simp add: tob_agreeing_def static_match_def events_blind_def demo_tob_lane_def
      canonical_bundle_def list_all_iff)

lemma demo_chain_agrees:
  "\<exists>own. chain_agree (bb_agree id demo_encoder)
     [LaneC (demo_tob_lane [demo_tx [0, 1, 2]]), LaneC (demo_base [demo_tx [5]])]
     [LaneC (demo_tob_lane []), LaneC (demo_base [])] own"
proof -
  have t: "tob_agreeing id demo_encoder demo_factory (demo_tob_lane [demo_tx [0, 1, 2]])"
    by (rule demo_tob_agreeing) (auto simp: canonical_bundle_def demo_factory_def demo_info_def carries_bid_def)
  have b: "bb_agree id demo_encoder (LaneC (demo_base [demo_tx [5]])) (LaneC (demo_base []))
      (\<lambda>t. \<not> carries_bid demo_factory t) (\<lambda>t. \<not> \<not> carries_bid demo_factory t)"
    using bb_agree.default [OF demo_base_agreeing, of "[]" "[demo_tx [5]]"] by (simp add: compare_total_def)
  have "bb_agree id demo_encoder (LaneC (demo_tob_lane [demo_tx [0, 1, 2]])) (LaneC (demo_tob_lane []))
      (\<lambda>t. True) (\<lambda>t. \<not> carries_bid demo_factory t)"
    using bb_agree.tob [OF t, of "[]"] by simp
  from chain_agree.more [of "bb_agree id demo_encoder", OF this
      chain_agree.more [of "bb_agree id demo_encoder", OF b chain_agree.none]]
  show ?thesis by blast
qed


end
