(* ===== verification/Skiplist.thy ===== *)
theory Skiplist
  imports Prelude "HOL-Library.Char_ord" "HOL-Library.List_Lexorder"
begin

text \<open>
  The package \<^verbatim>\<open>github.com/huandu/skiplist\<close>, which is not part of the repository: its operations as
  a record, its documented behaviour as the predicate \<open>skiplist_laws\<close>, a reference
  implementation by sorted association lists, and a concrete record that satisfies the laws.
\<close>

section \<open>Operations\<close>

text \<open>
  A list is made for a comparison of keys (\<^verbatim>\<open>Comparable\<close>). \<open>sl_Elems\<close> is the sequence of elements,
  with their keys and values, that \<open>Front\<close> and then \<open>Next\<close> yield; \<open>sl_Get\<close> returns the element.
\<close>

record ('s, 'k, 'v) skiplist_ops =
  sl_New :: "('k \<Rightarrow> 'k \<Rightarrow> int) \<Rightarrow> 's"
  sl_Len :: "'s \<Rightarrow> int"
  sl_Set :: "'s \<Rightarrow> 'k \<Rightarrow> 'v \<Rightarrow> 's"
  sl_Get :: "'s \<Rightarrow> 'k \<Rightarrow> ('k \<times> 'v) option"
  sl_Remove :: "'s \<Rightarrow> 'k \<Rightarrow> 's"
  sl_Elems :: "'s \<Rightarrow> ('k \<times> 'v) list"
  sl_LessThanFunc :: "('k \<Rightarrow> 'k \<Rightarrow> int) \<Rightarrow> 'k \<Rightarrow> 'k \<Rightarrow> int"
  sl_String :: "string \<Rightarrow> string \<Rightarrow> int"
  sl_Uint64 :: "nat \<Rightarrow> nat \<Rightarrow> int"
  sl_Int64 :: "int \<Rightarrow> int \<Rightarrow> int"

section \<open>Comparisons\<close>

text \<open>
  A comparison that is a total preorder on the keys \<open>K\<close>; keys that compare as 0 count as the
  same key.
\<close>

definition linear_on :: "'k set \<Rightarrow> ('k \<Rightarrow> 'k \<Rightarrow> int) \<Rightarrow> bool" where
  "linear_on K c \<longleftrightarrow>
     (\<forall>a \<in> K. \<forall>b \<in> K. c a b < 0 \<longleftrightarrow> 0 < c b a) \<and>
     (\<forall>a \<in> K. \<forall>b \<in> K. \<forall>d \<in> K. c a b \<le> 0 \<and> c b d \<le> 0 \<longrightarrow> c a d \<le> 0)"

abbreviation linear_cmp :: "('k \<Rightarrow> 'k \<Rightarrow> int) \<Rightarrow> bool" where
  "linear_cmp c \<equiv> linear_on UNIV c"

lemma linear_onD:
  assumes "linear_on K c" "a \<in> K" "b \<in> K"
  shows "c a b < 0 \<longleftrightarrow> 0 < c b a" "d \<in> K \<Longrightarrow> c a b \<le> 0 \<Longrightarrow> c b d \<le> 0 \<Longrightarrow> c a d \<le> 0"
  using assms unfolding linear_on_def by blast+

lemma linear_on_mono: "linear_on K c \<Longrightarrow> K' \<subseteq> K \<Longrightarrow> linear_on K' c"
  unfolding linear_on_def by blast

lemma linear_on_refl: "linear_on K c \<Longrightarrow> a \<in> K \<Longrightarrow> c a a = 0"
  using linear_onD(1) [of K c a a] by linarith

lemma linear_on_sym: "linear_on K c \<Longrightarrow> a \<in> K \<Longrightarrow> b \<in> K \<Longrightarrow> c a b = 0 \<longleftrightarrow> c b a = 0"
  using linear_onD(1) [of K c a b] linear_onD(1) [of K c b a] by linarith

lemma linear_on_trans:
  assumes "linear_on K c" "a \<in> K" "b \<in> K" "d \<in> K"
  shows "c a b < 0 \<Longrightarrow> c b d \<le> 0 \<Longrightarrow> c a d < 0" "c a b \<le> 0 \<Longrightarrow> c b d < 0 \<Longrightarrow> c a d < 0"
    "c a b = 0 \<Longrightarrow> c b d = 0 \<Longrightarrow> c a d = 0"
proof -
  note L = linear_onD [OF assms(1)]
  show "c a b < 0 \<Longrightarrow> c b d \<le> 0 \<Longrightarrow> c a d < 0"
    using assms(2-4) L(2) [of a b d] L(2) [of d a b] L(1) [of a b] L(1) [of a d] L(1) [of d a] L(2) [of b d a]
    by linarith
  show "c a b \<le> 0 \<Longrightarrow> c b d < 0 \<Longrightarrow> c a d < 0"
    using assms(2-4) L(2) [of a b d] L(2) [of d a b] L(1) [of b d] L(1) [of a d] L(1) [of d a] L(2) [of b d a]
    by linarith
  show "c a b = 0 \<Longrightarrow> c b d = 0 \<Longrightarrow> c a d = 0"
    using assms(2-4) L(2) [of a b d] L(2) [of d b a] linear_on_sym [OF assms(1), of a b]
      linear_on_sym [OF assms(1), of b d] L(1) [of a d] by linarith
qed

lemma linear_on_cong:
  assumes d: "linear_on K d" and eq: "\<And>a b. a \<in> K \<Longrightarrow> b \<in> K \<Longrightarrow> c a b = d a b"
  shows "linear_on K c"
  unfolding linear_on_def
proof (intro conjI ballI impI)
  show "c a b < 0 \<longleftrightarrow> 0 < c b a" if "a \<in> K" "b \<in> K" for a b
    using linear_onD(1) [OF d that] that by (simp add: eq)
  show "c a e \<le> 0" if "a \<in> K" "b \<in> K" "e \<in> K" "c a b \<le> 0 \<and> c b e \<le> 0" for a b e
    using linear_onD(2) [OF d that(1-3)] that by (simp add: eq)
qed

lemma linear_on_neg: "linear_on K c \<Longrightarrow> linear_on K (\<lambda>a b. - c a b)"
  unfolding linear_on_def by (metis (no_types) neg_le_0_iff_le neg_less_0_iff_less not_less)

lemma linear_on_flip: "linear_on K c \<Longrightarrow> linear_on K (\<lambda>a b. c b a)"
  unfolding linear_on_def by blast

lemma linear_on_by: "linear_on X c \<Longrightarrow> f ` K \<subseteq> X \<Longrightarrow> linear_on K (\<lambda>a b. c (f a) (f b))"
  unfolding linear_on_def by blast

text \<open>Two comparisons after one another.\<close>

lemma linear_on_lex:
  assumes c: "linear_on K c" and d: "linear_on K d"
  shows "linear_on K (\<lambda>a b. if c a b \<noteq> 0 then c a b else d a b)"
  unfolding linear_on_def
proof (intro conjI ballI impI)
  fix a b
  assume "a \<in> K" "b \<in> K"
  then show "(if c a b \<noteq> 0 then c a b else d a b) < 0 \<longleftrightarrow> 0 < (if c b a \<noteq> 0 then c b a else d b a)"
    using linear_onD(1) [OF c, of a b] linear_onD(1) [OF d, of a b] linear_on_sym [OF c, of a b] by auto
next
  fix a b e
  assume "a \<in> K" "b \<in> K" "e \<in> K"
    and "(if c a b \<noteq> 0 then c a b else d a b) \<le> 0 \<and> (if c b e \<noteq> 0 then c b e else d b e) \<le> 0"
  then show "(if c a e \<noteq> 0 then c a e else d a e) \<le> 0"
    using linear_on_trans [OF c, of a b e] linear_onD(2) [OF d, of a b e]
    by (auto split: if_splits)
qed

section \<open>Sorted association lists\<close>

definition sorted_keys :: "('k \<Rightarrow> 'k \<Rightarrow> int) \<Rightarrow> ('k \<times> 'v) list \<Rightarrow> bool" where
  "sorted_keys c es \<longleftrightarrow> sorted_wrt (\<lambda>a b. c (fst a) (fst b) < 0) es"

text \<open>Setting an existing key updates the value of its element.\<close>

fun set_key :: "('k \<Rightarrow> 'k \<Rightarrow> int) \<Rightarrow> 'k \<Rightarrow> 'v \<Rightarrow> ('k \<times> 'v) list \<Rightarrow> ('k \<times> 'v) list" where
  "set_key c k v [] = [(k, v)]"
| "set_key c k v ((k', v') # es) =
     (if c k k' < 0 then (k, v) # (k', v') # es
      else if c k k' = 0 then (k', v) # es
      else (k', v') # set_key c k v es)"

definition remove_key :: "('k \<Rightarrow> 'k \<Rightarrow> int) \<Rightarrow> 'k \<Rightarrow> ('k \<times> 'v) list \<Rightarrow> ('k \<times> 'v) list" where
  "remove_key c k es = filter (\<lambda>(k', _). c k k' \<noteq> 0) es"

definition find_key :: "('k \<Rightarrow> 'k \<Rightarrow> int) \<Rightarrow> 'k \<Rightarrow> ('k \<times> 'v) list \<Rightarrow> ('k \<times> 'v) option" where
  "find_key c k es = List.find (\<lambda>(k', _). c k k' = 0) es"

lemma sorted_keys_Nil [simp]: "sorted_keys c []"
  by (simp add: sorted_keys_def)

lemma sorted_keys_Cons [simp]:
  "sorted_keys c (e # es) \<longleftrightarrow> (\<forall>e' \<in> set es. c (fst e) (fst e') < 0) \<and> sorted_keys c es"
  by (simp add: sorted_keys_def)

lemma sorted_keys_append:
  "sorted_keys c (es @ fs) \<longleftrightarrow>
     sorted_keys c es \<and> sorted_keys c fs \<and> (\<forall>e \<in> set es. \<forall>f \<in> set fs. c (fst e) (fst f) < 0)"
  by (simp add: sorted_keys_def sorted_wrt_append)

lemma sorted_keys_distinct: "linear_on K c \<Longrightarrow> fst ` set es \<subseteq> K \<Longrightarrow> sorted_keys c es \<Longrightarrow> distinct (map fst es)"
  by (induction es) (use linear_on_refl in \<open>fastforce+\<close>)

text \<open>In a sorted list a key occurs once.\<close>

lemma sorted_keys_unique:
  assumes c: "linear_on K c"
  shows "fst ` set es \<subseteq> K \<Longrightarrow> sorted_keys c es \<Longrightarrow> e \<in> set es \<Longrightarrow> f \<in> set es \<Longrightarrow> c (fst e) (fst f) = 0 \<Longrightarrow> e = f"
  by (induction es) (use linear_on_sym [OF c] in force)+

lemma set_key_fresh:
  "\<forall>e \<in> set es. c k (fst e) \<noteq> 0 \<Longrightarrow> set (set_key c k v es) = insert (k, v) (set es)"
  by (induction es) (auto split: if_splits)

lemma set_key_keys: "fst ` set (set_key c k v es) \<subseteq> insert k (fst ` set es)"
  by (induction c k v es rule: set_key.induct) (auto simp: subset_iff)

lemma set_key_old:
  assumes c: "linear_on K c" and k: "k \<in> K"
  shows "fst ` set es \<subseteq> K \<Longrightarrow> sorted_keys c es \<Longrightarrow> (k', v') \<in> set es \<Longrightarrow> c k k' = 0 \<Longrightarrow>
     set (set_key c k v es) = insert (k', v) (set es - {(k', v')})"
proof (induction es)
  case (Cons e es)
  obtain k1 v1 where e: "e = (k1, v1)" by fastforce
  show ?case
  proof (cases "(k', v') = e")
    case True
    then have "(k', v') \<notin> set es" using Cons.prems(1,2) linear_on_refl [OF c, of k'] e by auto
    then show ?thesis using True Cons.prems(4) e by auto
  next
    case False
    then have m: "(k', v') \<in> set es" using Cons.prems(3) by simp
    then have "c k1 k' < 0" using Cons.prems(2) e by auto
    moreover have K: "k' \<in> K" "k1 \<in> K" using Cons.prems(1) m e by force+
    ultimately have "c k1 k < 0"
      using linear_on_trans(1) [OF c, of k1 k' k] k Cons.prems(4) linear_on_sym [OF c, of k k'] by simp
    then have "0 < c k k1" using linear_onD(1) [OF c, of k1 k] K k by simp
    moreover have "(k', v') \<noteq> (k1, v1)" using False e by simp
    ultimately show ?thesis using Cons.IH [OF _ _ m Cons.prems(4)] Cons.prems(1,2) e by auto
  qed
qed simp

lemma set_key_sorted:
  assumes c: "linear_on K c" and k: "k \<in> K"
  shows "fst ` set es \<subseteq> K \<Longrightarrow> sorted_keys c es \<Longrightarrow> sorted_keys c (set_key c k v es)"
proof (induction es)
  case (Cons e es)
  obtain k1 v1 where e: "e = (k1, v1)" by fastforce
  have K: "k1 \<in> K" "fst ` set es \<subseteq> K" using Cons.prems(1) e by auto
  consider "c k k1 < 0" | "c k k1 = 0" | "0 < c k k1" by linarith
  then show ?case
  proof cases
    case 1
    have "c k (fst e') < 0" if "e' \<in> set es" for e'
    proof (rule linear_on_trans(1) [OF c k K(1) _ 1])
      show "fst e' \<in> K" using K(2) that by auto
      show "c k1 (fst e') \<le> 0" using Cons.prems(2) that e by force
    qed
    then show ?thesis using 1 Cons.prems e by auto
  next
    case 2
    then show ?thesis using Cons.prems e by auto
  next
    case 3
    then have "c k1 k < 0" using linear_onD(1) [OF c K(1) k] by simp
    then have "\<forall>k' \<in> insert k (fst ` set es). c k1 k' < 0" using Cons.prems e by auto
    then have "\<forall>e' \<in> set (set_key c k v es). c k1 (fst e') < 0" using set_key_keys [of c k v es] by blast
    then show ?thesis using 3 Cons.IH [OF K(2)] Cons.prems e by auto
  qed
qed simp

lemma remove_key_sorted: "sorted_keys c es \<Longrightarrow> sorted_keys c (remove_key c k es)"
  by (simp add: sorted_keys_def remove_key_def sorted_wrt_filter)

lemma set_remove_key: "set (remove_key c k es) = {e \<in> set es. c k (fst e) \<noteq> 0}"
  by (auto simp: remove_key_def)

lemma find_SomeD: "List.find Q xs = Some x \<Longrightarrow> x \<in> set xs \<and> Q x"
  by (induction xs) (auto split: if_splits)

lemma find_key_Some: "find_key c k es = Some e \<Longrightarrow> e \<in> set es \<and> c k (fst e) = 0"
  unfolding find_key_def by (auto dest: find_SomeD)

lemma find_key_None: "find_key c k es = None \<longleftrightarrow> (\<forall>e \<in> set es. c k (fst e) \<noteq> 0)"
  unfolding find_key_def by (auto simp: find_None_iff)

section \<open>Laws\<close>

text \<open>
  Documented behaviour: \<open>cmpf s\<close> is the comparison that the list was made for; as long as that is a
  total preorder on the keys at hand, the elements are kept in its order and the operations are
  those of the sorted association list. \<^verbatim>\<open>LessThanFunc\<close> reverses a comparison, and the predefined comparisons agree
  with the order of their type.
\<close>

definition skiplist_laws :: "('s, 'k, 'v) skiplist_ops \<Rightarrow> ('s \<Rightarrow> 'k \<Rightarrow> 'k \<Rightarrow> int) \<Rightarrow> bool" where
  "skiplist_laws SL cmpf \<longleftrightarrow>
     (\<forall>c. cmpf (sl_New SL c) = c \<and> sl_Elems SL (sl_New SL c) = []) \<and>
     (\<forall>s. sl_Len SL s = int (length (sl_Elems SL s))) \<and>
     (\<forall>s k v. linear_on (insert k (fst ` set (sl_Elems SL s))) (cmpf s) \<and> sorted_keys (cmpf s) (sl_Elems SL s) \<longrightarrow>
        cmpf (sl_Set SL s k v) = cmpf s \<and> sl_Elems SL (sl_Set SL s k v) = set_key (cmpf s) k v (sl_Elems SL s) \<and>
        cmpf (sl_Remove SL s k) = cmpf s \<and> sl_Elems SL (sl_Remove SL s k) = remove_key (cmpf s) k (sl_Elems SL s) \<and>
        sl_Get SL s k = find_key (cmpf s) k (sl_Elems SL s)) \<and>
     (\<forall>f a b. sl_LessThanFunc SL f a b = - f a b) \<and>
     linear_cmp (sl_String SL) \<and> (\<forall>a b. sl_String SL a b = 0 \<longleftrightarrow> a = b) \<and>
     (\<forall>a b. (sl_Uint64 SL a b < 0 \<longleftrightarrow> a < b) \<and> (sl_Uint64 SL a b = 0 \<longleftrightarrow> a = b)) \<and>
     (\<forall>a b. (sl_Int64 SL a b < 0 \<longleftrightarrow> a < b) \<and> (sl_Int64 SL a b = 0 \<longleftrightarrow> a = b))"

lemma skiplist_lawsD:
  assumes "skiplist_laws SL cmpf"
  shows "cmpf (sl_New SL c) = c" "sl_Elems SL (sl_New SL c) = []"
    "sl_Len SL s = int (length (sl_Elems SL s))"
    "sl_LessThanFunc SL f a b = - f a b"
    "linear_cmp (sl_String SL)" "sl_String SL u w = 0 \<longleftrightarrow> u = w"
    "sl_Uint64 SL m n < 0 \<longleftrightarrow> m < n" "sl_Uint64 SL m n = 0 \<longleftrightarrow> m = n"
    "sl_Int64 SL x y < 0 \<longleftrightarrow> x < y" "sl_Int64 SL x y = 0 \<longleftrightarrow> x = y"
  using assms unfolding skiplist_laws_def by simp_all

lemma skiplist_ops:
  assumes "skiplist_laws SL cmpf" "linear_on K (cmpf s)" "k \<in> K" "fst ` set (sl_Elems SL s) \<subseteq> K"
    "sorted_keys (cmpf s) (sl_Elems SL s)"
  shows "cmpf (sl_Set SL s k v) = cmpf s" "sl_Elems SL (sl_Set SL s k v) = set_key (cmpf s) k v (sl_Elems SL s)"
    "cmpf (sl_Remove SL s k) = cmpf s" "sl_Elems SL (sl_Remove SL s k) = remove_key (cmpf s) k (sl_Elems SL s)"
    "sl_Get SL s k = find_key (cmpf s) k (sl_Elems SL s)"
proof -
  have "linear_on (insert k (fst ` set (sl_Elems SL s))) (cmpf s)"
    using assms(3,4) by (intro linear_on_mono [OF assms(2)]) auto
  then have p: "linear_on (insert k (fst ` set (sl_Elems SL s))) (cmpf s) \<and> sorted_keys (cmpf s) (sl_Elems SL s)"
    using assms(5) by simp
  note l = assms(1) [unfolded skiplist_laws_def, THEN conjunct2, THEN conjunct2, THEN conjunct1, rule_format, OF p]
  show "cmpf (sl_Set SL s k v) = cmpf s"
    "sl_Elems SL (sl_Set SL s k v) = set_key (cmpf s) k v (sl_Elems SL s)"
    "cmpf (sl_Remove SL s k) = cmpf s" "sl_Elems SL (sl_Remove SL s k) = remove_key (cmpf s) k (sl_Elems SL s)"
    "sl_Get SL s k = find_key (cmpf s) k (sl_Elems SL s)"
    using l by simp_all
qed

lemma linear_cmp_of_less:
  assumes "\<And>a b. (c a b < 0 \<longleftrightarrow> a < b) \<and> (c a b = 0 \<longleftrightarrow> a = (b :: 'a :: linorder))"
  shows "linear_cmp c"
proof -
  have "c a b \<le> 0 \<longleftrightarrow> a \<le> b" for a b using assms [of a b] by (auto simp: order_le_less)
  moreover have "0 < c a b \<longleftrightarrow> b < a" for a b
    using assms [of a b] by (metis not_less_iff_gr_or_eq)
  ultimately show ?thesis using assms by (force simp: linear_on_def)
qed

lemma Uint64_linear: "skiplist_laws SL cmpf \<Longrightarrow> linear_cmp (sl_Uint64 SL)"
  by (rule linear_cmp_of_less) (auto simp: skiplist_lawsD)

lemma Int64_linear: "skiplist_laws SL cmpf \<Longrightarrow> linear_cmp (sl_Int64 SL)"
  by (rule linear_cmp_of_less) (auto simp: skiplist_lawsD)

section \<open>A concrete record\<close>

definition ord_cmp :: "'a::linorder \<Rightarrow> 'a \<Rightarrow> int" where
  "ord_cmp a b = (if a < b then - 1 else if a = b then 0 else 1)"

lemma ord_cmp_simps: "ord_cmp a b < 0 \<longleftrightarrow> a < b" "ord_cmp a b = 0 \<longleftrightarrow> a = b"
  by (auto simp: ord_cmp_def)

lemma linear_ord_cmp: "linear_cmp ord_cmp"
  by (rule linear_cmp_of_less) (simp add: ord_cmp_simps)

definition list_skiplist :: "(('k \<Rightarrow> 'k \<Rightarrow> int) \<times> ('k \<times> 'v) list, 'k, 'v) skiplist_ops" where
  "list_skiplist =
     \<lparr>sl_New = (\<lambda>c. (c, [])), sl_Len = (\<lambda>(c, es). int (length es)),
      sl_Set = (\<lambda>(c, es) k v. (c, set_key c k v es)), sl_Get = (\<lambda>(c, es) k. find_key c k es),
      sl_Remove = (\<lambda>(c, es) k. (c, remove_key c k es)), sl_Elems = snd,
      sl_LessThanFunc = (\<lambda>f a b. - f a b),
      sl_String = ord_cmp, sl_Uint64 = ord_cmp, sl_Int64 = ord_cmp\<rparr>"

lemma list_skiplist_laws: "skiplist_laws list_skiplist fst"
  by (auto simp: skiplist_laws_def list_skiplist_def linear_ord_cmp ord_cmp_simps)

end
