(* ===== verification/Priority_Nonce.thy ===== *)
theory Priority_Nonce
  imports Lane_Mempool Skiplist "HOL-Library.AList"
begin

text \<open>
  \<^verbatim>\<open>blockbuster/priority_nonce.go\<close>: the index behind the mempool of a lane. Transactions are kept
  in one list ordered by priority and one list per sender ordered by nonce; an iterator walks
  both, so that transactions come by priority but the ones of a sender by nonce.
\<close>

section \<open>The mempool\<close>

record ('p, 'b) PriorityNonceMempoolConfig =
  pc_TxPriority :: "('p, 'b) TxPriority"
  OnRead :: "(tx \<Rightarrow> unit) option"
  TxReplacement :: "('p \<Rightarrow> 'p \<Rightarrow> tx \<Rightarrow> tx \<Rightarrow> bool) option"
  pc_MaxTx :: int

text \<open>
  The key of a transaction. The pointer \<open>senderElement\<close> refers to the element of the same nonce
  in the index of the same sender, so it is left out and looked up there (\<open>sender_element\<close>).
\<close>

record 'p txMeta =
  nonce :: nat
  priority :: 'p
  sender :: string
  weight :: 'p

text \<open>
  The maps that the code iterates over are association lists; \<open>scores\<close> maps sender and nonce to
  the priority and the weight of the transaction (the other fields of its values are not read).
\<close>

record ('s, 'p, 'b) PriorityNonceMempool =
  priorityIndex :: 's
  priorityCounts :: "('p \<times> int) list"
  senderIndices :: "(string \<times> 's) list"
  scores :: "string \<times> nat \<rightharpoonup> 'p \<times> 'p"
  pn_cfg :: "('p, 'b) PriorityNonceMempoolConfig"

type_synonym ('s, 'p) txlists = "('s, 'p txMeta, tx) skiplist_ops"

definition NewDefaultTxPriority :: "('s, int) txlists \<Rightarrow> (int, 'b) TxPriority" where
  "NewDefaultTxPriority SL =
     \<lparr>GetTxPriority = (\<lambda>ctx t. Ok (Priority ctx)), ComparePriority = sl_Int64 SL, MinValue = - (2 ^ 63)\<rparr>"

definition DefaultPriorityNonceMempoolConfig ::
  "('s, int) txlists \<Rightarrow> (int, 'b) PriorityNonceMempoolConfig" where
  "DefaultPriorityNonceMempoolConfig SL =
     \<lparr>pc_TxPriority = NewDefaultTxPriority SL, OnRead = None, TxReplacement = None, pc_MaxTx = 0\<rparr>"

definition skiplistComparable ::
  "('s, 'p) txlists \<Rightarrow> ('p, 'b) TxPriority \<Rightarrow> 'p txMeta \<Rightarrow> 'p txMeta \<Rightarrow> int" where
  "skiplistComparable SL txPriority = sl_LessThanFunc SL (\<lambda>keyA keyB.
     (let res = ComparePriority txPriority (priority keyA) (priority keyB)
      in if res \<noteq> 0 then res
         else let res = ComparePriority txPriority (weight keyA) (weight keyB)
         in if res \<noteq> 0 then res
            else let res = sl_String SL (sender keyA) (sender keyB)
            in if res \<noteq> 0 then res
               else sl_Uint64 SL (nonce keyA) (nonce keyB)))"

definition NewPriorityMempool ::
  "('s, 'p) txlists \<Rightarrow> ('p, 'b) PriorityNonceMempoolConfig \<Rightarrow> ('s, 'p, 'b) PriorityNonceMempool" where
  "NewPriorityMempool SL c =
     \<lparr>priorityIndex = sl_New SL (skiplistComparable SL (pc_TxPriority c)), priorityCounts = [],
      senderIndices = [], scores = Map.empty, pn_cfg = c\<rparr>"

definition DefaultPriorityMempool ::
  "('s, int) txlists \<Rightarrow> ('s, int, 'b) PriorityNonceMempool" where
  "DefaultPriorityMempool SL = NewPriorityMempool SL (DefaultPriorityNonceMempoolConfig SL)"

text \<open>An index without elements has no front: the dereference panics.\<close>

definition NextSenderTx ::
  "('s, 'p) txlists \<Rightarrow> ('s, 'p, 'b) PriorityNonceMempool \<Rightarrow> string \<Rightarrow> tx option outcome" where
  "NextSenderTx SL mp s =
     (case map_of (senderIndices mp) s of
        None \<Rightarrow> Ok None
      | Some senderIndex \<Rightarrow>
          (case sl_Elems SL senderIndex of
             [] \<Rightarrow> Panic ''nil pointer dereference''
           | (key, t) # _ \<Rightarrow> Ok (Some t)))"

definition PN_CountTx :: "('s, 'p) txlists \<Rightarrow> ('s, 'p, 'b) PriorityNonceMempool \<Rightarrow> int" where
  "PN_CountTx SL mp = sl_Len SL (priorityIndex mp)"

subsection \<open>Insertion\<close>

text \<open>Sender and nonce, from the first signature; \<open>no_sigs\<close> is the message if there is none.\<close>

definition first_signature :: "addr_ops \<Rightarrow> string \<Rightarrow> tx \<Rightarrow> (string \<times> nat) outcome" where
  "first_signature A no_sigs t =
     (case SigVerifiable t of
        None \<Rightarrow> Panic ''interface conversion''
      | Some (_, sigs_res) \<Rightarrow>
          obind sigs_res (\<lambda>sigs.
            case sigs of
              [] \<Rightarrow> Err (ErrMsg no_sigs)
            | sig # _ \<Rightarrow> Ok (AccAddress_String A (PubKey_Address sig), Sequence sig)))"

definition count_of :: "('p \<times> int) list \<Rightarrow> 'p \<Rightarrow> int" where
  "count_of counts p = (case map_of counts p of None \<Rightarrow> 0 | Some n \<Rightarrow> n)"

definition add_count :: "'p \<Rightarrow> int \<Rightarrow> ('p \<times> int) list \<Rightarrow> ('p \<times> int) list" where
  "add_count p d counts = AList.update p (count_of counts p + d) counts"

definition sender_nonce_cmp :: "('s, 'p) txlists \<Rightarrow> 'p txMeta \<Rightarrow> 'p txMeta \<Rightarrow> int" where
  "sender_nonce_cmp SL = sl_LessThanFunc SL (\<lambda>a b. sl_Uint64 SL (nonce b) (nonce a))"

text \<open>
  The check of the replacement rule and the removal of the old entry, when there is one. \<open>zero\<close>
  is the zero value of the type of priorities.
\<close>

definition replace_old ::
  "('s, 'p) txlists \<Rightarrow> 's \<Rightarrow> 'p txMeta \<Rightarrow> tx \<Rightarrow> ('s, 'p, 'b) PriorityNonceMempool
   \<Rightarrow> ('s, 'p, 'b) PriorityNonceMempool outcome" where
  "replace_old SL senderIndex key t mp =
     (case scores mp (sender key, nonce key) of
        None \<Rightarrow> Ok mp
      | Some (oldPriority, oldWeight) \<Rightarrow>
          obind
            (case TxReplacement (pn_cfg mp) of
               None \<Rightarrow> Ok ()
             | Some rule \<Rightarrow>
                 (case sl_Get SL senderIndex key of
                    None \<Rightarrow> Panic ''nil pointer dereference''
                  | Some (_, oldTx) \<Rightarrow>
                      if \<not> rule oldPriority (priority key) oldTx t then
                        Err (ErrMsg ''tx doesn't fit the replacement rule'')
                      else Ok ()))
            (\<lambda>_. Ok (mp\<lparr>
               priorityIndex := sl_Remove SL (priorityIndex mp) (key\<lparr>priority := oldPriority, weight := oldWeight\<rparr>),
               priorityCounts := add_count oldPriority (- 1) (priorityCounts mp)\<rparr>)))"

definition PN_Insert ::
  "('s, 'p) txlists \<Rightarrow> addr_ops \<Rightarrow> 'p \<Rightarrow> ('s, 'p, 'b) PriorityNonceMempool \<Rightarrow> 'b Context \<Rightarrow> tx
   \<Rightarrow> ('s, 'p, 'b) PriorityNonceMempool \<times> unit outcome" where
  "PN_Insert SL A zero mp ctx t =
     (if pc_MaxTx (pn_cfg mp) > 0 \<and> PN_CountTx SL mp \<ge> pc_MaxTx (pn_cfg mp) then
        (mp, Err ErrMempoolTxMaxCapacity)
      else if pc_MaxTx (pn_cfg mp) < 0 then (mp, Ok ())
      else
        (case obind (first_signature A ''tx must have at least one signer'' t) (\<lambda>(snd_addr, n).
              obind (GetTxPriority (pc_TxPriority (pn_cfg mp)) ctx t) (\<lambda>p.
                Ok \<lparr>nonce = n, priority = p, sender = snd_addr, weight = zero\<rparr>)) of
           Err e \<Rightarrow> (mp, Err e)
         | Panic s \<Rightarrow> (mp, Panic s)
         | Ok key \<Rightarrow>
             (let senderIndex =
                    (case map_of (senderIndices mp) (sender key) of
                       Some i \<Rightarrow> i | None \<Rightarrow> sl_New SL (sender_nonce_cmp SL));
                  mp1 = mp\<lparr>senderIndices := AList.update (sender key) senderIndex (senderIndices mp)\<rparr>
              in case replace_old SL senderIndex key t mp1 of
                   Err e \<Rightarrow> (mp1, Err e)
                 | Panic s \<Rightarrow> (mp1, Panic s)
                 | Ok mp2 \<Rightarrow>
                     (mp2\<lparr>priorityCounts := add_count (priority key) 1 (priorityCounts mp2),
                          senderIndices := AList.update (sender key) (sl_Set SL senderIndex key t) (senderIndices mp2),
                          scores := (scores mp2)((sender key, nonce key) \<mapsto> (priority key, zero)),
                          priorityIndex := sl_Set SL (priorityIndex mp2) key t\<rparr>, Ok ()))))"

subsection \<open>Removal\<close>

definition PN_Remove ::
  "('s, 'p) txlists \<Rightarrow> addr_ops \<Rightarrow> ('s, 'p, 'b) PriorityNonceMempool \<Rightarrow> tx
   \<Rightarrow> ('s, 'p, 'b) PriorityNonceMempool \<times> unit outcome" where
  "PN_Remove SL A mp t =
     (case first_signature A ''attempted to remove a tx with no signatures'' t of
        Err e \<Rightarrow> (mp, Err e)
      | Panic s \<Rightarrow> (mp, Panic s)
      | Ok (snd_addr, n) \<Rightarrow>
          (case scores mp (snd_addr, n) of
             None \<Rightarrow> (mp, Err ErrTxNotFound)
           | Some (p, w) \<Rightarrow>
               (case map_of (senderIndices mp) snd_addr of
                  None \<Rightarrow> (mp, Err (ErrMsg ''sender not found''))
                | Some senderTxs \<Rightarrow>
                    (let tk = \<lparr>nonce = n, priority = p, sender = snd_addr, weight = w\<rparr>
                     in (mp\<lparr>priorityIndex := sl_Remove SL (priorityIndex mp) tk,
                            senderIndices := AList.update snd_addr (sl_Remove SL senderTxs tk) (senderIndices mp),
                            scores := (scores mp)((snd_addr, n) := None),
                            priorityCounts := add_count p (- 1) (priorityCounts mp)\<rparr>, Ok ())))))"

subsection \<open>Ties\<close>

text \<open>\<open>senderWeight\<close> on the elements of the sender index from the cursor on ([] for nil).\<close>

fun weight_loop :: "('p, 'b) TxPriority \<Rightarrow> 'p \<Rightarrow> ('p txMeta \<times> tx) list \<Rightarrow> 'p" where
  "weight_loop P w [] = w"
| "weight_loop P w ((key, _) # rest) =
     weight_loop P (if ComparePriority P (priority key) w \<noteq> 0 then priority key else w) rest"

definition senderWeight :: "('p, 'b) TxPriority \<Rightarrow> ('p txMeta \<times> tx) list \<Rightarrow> 'p" where
  "senderWeight P cursor =
     (case cursor of [] \<Rightarrow> MinValue P | (key, _) # rest \<Rightarrow> weight_loop P (priority key) rest)"

definition sender_element ::
  "('s, 'p) txlists \<Rightarrow> ('s, 'p, 'b) PriorityNonceMempool \<Rightarrow> 'p txMeta \<Rightarrow> ('p txMeta \<times> tx) list" where
  "sender_element SL mp key =
     (case map_of (senderIndices mp) (sender key) of
        None \<Rightarrow> []
      | Some senderIndex \<Rightarrow> dropWhile (\<lambda>(k, _). nonce k \<noteq> nonce key) (sl_Elems SL senderIndex))"

text \<open>The first loop: the keys to delete and to insert.\<close>

definition reordering ::
  "('s, 'p) txlists \<Rightarrow> ('s, 'p, 'b) PriorityNonceMempool \<Rightarrow> ('p txMeta \<times> 'p txMeta \<times> tx) list" where
  "reordering SL mp =
     map (\<lambda>(key, t).
         (key, key\<lparr>weight := senderWeight (pc_TxPriority (pn_cfg mp)) (sender_element SL mp key)\<rparr>, t))
       (filter (\<lambda>(key, t). count_of (priorityCounts mp) (priority key) > 1) (sl_Elems SL (priorityIndex mp)))"

definition reorder_step ::
  "('s, 'p) txlists \<Rightarrow> 'p txMeta \<times> 'p txMeta \<times> tx \<Rightarrow> ('s, 'p, 'b) PriorityNonceMempool
   \<Rightarrow> ('s, 'p, 'b) PriorityNonceMempool" where
  "reorder_step SL k mp =
     (case k of (deleteKey, insertKey, t) \<Rightarrow>
        mp\<lparr>priorityIndex := sl_Set SL (sl_Remove SL (priorityIndex mp) deleteKey) insertKey t,
           scores := ((scores mp)((sender deleteKey, nonce deleteKey) := None))
             ((sender insertKey, nonce insertKey) \<mapsto> (priority insertKey, weight insertKey))\<rparr>)"

definition reorderPriorityTies ::
  "('s, 'p) txlists \<Rightarrow> ('s, 'p, 'b) PriorityNonceMempool \<Rightarrow> ('s, 'p, 'b) PriorityNonceMempool" where
  "reorderPriorityTies SL mp = fold (reorder_step SL) (reordering SL mp) mp"

subsection \<open>Iteration\<close>

text \<open>
  The iterator. \<open>priorityNode\<close> and each cursor are the elements from the one they point at (an
  empty list is nil). Iterating does not change the mempool.
\<close>

record 'p PriorityNonceIterator =
  priorityNode :: "('p txMeta \<times> tx) list"
  senderCursors :: "string \<rightharpoonup> ('p txMeta \<times> tx) list"
  it_sender :: string
  nextPriority :: 'p

text \<open>
  \<open>iteratePriority\<close> is called with the node to go to: the front at the beginning, the successor of
  the current node later. The result \<open>Ok None\<close> is the nil iterator.
\<close>

function (sequential) iteratePriority ::
    "('s, 'p) txlists \<Rightarrow> 'p \<Rightarrow> ('s, 'p, 'b) PriorityNonceMempool \<Rightarrow> 'p PriorityNonceIterator
     \<Rightarrow> ('p txMeta \<times> tx) list \<Rightarrow> 'p PriorityNonceIterator option outcome"
  and iterator_Next ::
    "('s, 'p) txlists \<Rightarrow> 'p \<Rightarrow> ('s, 'p, 'b) PriorityNonceMempool \<Rightarrow> 'p PriorityNonceIterator
     \<Rightarrow> ('p txMeta \<times> tx) list \<Rightarrow> 'p PriorityNonceIterator option outcome" where
  "iteratePriority SL zero mp i [] = Ok None"
| "iteratePriority SL zero mp i (node # rest) =
     iterator_Next SL zero mp
       (i\<lparr>priorityNode := node # rest, it_sender := sender (fst node),
          nextPriority := (case rest of [] \<Rightarrow> MinValue (pc_TxPriority (pn_cfg mp)) | nx # _ \<Rightarrow> priority (fst nx))\<rparr>)
       (node # rest)"
| "iterator_Next SL zero mp i [] = Ok None"
| "iterator_Next SL zero mp i (node # rest) =
     (case (case senderCursors i (it_sender i) of
              None \<Rightarrow>
                (case map_of (senderIndices mp) (it_sender i) of
                   None \<Rightarrow> Panic ''nil pointer dereference''
                 | Some senderIndex \<Rightarrow> Ok (sl_Elems SL senderIndex))
            | Some cursor \<Rightarrow> Ok (tl cursor)) of
        Err e \<Rightarrow> Err e
      | Panic s \<Rightarrow> Panic s
      | Ok [] \<Rightarrow> iteratePriority SL zero mp i rest
      | Ok ((key, t) # later) \<Rightarrow>
          (let P = pc_TxPriority (pn_cfg mp);
               w = (case scores mp (sender key, nonce key) of None \<Rightarrow> zero | Some (_, w) \<Rightarrow> w)
           in if rest \<noteq> [] \<and>
                 (ComparePriority P (priority key) (nextPriority i) < 0 \<or>
                  (ComparePriority P (priority key) (nextPriority i) = 0 \<and>
                   ComparePriority P w (weight (fst (hd rest))) < 0))
              then iteratePriority SL zero mp i rest
              else Ok (Some (i\<lparr>senderCursors := (senderCursors i)(it_sender i \<mapsto> (key, t) # later)\<rparr>))))"
  by pat_completeness auto
termination
  by (relation "measure (case_sum (\<lambda>(SL, zero, mp, i, ns). 2 * length ns + 1) (\<lambda>(SL, zero, mp, i, ns). 2 * length ns))") auto

definition Iterator_Next ::
  "('s, 'p) txlists \<Rightarrow> 'p \<Rightarrow> ('s, 'p, 'b) PriorityNonceMempool \<Rightarrow> 'p PriorityNonceIterator
   \<Rightarrow> 'p PriorityNonceIterator option outcome" where
  "Iterator_Next SL zero mp i = iterator_Next SL zero mp i (priorityNode i)"

definition Iterator_Tx :: "'p PriorityNonceIterator \<Rightarrow> tx outcome" where
  "Iterator_Tx i =
     (case senderCursors i (it_sender i) of
        Some ((key, t) # _) \<Rightarrow> Ok t
      | _ \<Rightarrow> Panic ''nil pointer dereference'')"

text \<open>\<open>Select\<close>: the mempool with its ties reordered, and the iterator (nil if there is nothing).\<close>

definition PN_Select ::
  "('s, 'p) txlists \<Rightarrow> 'p \<Rightarrow> ('s, 'p, 'b) PriorityNonceMempool
   \<Rightarrow> ('s, 'p, 'b) PriorityNonceMempool \<times> 'p PriorityNonceIterator option outcome" where
  "PN_Select SL zero mp =
     (if sl_Len SL (priorityIndex mp) = 0 then (mp, Ok None)
      else
        (let mp1 = reorderPriorityTies SL mp;
             iterator = \<lparr>priorityNode = [], senderCursors = Map.empty, it_sender = '''', nextPriority = zero\<rparr>
         in (mp1, iteratePriority SL zero mp1 iterator (sl_Elems SL (priorityIndex mp1)))))"

text \<open>
  What a caller sees that walks the iterator to its end: the transactions in their order. Every
  step yields a transaction, so the number of transactions is enough fuel.
\<close>

fun walk ::
  "('s, 'p) txlists \<Rightarrow> 'p \<Rightarrow> ('s, 'p, 'b) PriorityNonceMempool \<Rightarrow> nat
   \<Rightarrow> 'p PriorityNonceIterator option outcome \<Rightarrow> tx list outcome" where
  "walk SL zero mp fuel (Err e) = Err e"
| "walk SL zero mp fuel (Panic s) = Panic s"
| "walk SL zero mp fuel (Ok None) = Ok []"
| "walk SL zero mp 0 (Ok (Some i)) = Panic ''out of fuel''"
| "walk SL zero mp (Suc fuel) (Ok (Some i)) =
     obind (Iterator_Tx i) (\<lambda>t.
     obind (walk SL zero mp fuel (Iterator_Next SL zero mp i)) (\<lambda>ts. Ok (t # ts)))"

definition PN_txs ::
  "('s, 'p) txlists \<Rightarrow> 'p \<Rightarrow> ('s, 'p, 'b) PriorityNonceMempool
   \<Rightarrow> ('s, 'p, 'b) PriorityNonceMempool \<times> tx list outcome" where
  "PN_txs SL zero mp =
     (case PN_Select SL zero mp of
        (mp', r) \<Rightarrow> (mp', walk SL zero mp' (length (sl_Elems SL (priorityIndex mp'))) r))"

subsection \<open>Emptiness\<close>

definition IsEmpty :: "('s, 'p) txlists \<Rightarrow> ('s, 'p, 'b) PriorityNonceMempool \<Rightarrow> unit outcome" where
  "IsEmpty SL mp =
     (if sl_Len SL (priorityIndex mp) \<noteq> 0 then Err (ErrMsg ''priorityIndex not empty'')
      else if list_ex (\<lambda>k. count_of (priorityCounts mp) k \<noteq> 0) (map fst (priorityCounts mp)) then
        Err (ErrMsg ''priorityCounts not zero'')
      else if list_ex (\<lambda>k. case map_of (senderIndices mp) k of
                None \<Rightarrow> False | Some i \<Rightarrow> sl_Len SL i \<noteq> 0) (map fst (senderIndices mp)) then
        Err (ErrMsg ''senderIndex not empty for sender'')
      else Ok ())"

end
