(* ===== verification/Priority_Nonce_Correct.thy ===== *)
theory Priority_Nonce_Correct
  imports Priority_Nonce "HOL-Library.Sublist"
begin

text \<open>
  What the priority nonce mempool keeps. Its abstract state is a map from sender and nonce to an
  entry; \<open>PN_repr\<close> relates the four data structures of the mempool to that map, every operation
  refines the operation on the map, and the iterator yields the transactions of the map.
\<close>

section \<open>Orders\<close>

lemma LessThanFunc_neg: "skiplist_laws SL cmpf \<Longrightarrow> sl_LessThanFunc SL f = (\<lambda>a b. - f a b)"
  by (intro ext) (rule skiplist_lawsD)

lemma skiplistComparable_linear:
  assumes "skiplist_laws SL cmpf" "linear_on X (ComparePriority P)"
  shows "linear_on {k. priority k \<in> X \<and> weight k \<in> X} (skiplistComparable SL P)"
  unfolding skiplistComparable_def LessThanFunc_neg [OF assms(1)] Let_def
  by (intro linear_on_neg linear_on_lex linear_on_by [OF assms(2), where f = priority]
      linear_on_by [OF assms(2), where f = weight] linear_on_by [OF skiplist_lawsD(5) [OF assms(1)], where f = sender]
      linear_on_by [OF Uint64_linear [OF assms(1)], where f = nonce]) auto

lemma skiplistComparable_eq0:
  assumes "skiplist_laws SL cmpf"
  shows "skiplistComparable SL P a b = 0 \<longleftrightarrow>
     ComparePriority P (priority a) (priority b) = 0 \<and> ComparePriority P (weight a) (weight b) = 0 \<and>
     sender a = sender b \<and> nonce a = nonce b"
  by (simp add: skiplistComparable_def Let_def skiplist_lawsD [OF assms])

text \<open>The index is ordered by falling priority, then falling weight.\<close>

lemma skiplistComparable_less:
  assumes "skiplist_laws SL cmpf" "skiplistComparable SL P a b < 0"
  shows "0 \<le> ComparePriority P (priority a) (priority b)"
    "ComparePriority P (priority a) (priority b) = 0 \<Longrightarrow> 0 \<le> ComparePriority P (weight a) (weight b)"
  using assms(2) by (auto simp: skiplistComparable_def Let_def skiplist_lawsD [OF assms(1)] split: if_splits)

lemma sender_nonce_cmp_simps:
  assumes "skiplist_laws SL cmpf"
  shows "sender_nonce_cmp SL a b < 0 \<longleftrightarrow> nonce a < nonce b" "sender_nonce_cmp SL a b = 0 \<longleftrightarrow> nonce a = nonce b"
    "linear_cmp (sender_nonce_cmp SL)"
proof -
  have l: "linear_cmp (\<lambda>a b. sl_Uint64 SL (nonce b) (nonce a))"
    by (rule linear_on_flip [OF linear_on_by [OF Uint64_linear [OF assms]]]) simp
  show "linear_cmp (sender_nonce_cmp SL)"
    unfolding sender_nonce_cmp_def LessThanFunc_neg [OF assms] by (rule linear_on_neg [OF l])
  show "sender_nonce_cmp SL a b = 0 \<longleftrightarrow> nonce a = nonce b"
    by (auto simp: sender_nonce_cmp_def skiplist_lawsD [OF assms])
  show "sender_nonce_cmp SL a b < 0 \<longleftrightarrow> nonce a < nonce b"
    using skiplist_lawsD(7) [OF assms, of "nonce a" "nonce b"]
      linear_onD(1) [OF Uint64_linear [OF assms], of "nonce a" "nonce b"]
    by (simp add: sender_nonce_cmp_def skiplist_lawsD(4) [OF assms])
qed

section \<open>The abstract state\<close>

text \<open>
  An entry: the priority and the weight of the transaction in the priority index, the priority in
  the key of its element in the sender index, and the transaction.
\<close>

record 'p entry =
  e_prio :: 'p
  e_weight :: 'p
  e_skey :: 'p
  e_tx :: tx

type_synonym 'p entries = "string \<times> nat \<rightharpoonup> 'p entry"

definition pkey :: "string \<times> nat \<Rightarrow> 'p entry \<Rightarrow> 'p txMeta" where
  "pkey i e = \<lparr>nonce = snd i, priority = e_prio e, sender = fst i, weight = e_weight e\<rparr>"

definition skey :: "'p \<Rightarrow> string \<times> nat \<Rightarrow> 'p entry \<Rightarrow> 'p txMeta" where
  "skey zero i e = \<lparr>nonce = snd i, priority = e_skey e, sender = fst i, weight = zero\<rparr>"

lemma key_simps [simp]:
  "nonce (pkey i e) = snd i" "priority (pkey i e) = e_prio e" "sender (pkey i e) = fst i" "weight (pkey i e) = e_weight e"
  "nonce (skey zero i e) = snd i" "priority (skey zero i e) = e_skey e" "sender (skey zero i e) = fst i"
  "weight (skey zero i e) = zero"
  by (simp_all add: pkey_def skey_def)

text \<open>The elements that a map stands for, and the part of the map that belongs to a sender.\<close>

definition elems_of :: "('i \<Rightarrow> 'e \<Rightarrow> 'x) \<Rightarrow> ('i \<rightharpoonup> 'e) \<Rightarrow> 'x set" where
  "elems_of f M = {x. \<exists>i e. M i = Some e \<and> x = f i e}"

definition of_sender :: "string \<Rightarrow> 'p entries \<Rightarrow> nat \<rightharpoonup> 'p entry" where
  "of_sender s M n = M (s, n)"

abbreviation pelem :: "string \<times> nat \<Rightarrow> 'p entry \<Rightarrow> 'p txMeta \<times> tx" where
  "pelem i e \<equiv> (pkey i e, e_tx e)"

abbreviation selem :: "'p \<Rightarrow> string \<Rightarrow> nat \<Rightarrow> 'p entry \<Rightarrow> 'p txMeta \<times> tx" where
  "selem zero s n e \<equiv> (skey zero (s, n) e, e_tx e)"

lemma elems_of_iff: "x \<in> elems_of f M \<longleftrightarrow> (\<exists>i e. M i = Some e \<and> x = f i e)"
  by (simp add: elems_of_def)

lemma elems_of_insert: "elems_of f (M(i \<mapsto> e)) = insert (f i e) (elems_of f (M(i := None)))"
  by (auto simp: elems_of_def)

lemma elems_of_remove:
  "(\<And>j e. M j = Some e \<Longrightarrow> Q (f j e) \<longleftrightarrow> j \<noteq> i) \<Longrightarrow> {x \<in> elems_of f M. Q x} = elems_of f (M(i := None))"
  by (auto simp: elems_of_def split: if_splits)

lemma elems_of_cong: "(\<And>i. map_option (f i) (M i) = map_option (f i) (N i)) \<Longrightarrow> elems_of f M = elems_of f N"
proof -
  have "elems_of f K = {x. \<exists>i. map_option (f i) (K i) = Some x}" for K
    by (auto simp: elems_of_def)
  then show "(\<And>i. map_option (f i) (M i) = map_option (f i) (N i)) \<Longrightarrow> ?thesis" by (simp only:)
qed

lemma image_elems_of:
  assumes "\<And>i e. g (f i e) = i"
  shows "g ` elems_of f M = dom M"
proof
  show "g ` elems_of f M \<subseteq> dom M" using assms by (auto simp: elems_of_def)
  show "dom M \<subseteq> g ` elems_of f M"
  proof
    fix i
    assume "i \<in> dom M"
    then obtain e where "f i e \<in> elems_of f M" by (auto simp: elems_of_def)
    from imageI [OF this, of g] show "i \<in> g ` elems_of f M" by (simp only: assms)
  qed
qed

lemma of_sender_upd [simp]:
  "of_sender s (M((r, n) := x)) = (if s = r then (of_sender s M)(n := x) else of_sender s M)"
  by (auto simp: of_sender_def fun_eq_iff)

text \<open>\<open>X\<close> is the set of priorities on which the comparison of the mempool is a total preorder.\<close>

definition index_repr ::
  "('s, 'p) txlists \<Rightarrow> ('s \<Rightarrow> 'p txMeta \<Rightarrow> 'p txMeta \<Rightarrow> int) \<Rightarrow> 'p set \<Rightarrow> ('p, 'b) TxPriority \<Rightarrow> 's \<Rightarrow> 'p entries
   \<Rightarrow> bool" where
  "index_repr SL cmpf X P l M \<longleftrightarrow>
     cmpf l = skiplistComparable SL P \<and> sorted_keys (skiplistComparable SL P) (sl_Elems SL l) \<and>
     set (sl_Elems SL l) = elems_of pelem M \<and>
     (\<forall>i e. M i = Some e \<longrightarrow> e_prio e \<in> X \<and> e_weight e \<in> X)"

definition sender_repr ::
  "('s, 'p) txlists \<Rightarrow> ('s \<Rightarrow> 'p txMeta \<Rightarrow> 'p txMeta \<Rightarrow> int) \<Rightarrow> 'p \<Rightarrow> string \<Rightarrow> 's \<Rightarrow> 'p entries \<Rightarrow> bool" where
  "sender_repr SL cmpf zero s l M \<longleftrightarrow>
     cmpf l = sender_nonce_cmp SL \<and> sorted_keys (sender_nonce_cmp SL) (sl_Elems SL l) \<and>
     set (sl_Elems SL l) = elems_of (selem zero s) (of_sender s M)"

definition prio_ids :: "'p entries \<Rightarrow> 'p \<Rightarrow> (string \<times> nat) set" where
  "prio_ids M p = {i. \<exists>e. M i = Some e \<and> e_prio e = p}"

definition PN_repr ::
  "('s, 'p) txlists \<Rightarrow> ('s \<Rightarrow> 'p txMeta \<Rightarrow> 'p txMeta \<Rightarrow> int) \<Rightarrow> 'p set \<Rightarrow> 'p \<Rightarrow> ('s, 'p, 'b) PriorityNonceMempool
   \<Rightarrow> 'p entries \<Rightarrow> bool" where
  "PN_repr SL cmpf X zero mp M \<longleftrightarrow>
     finite (dom M) \<and> zero \<in> X \<and> (\<forall>i e. M i = Some e \<longrightarrow> e_skey e \<in> X) \<and>
     index_repr SL cmpf X (pc_TxPriority (pn_cfg mp)) (priorityIndex mp) M \<and>
     (\<forall>p. count_of (priorityCounts mp) p = int (card (prio_ids M p))) \<and>
     (\<forall>s. case map_of (senderIndices mp) s of
            None \<Rightarrow> \<forall>n. M (s, n) = None
          | Some l \<Rightarrow> sender_repr SL cmpf zero s l M) \<and>
     scores mp = (\<lambda>i. map_option (\<lambda>e. (e_prio e, e_weight e)) (M i))"

text \<open>The map that a mempool stands for, read from the scores and the sender indices.\<close>

definition entries :: "('s, 'p) txlists \<Rightarrow> ('s, 'p, 'b) PriorityNonceMempool \<Rightarrow> 'p entries" where
  "entries SL mp i =
     (case (scores mp i, map_of (senderIndices mp) (fst i)) of
        (Some (p, w), Some l) \<Rightarrow>
          (case List.find (\<lambda>(k, _). nonce k = snd i) (sl_Elems SL l) of
             None \<Rightarrow> None
           | Some (k, t) \<Rightarrow> Some \<lparr>e_prio = p, e_weight = w, e_skey = priority k, e_tx = t\<rparr>)
      | _ \<Rightarrow> None)"

definition PN_wf ::
  "('s, 'p) txlists \<Rightarrow> ('s \<Rightarrow> 'p txMeta \<Rightarrow> 'p txMeta \<Rightarrow> int) \<Rightarrow> 'p set \<Rightarrow> 'p \<Rightarrow> ('s, 'p, 'b) PriorityNonceMempool \<Rightarrow> bool" where
  "PN_wf SL cmpf X zero mp \<longleftrightarrow> PN_repr SL cmpf X zero mp (entries SL mp)"

lemma find_nonce:
  assumes "set es = elems_of (selem zero s) m"
  shows "List.find (\<lambda>(k, _). nonce k = n) es = map_option (selem zero s n) (m n)"
proof (cases "m n")
  case None
  then have "\<forall>x \<in> set es. nonce (fst x) \<noteq> n" by (auto simp: assms elems_of_iff)
  then show ?thesis using None by (auto simp: find_None_iff)
next
  case (Some e)
  then have "selem zero s n e \<in> set es" by (auto simp: assms elems_of_iff)
  then have "List.find (\<lambda>(k, _). nonce k = n) es \<noteq> None" unfolding find_None_iff by fastforce
  then obtain x where x: "List.find (\<lambda>(k, _). nonce k = n) es = Some x" by blast
  then have "x \<in> elems_of (selem zero s) m \<and> nonce (fst x) = n" using find_SomeD [OF x] assms by auto
  then show ?thesis using x Some by (auto simp: elems_of_iff)
qed

lemma PN_repr_entries:
  assumes "PN_repr SL cmpf X zero mp M"
  shows "entries SL mp = M"
proof
  fix i :: "string \<times> nat"
  obtain s n where i: "i = (s, n)" by fastforce
  have sc: "scores mp i = map_option (\<lambda>e. (e_prio e, e_weight e)) (M i)"
    using assms by (simp add: PN_repr_def)
  have sr: "case map_of (senderIndices mp) s of None \<Rightarrow> \<forall>n. M (s, n) = None | Some l \<Rightarrow> sender_repr SL cmpf zero s l M"
    using assms by (simp add: PN_repr_def)
  show "entries SL mp i = M i"
  proof (cases "map_of (senderIndices mp) s")
    case None
    then show ?thesis using sr sc i by (auto simp: entries_def split: option.splits)
  next
    case (Some l)
    then have "List.find (\<lambda>(k, _). nonce k = n) (sl_Elems SL l) = map_option (selem zero s n) (of_sender s M n)"
      using sr by (intro find_nonce) (simp add: sender_repr_def)
    then show ?thesis using sc i Some by (cases "M i") (auto simp: entries_def of_sender_def)
  qed
qed

lemma PN_wf_iff: "PN_wf SL cmpf X zero mp \<longleftrightarrow> (\<exists>M. PN_repr SL cmpf X zero mp M)"
  using PN_repr_entries by (fastforce simp: PN_wf_def)

section \<open>Insertion and removal in the lists\<close>

lemma index_reprD:
  assumes "index_repr SL cmpf X P l M"
  shows "cmpf l = skiplistComparable SL P" "sorted_keys (skiplistComparable SL P) (sl_Elems SL l)"
    "set (sl_Elems SL l) = elems_of pelem M" "M i = Some e \<Longrightarrow> e_prio e \<in> X" "M i = Some e \<Longrightarrow> e_weight e \<in> X"
    "fst ` set (sl_Elems SL l) \<subseteq> {k. priority k \<in> X \<and> weight k \<in> X}"
proof -
  show "M i = Some e \<Longrightarrow> e_prio e \<in> X" "M i = Some e \<Longrightarrow> e_weight e \<in> X"
    using assms unfolding index_repr_def by blast+
qed (use assms in \<open>auto simp: index_repr_def elems_of_iff\<close>)

lemma sender_reprD:
  assumes "sender_repr SL cmpf zero s l M"
  shows "cmpf l = sender_nonce_cmp SL" "sorted_keys (sender_nonce_cmp SL) (sl_Elems SL l)"
    "set (sl_Elems SL l) = elems_of (selem zero s) (of_sender s M)"
  using assms by (simp_all add: sender_repr_def)

lemma map_upd_fresh: "M i = None \<Longrightarrow> M(i := None) = M"
  by auto

lemma index_Set:
  assumes laws: "skiplist_laws SL cmpf" and lin: "linear_on X (ComparePriority P)"
    and r: "index_repr SL cmpf X P l M" and i: "M i = None" and e: "e_prio e \<in> X" "e_weight e \<in> X"
  shows "index_repr SL cmpf X P (sl_Set SL l (pkey i e) (e_tx e)) (M(i \<mapsto> e))"
proof -
  note c = skiplistComparable_linear [OF laws lin] and r' = index_reprD [OF r]
  have "\<forall>x \<in> set (sl_Elems SL l). skiplistComparable SL P (pkey i e) (fst x) \<noteq> 0"
    using i by (auto simp: r'(3) elems_of_iff skiplistComparable_eq0 [OF laws] prod_eq_iff)
  then have "set (set_key (skiplistComparable SL P) (pkey i e) (e_tx e) (sl_Elems SL l)) = elems_of pelem (M(i \<mapsto> e))"
    unfolding elems_of_insert map_upd_fresh [of M, OF i] r'(3) [symmetric] by (rule set_key_fresh)
  moreover have k: "pkey i e \<in> {k. priority k \<in> X \<and> weight k \<in> X}" using e by simp
  have "cmpf (sl_Set SL l (pkey i e) (e_tx e)) = skiplistComparable SL P"
    "sl_Elems SL (sl_Set SL l (pkey i e) (e_tx e)) = set_key (skiplistComparable SL P) (pkey i e) (e_tx e) (sl_Elems SL l)"
    using skiplist_ops(1,2) [OF laws _ k r'(6)] c r'(1,2) by simp_all
  ultimately show ?thesis
    using set_key_sorted [OF c k r'(6,2)] r'(4,5) e by (simp add: index_repr_def)
qed

lemma index_Remove:
  assumes laws: "skiplist_laws SL cmpf" and lin: "linear_on X (ComparePriority P)"
    and r: "index_repr SL cmpf X P l M" and i: "M i = Some e"
  shows "index_repr SL cmpf X P (sl_Remove SL l (pkey i e)) (M(i := None))"
proof -
  note c = skiplistComparable_linear [OF laws lin] and r' = index_reprD [OF r]
  have "skiplistComparable SL P (pkey i e) (pkey j f) \<noteq> 0 \<longleftrightarrow> j \<noteq> i" if "M j = Some f" for j f
  proof (cases "j = i")
    case True
    then show ?thesis using that i linear_on_refl [OF c] r'(4,5) by simp
  qed (auto simp: skiplistComparable_eq0 [OF laws] prod_eq_iff)
  then have "set (remove_key (skiplistComparable SL P) (pkey i e) (sl_Elems SL l)) = elems_of pelem (M(i := None))"
    unfolding set_remove_key r'(3) by (intro elems_of_remove) simp
  moreover have k: "pkey i e \<in> {k. priority k \<in> X \<and> weight k \<in> X}" using r'(4,5) i by simp
  have "cmpf (sl_Remove SL l (pkey i e)) = skiplistComparable SL P"
    "sl_Elems SL (sl_Remove SL l (pkey i e)) = remove_key (skiplistComparable SL P) (pkey i e) (sl_Elems SL l)"
    using skiplist_ops(3,4) [OF laws _ k r'(6)] c r'(1,2) by simp_all
  ultimately show ?thesis
    using remove_key_sorted [OF r'(2)] r'(4,5) by (simp add: index_repr_def)
qed

lemma sender_Set:
  assumes laws: "skiplist_laws SL cmpf" and r: "sender_repr SL cmpf zero s l M"
  shows "sender_repr SL cmpf zero s (sl_Set SL l \<lparr>nonce = n, priority = p, sender = s, weight = zero\<rparr> t)
     (M((s, n) \<mapsto> \<lparr>e_prio = p', e_weight = w, e_skey = (case M (s, n) of None \<Rightarrow> p | Some e \<Rightarrow> e_skey e), e_tx = t\<rparr>))"
    (is "sender_repr SL cmpf zero s (sl_Set SL l ?k t) (M((s, n) \<mapsto> ?e))")
proof -
  note c = sender_nonce_cmp_simps [OF laws] and r' = sender_reprD [OF r]
  let ?m = "of_sender s M"
  have "set (set_key (sender_nonce_cmp SL) ?k t (sl_Elems SL l)) = insert (selem zero s n ?e) (elems_of (selem zero s) (?m(n := None)))"
  proof (cases "?m n")
    case None
    then have "set (set_key (sender_nonce_cmp SL) ?k t (sl_Elems SL l)) = insert (?k, t) (set (sl_Elems SL l))"
      by (intro set_key_fresh) (auto simp: r'(3) c elems_of_iff)
    then show ?thesis using None by (simp add: r'(3) skey_def map_upd_fresh) (simp add: of_sender_def)
  next
    case (Some e)
    then have "set (set_key (sender_nonce_cmp SL) ?k t (sl_Elems SL l)) =
        insert (skey zero (s, n) e, t) (set (sl_Elems SL l) - {selem zero s n e})"
      by (intro set_key_old [OF c(3) _ _ r'(2)]) (auto simp: r'(3) c elems_of_iff)
    moreover have "set (sl_Elems SL l) - {selem zero s n e} = {x \<in> elems_of (selem zero s) ?m. x \<noteq> selem zero s n e}"
      unfolding r'(3) by auto
    moreover have "\<dots> = elems_of (selem zero s) (?m(n := None))"
      using Some by (intro elems_of_remove) (auto simp: skey_def)
    ultimately show ?thesis using Some by (simp add: skey_def) (simp add: of_sender_def)
  qed
  then show ?thesis
    using set_key_sorted [OF c(3) _ _ r'(2)] skiplist_ops(1,2) [OF laws, where K = UNIV and s = l] c(3) r'(1,2)
    by (simp add: sender_repr_def elems_of_insert)
qed

lemma sender_Remove:
  assumes laws: "skiplist_laws SL cmpf" and r: "sender_repr SL cmpf zero s l M" and k: "nonce k = n"
  shows "sender_repr SL cmpf zero s (sl_Remove SL l k) (M((s, n) := None))"
proof -
  note c = sender_nonce_cmp_simps [OF laws] and r' = sender_reprD [OF r]
  have "set (remove_key (sender_nonce_cmp SL) k (sl_Elems SL l)) = elems_of (selem zero s) ((of_sender s M)(n := None))"
    unfolding set_remove_key r'(3) using k by (intro elems_of_remove) (auto simp: c)
  then show ?thesis
    using remove_key_sorted [OF r'(2)] skiplist_ops(3,4) [OF laws, where K = UNIV and s = l] c(3) r'(1,2)
    by (simp add: sender_repr_def)
qed

lemma sender_New:
  "skiplist_laws SL cmpf \<Longrightarrow> \<forall>n. M (s, n) = None \<Longrightarrow> sender_repr SL cmpf zero s (sl_New SL (sender_nonce_cmp SL)) M"
  by (simp add: sender_repr_def skiplist_lawsD elems_of_def of_sender_def)

text \<open>An index depends only on the entries of its sender, and not on their weights.\<close>

lemma sender_repr_cong:
  assumes "\<And>n. map_option (\<lambda>e. (e_skey e, e_tx e)) (M (s, n)) = map_option (\<lambda>e. (e_skey e, e_tx e)) (N (s, n))"
  shows "sender_repr SL cmpf zero s l M \<longleftrightarrow> sender_repr SL cmpf zero s l N"
proof -
  have "map_option (selem zero s n) (K (s, n)) = map_option (\<lambda>(q, t). (\<lparr>nonce = n, priority = q, sender = s, weight = zero\<rparr>, t))
      (map_option (\<lambda>e. (e_skey e, e_tx e)) (K (s, n)))" for n and K
    by (cases "K (s, n)") (simp_all add: skey_def)
  then have "elems_of (selem zero s) (of_sender s M) = elems_of (selem zero s) (of_sender s N)"
    by (intro elems_of_cong) (simp add: of_sender_def assms)
  then show ?thesis by (simp add: sender_repr_def)
qed

lemma add_count_simps: "count_of (add_count p d cs) q = (if p = q then count_of cs q + d else count_of cs q)"
  by (auto simp: count_of_def add_count_def update_conv')

lemma prio_ids_insert:
  "M i = None \<Longrightarrow> prio_ids (M(i \<mapsto> e)) p = (if e_prio e = p then insert i (prio_ids M p) else prio_ids M p)"
  by (auto simp: prio_ids_def split: if_splits)

lemma prio_ids_remove:
  "M i = Some e \<Longrightarrow> prio_ids (M(i := None)) p = (if e_prio e = p then prio_ids M p - {i} else prio_ids M p)"
  by (auto simp: prio_ids_def split: if_splits)

lemma prio_ids_simps: "prio_ids M p \<subseteq> dom M" "i \<in> prio_ids M p \<longleftrightarrow> (\<exists>e. M i = Some e \<and> e_prio e = p)"
  by (auto simp: prio_ids_def)

section \<open>The operations on the abstract state\<close>

text \<open>
  Insertion: a transaction of a known sender and nonce takes the place of the old one, if the
  replacement rule allows that.
\<close>

definition spec_entry :: "'p \<Rightarrow> 'p entries \<Rightarrow> string \<times> nat \<Rightarrow> 'p \<Rightarrow> tx \<Rightarrow> 'p entry" where
  "spec_entry zero M i p t =
     \<lparr>e_prio = p, e_weight = zero, e_skey = (case M i of None \<Rightarrow> p | Some e \<Rightarrow> e_skey e), e_tx = t\<rparr>"

definition replaceable ::
  "('p, 'b) PriorityNonceMempoolConfig \<Rightarrow> 'p entries \<Rightarrow> string \<times> nat \<Rightarrow> 'p \<Rightarrow> tx \<Rightarrow> bool" where
  "replaceable c M i p t =
     (case (M i, TxReplacement c) of
        (Some e, Some rule) \<Rightarrow> rule (e_prio e) p (e_tx e) t
      | _ \<Rightarrow> True)"

definition spec_Insert ::
  "('p, 'b) PriorityNonceMempoolConfig \<Rightarrow> addr_ops \<Rightarrow> 'p \<Rightarrow> 'p entries \<Rightarrow> 'b Context \<Rightarrow> tx
   \<Rightarrow> 'p entries \<times> unit outcome" where
  "spec_Insert c A zero M ctx t =
     (if pc_MaxTx c > 0 \<and> int (card (dom M)) \<ge> pc_MaxTx c then (M, Err ErrMempoolTxMaxCapacity)
      else if pc_MaxTx c < 0 then (M, Ok ())
      else
        (case obind (first_signature A ''tx must have at least one signer'' t) (\<lambda>i.
              obind (GetTxPriority (pc_TxPriority c) ctx t) (\<lambda>p. Ok (i, p))) of
           Err e \<Rightarrow> (M, Err e)
         | Panic s \<Rightarrow> (M, Panic s)
         | Ok (i, p) \<Rightarrow>
             if replaceable c M i p t then (M(i \<mapsto> spec_entry zero M i p t), Ok ())
             else (M, Err (ErrMsg ''tx doesn't fit the replacement rule''))))"

definition spec_Remove :: "addr_ops \<Rightarrow> 'p entries \<Rightarrow> tx \<Rightarrow> 'p entries \<times> unit outcome" where
  "spec_Remove A M t =
     (case first_signature A ''attempted to remove a tx with no signatures'' t of
        Err e \<Rightarrow> (M, Err e)
      | Panic s \<Rightarrow> (M, Panic s)
      | Ok i \<Rightarrow> if M i = None then (M, Err ErrTxNotFound) else (M(i := None), Ok ()))"

lemma PN_reprD:
  assumes "PN_repr SL cmpf X zero mp M"
  shows "finite (dom M)" "index_repr SL cmpf X (pc_TxPriority (pn_cfg mp)) (priorityIndex mp) M"
    "count_of (priorityCounts mp) p = int (card (prio_ids M p))"
    "map_of (senderIndices mp) s = None \<Longrightarrow> M (s, n) = None"
    "map_of (senderIndices mp) s = Some l \<Longrightarrow> sender_repr SL cmpf zero s l M"
    "scores mp i = map_option (\<lambda>e. (e_prio e, e_weight e)) (M i)"
    "zero \<in> X" "M i = Some e \<Longrightarrow> e_skey e \<in> X"
proof -
  show "M i = Some e \<Longrightarrow> e_skey e \<in> X" using assms unfolding PN_repr_def by blast
  have "case map_of (senderIndices mp) s of None \<Rightarrow> \<forall>n. M (s, n) = None | Some l \<Rightarrow> sender_repr SL cmpf zero s l M"
    using assms by (simp add: PN_repr_def)
  then show "map_of (senderIndices mp) s = None \<Longrightarrow> M (s, n) = None"
    "map_of (senderIndices mp) s = Some l \<Longrightarrow> sender_repr SL cmpf zero s l M" by simp_all
qed (use assms in \<open>auto simp: PN_repr_def split: option.splits\<close>)

lemma PN_reprI:
  assumes "finite (dom M)" "index_repr SL cmpf X (pc_TxPriority (pn_cfg mp)) (priorityIndex mp) M"
    "\<And>p. count_of (priorityCounts mp) p = int (card (prio_ids M p))"
    "\<And>s n. map_of (senderIndices mp) s = None \<Longrightarrow> M (s, n) = None"
    "\<And>s l. map_of (senderIndices mp) s = Some l \<Longrightarrow> sender_repr SL cmpf zero s l M"
    "\<And>i. scores mp i = map_option (\<lambda>e. (e_prio e, e_weight e)) (M i)"
    "zero \<in> X" "\<And>i e. M i = Some e \<Longrightarrow> e_skey e \<in> X"
  shows "PN_repr SL cmpf X zero mp M"
  unfolding PN_repr_def using assms(1-7) by (auto split: option.splits intro: assms(8))

lemma pelem_inj: "inj_on (\<lambda>i. pelem i (the (M i))) (dom M)"
  by (rule inj_onI) (simp add: pkey_def prod_eq_iff)

lemma index_length:
  assumes laws: "skiplist_laws SL cmpf" and lin: "linear_on X (ComparePriority P)" and r: "index_repr SL cmpf X P l M"
  shows "length (sl_Elems SL l) = card (dom M)"
proof -
  note r' = index_reprD [OF r]
  have "distinct (sl_Elems SL l)"
    using sorted_keys_distinct [OF skiplistComparable_linear [OF laws lin] r'(6,2)] distinct_map by blast
  then have "length (sl_Elems SL l) = card (elems_of pelem M)" by (simp add: distinct_card r'(3) [symmetric])
  moreover have "elems_of pelem M = (\<lambda>i. pelem i (the (M i))) ` dom M"
    by (auto simp: elems_of_iff image_iff) (metis domI option.sel)+
  ultimately show ?thesis using card_image [OF pelem_inj, of M] by simp
qed

lemma PN_CountTx_repr:
  "skiplist_laws SL cmpf \<Longrightarrow> linear_on X (ComparePriority (pc_TxPriority (pn_cfg mp))) \<Longrightarrow>
   PN_repr SL cmpf X zero mp M \<Longrightarrow> PN_CountTx SL mp = int (card (dom M))"
  by (simp add: PN_CountTx_def skiplist_lawsD index_length [OF _ _ PN_reprD(2)])

lemma PN_New_repr: "skiplist_laws SL cmpf \<Longrightarrow> zero \<in> X \<Longrightarrow> PN_repr SL cmpf X zero (NewPriorityMempool SL c) Map.empty"
  by (simp add: PN_repr_def NewPriorityMempool_def index_repr_def skiplist_lawsD elems_of_def count_of_def prio_ids_def)

text \<open>A new index for a sender without one changes nothing.\<close>

lemma PN_repr_sender_index:
  assumes laws: "skiplist_laws SL cmpf" and r: "PN_repr SL cmpf X zero mp M"
    and l: "l = (case map_of (senderIndices mp) s of Some l \<Rightarrow> l | None \<Rightarrow> sl_New SL (sender_nonce_cmp SL))"
  shows "sender_repr SL cmpf zero s l M"
    "PN_repr SL cmpf X zero (mp\<lparr>senderIndices := AList.update s l (senderIndices mp)\<rparr>) M"
proof -
  note R = PN_reprD [OF r]
  show *: "sender_repr SL cmpf zero s l M"
    unfolding l using R(4,5) sender_New [OF laws] by (auto split: option.splits)
  show "PN_repr SL cmpf X zero (mp\<lparr>senderIndices := AList.update s l (senderIndices mp)\<rparr>) M"
    by (rule PN_reprI) (use R * in \<open>auto simp: update_conv' split: if_splits\<close>)
qed

text \<open>
  The mempool while an entry is replaced: the entry is gone from the priority index and from the
  counts, and still in the sender index and in the scores.
\<close>

definition without_entry ::
  "('s, 'p) txlists \<Rightarrow> ('s \<Rightarrow> 'p txMeta \<Rightarrow> 'p txMeta \<Rightarrow> int) \<Rightarrow> 'p set \<Rightarrow> ('s, 'p, 'b) PriorityNonceMempool
   \<Rightarrow> 'p entries \<Rightarrow> string \<times> nat \<Rightarrow> ('s, 'p, 'b) PriorityNonceMempool \<Rightarrow> bool" where
  "without_entry SL cmpf X mp M i mp2 \<longleftrightarrow>
     pn_cfg mp2 = pn_cfg mp \<and> senderIndices mp2 = senderIndices mp \<and> scores mp2 = scores mp \<and>
     index_repr SL cmpf X (pc_TxPriority (pn_cfg mp)) (priorityIndex mp2) (M(i := None)) \<and>
     (\<forall>p. count_of (priorityCounts mp2) p = int (card (prio_ids (M(i := None)) p)))"

lemma prio_ids_finite: "finite (dom M) \<Longrightarrow> finite (prio_ids M p)"
  using prio_ids_simps(1) finite_subset by metis

lemma card_prio_ids_remove:
  assumes "finite (dom M)" "M i = Some e"
  shows "int (card (prio_ids (M(i := None)) p)) = int (card (prio_ids M p)) - (if e_prio e = p then 1 else 0)"
proof -
  have "i \<in> prio_ids M (e_prio e)" using assms(2) by (simp add: prio_ids_simps)
  then have "card (prio_ids M (e_prio e)) = Suc (card (prio_ids M (e_prio e) - {i}))"
    using card.remove [OF prio_ids_finite [OF assms(1)]] by blast
  then show ?thesis by (auto simp: prio_ids_remove [of M i e, OF assms(2)])
qed

lemma card_prio_ids_insert:
  assumes "finite (dom M)"
  shows "int (card (prio_ids (M(i \<mapsto> e)) p)) = int (card (prio_ids (M(i := None)) p)) + (if e_prio e = p then 1 else 0)"
proof -
  have "i \<notin> prio_ids (M(i := None)) q" "finite (prio_ids (M(i := None)) q)" for q
    using assms by (simp_all add: prio_ids_simps prio_ids_finite)
  then show ?thesis using prio_ids_insert [of "M(i := None)" i e p] by simp
qed

lemma replace_old_repr:
  assumes laws: "skiplist_laws SL cmpf" and lin: "linear_on X (ComparePriority (pc_TxPriority (pn_cfg mp)))"
    and r: "PN_repr SL cmpf X zero mp M" and l: "sender_repr SL cmpf zero s l M"
    and k: "k = \<lparr>nonce = n, priority = p, sender = s, weight = zero\<rparr>"
  shows "if replaceable (pn_cfg mp) M (s, n) p t
     then \<exists>mp2. replace_old SL l k t mp = Ok mp2 \<and> without_entry SL cmpf X mp M (s, n) mp2
     else replace_old SL l k t mp = Err (ErrMsg ''tx doesn't fit the replacement rule'')"
proof (cases "M (s, n)")
  case None
  then show ?thesis using PN_reprD [OF r] k
    by (auto simp: replaceable_def replace_old_def without_entry_def map_upd_fresh)
next
  case (Some e)
  note R = PN_reprD [OF r] and c = sender_nonce_cmp_simps [OF laws] and l' = sender_reprD [OF l]
  have "\<exists>k'. sl_Get SL l k = Some (k', e_tx e)"
  proof -
    have g: "sl_Get SL l k = find_key (sender_nonce_cmp SL) k (sl_Elems SL l)"
      using skiplist_ops(5) [OF laws, where K = UNIV and s = l and k = k] c(3) l' by simp
    have m: "selem zero s n e \<in> set (sl_Elems SL l)" using Some by (auto simp: l'(3) elems_of_iff of_sender_def)
    then have "sl_Get SL l k \<noteq> None" unfolding g find_key_None using k c(2) [of k "skey zero (s, n) e"] by force
    then obtain x where x: "find_key (sender_nonce_cmp SL) k (sl_Elems SL l) = Some x" using g by auto
    then have "x \<in> elems_of (selem zero s) (of_sender s M)" "nonce (fst x) = n"
      using find_key_Some [OF x] k c(2) l'(3) by auto
    then show ?thesis using x g Some by (auto simp: elems_of_iff of_sender_def)
  qed
  then obtain k' where k': "sl_Get SL l k = Some (k', e_tx e)" by blast
  let ?mp2 = "mp\<lparr>priorityIndex := sl_Remove SL (priorityIndex mp) (pkey (s, n) e),
      priorityCounts := add_count (e_prio e) (- 1) (priorityCounts mp)\<rparr>"
  have "k\<lparr>priority := e_prio e, weight := e_weight e\<rparr> = pkey (s, n) e" using k by (simp add: pkey_def)
  then have "replace_old SL l k t mp =
      (if replaceable (pn_cfg mp) M (s, n) p t then Ok ?mp2 else Err (ErrMsg ''tx doesn't fit the replacement rule''))"
    using Some k k' R(6) [of "(s, n)"] by (auto simp: replace_old_def replaceable_def pkey_def split: option.splits)
  moreover have "without_entry SL cmpf X mp M (s, n) ?mp2"
    using index_Remove [OF laws lin R(2) Some] R(3) card_prio_ids_remove [OF R(1) Some]
    by (simp add: without_entry_def add_count_simps)
  ultimately show ?thesis by simp
qed

lemma store_repr:
  assumes laws: "skiplist_laws SL cmpf" and lin: "linear_on X (ComparePriority (pc_TxPriority (pn_cfg mp)))"
    and r: "PN_repr SL cmpf X zero mp M" and l: "sender_repr SL cmpf zero s l M"
    and k: "k = \<lparr>nonce = n, priority = p, sender = s, weight = zero\<rparr>"
    and w: "without_entry SL cmpf X mp M (s, n) mp2" and p: "p \<in> X"
  shows "PN_repr SL cmpf X zero
      (mp2\<lparr>priorityCounts := add_count p 1 (priorityCounts mp2),
           senderIndices := AList.update s (sl_Set SL l k t) (senderIndices mp2),
           scores := (scores mp2)((s, n) \<mapsto> (p, zero)),
           priorityIndex := sl_Set SL (priorityIndex mp2) k t\<rparr>)
      (M((s, n) \<mapsto> spec_entry zero M (s, n) p t))" (is "PN_repr SL cmpf X zero ?mp (M((s, n) \<mapsto> ?e))")
proof -
  note R = PN_reprD [OF r]
  have w': "pn_cfg mp2 = pn_cfg mp" "senderIndices mp2 = senderIndices mp" "scores mp2 = scores mp"
    "index_repr SL cmpf X (pc_TxPriority (pn_cfg mp)) (priorityIndex mp2) (M((s, n) := None))"
    "\<And>p. count_of (priorityCounts mp2) p = int (card (prio_ids (M((s, n) := None)) p))"
    using w by (simp_all add: without_entry_def)
  have k': "k = pkey (s, n) ?e" "t = e_tx ?e" "e_prio ?e = p" "e_weight ?e = zero"
    using k by (simp_all add: pkey_def spec_entry_def)
  show ?thesis
  proof (rule PN_reprI)
    show "index_repr SL cmpf X (pc_TxPriority (pn_cfg ?mp)) (priorityIndex ?mp) (M((s, n) \<mapsto> ?e))"
      using index_Set [OF laws lin w'(4), of "(s, n)" ?e] k' w'(1) p R(7) by simp
    show "count_of (priorityCounts ?mp) q = int (card (prio_ids (M((s, n) \<mapsto> ?e)) q))" for q
      using card_prio_ids_insert [OF R(1), of "(s, n)" ?e q] w'(5) k'(3) by (simp add: add_count_simps)
    show "(M((s, n) \<mapsto> ?e)) (s', m) = None" if "map_of (senderIndices ?mp) s' = None" for s' m
      using that R(4) [of s' m] w'(2) by (auto simp: update_conv' split: if_splits)
    show "sender_repr SL cmpf zero s' l' (M((s, n) \<mapsto> ?e))" if "map_of (senderIndices ?mp) s' = Some l'" for s' l'
    proof (cases "s' = s")
      case True
      then show ?thesis using that sender_Set [OF laws l, of n p t p zero] k by (simp add: update_conv' spec_entry_def)
    next
      case False
      then have "sender_repr SL cmpf zero s' l' M" using that R(5) w'(2) by (simp add: update_conv')
      then show ?thesis using False by (simp add: sender_repr_def)
    qed
    show "scores ?mp i = map_option (\<lambda>e. (e_prio e, e_weight e)) ((M((s, n) \<mapsto> ?e)) i)" for i
      using R(6) w'(3) k' by simp
    show "e_skey e \<in> X" if "(M((s, n) \<mapsto> ?e)) i = Some e" for i e
      using that R(8) p by (auto simp: spec_entry_def split: if_splits option.splits)
  qed (use R(1,7) in simp_all)
qed

section \<open>Refinement of insertion and removal\<close>

lemma PN_Insert_repr:
  assumes laws: "skiplist_laws SL cmpf" and lin: "linear_on X (ComparePriority (pc_TxPriority (pn_cfg mp)))"
    and r: "PN_repr SL cmpf X zero mp M" and i: "PN_Insert SL A zero mp ctx t = (mp', res)"
    and fits: "\<And>p. GetTxPriority (pc_TxPriority (pn_cfg mp)) ctx t = Ok p \<Longrightarrow> p \<in> X"
  shows "\<exists>M'. spec_Insert (pn_cfg mp) A zero M ctx t = (M', res) \<and> PN_repr SL cmpf X zero mp' M' \<and> pn_cfg mp' = pn_cfg mp"
proof -
  let ?sig = "first_signature A ''tx must have at least one signer'' t"
  let ?prio = "GetTxPriority (pc_TxPriority (pn_cfg mp)) ctx t"
  note cnt = PN_CountTx_repr [OF laws lin r]
  show ?thesis
  proof (cases "(pc_MaxTx (pn_cfg mp) > 0 \<and> PN_CountTx SL mp \<ge> pc_MaxTx (pn_cfg mp)) \<or> pc_MaxTx (pn_cfg mp) < 0 \<or>
      \<not> is_Ok ?sig \<or> \<not> is_Ok ?prio")
    case True
    then show ?thesis using i r cnt
      by (cases ?sig; cases ?prio) (auto simp: PN_Insert_def spec_Insert_def split: if_splits prod.splits)
  next
    case False
    then obtain s n p where ok: "?sig = Ok (s, n)" "?prio = Ok p" by (auto simp: is_Ok_iff)
    define k where "k = \<lparr>nonce = n, priority = p, sender = s, weight = zero\<rparr>"
    define l where "l = (case map_of (senderIndices mp) s of Some l \<Rightarrow> l | None \<Rightarrow> sl_New SL (sender_nonce_cmp SL))"
    define mp1 where "mp1 = mp\<lparr>senderIndices := AList.update s l (senderIndices mp)\<rparr>"
    have mp1: "pn_cfg mp1 = pn_cfg mp" "PN_repr SL cmpf X zero mp1 M" and l: "sender_repr SL cmpf zero s l M"
      using PN_repr_sender_index [OF laws r l_def] by (simp_all add: mp1_def)
    note old = replace_old_repr [OF laws _ mp1(2) l k_def, unfolded mp1(1), OF lin, of t]
    show ?thesis
    proof (cases "replaceable (pn_cfg mp) M (s, n) p t")
      case True
      then obtain mp2 where mp2: "replace_old SL l k t mp1 = Ok mp2" "without_entry SL cmpf X mp1 M (s, n) mp2"
        using old by auto
      then have "pn_cfg mp2 = pn_cfg mp" using mp1 by (simp add: without_entry_def)
      moreover have "res = Ok () \<and> mp' = mp2\<lparr>priorityCounts := add_count p 1 (priorityCounts mp2),
          senderIndices := AList.update s (sl_Set SL l k t) (senderIndices mp2),
          scores := (scores mp2)((s, n) \<mapsto> (p, zero)), priorityIndex := sl_Set SL (priorityIndex mp2) k t\<rparr>"
        using False i ok mp2(1) by (auto simp: PN_Insert_def Let_def k_def l_def mp1_def split: if_splits)
      ultimately show ?thesis
        using False ok True cnt store_repr [OF laws _ mp1(2) l k_def mp2(2), unfolded mp1(1), OF lin fits [OF ok(2)], of t]
        by (simp add: spec_Insert_def)
    next
      case repl: False
      then have "replace_old SL l k t mp1 = Err (ErrMsg ''tx doesn't fit the replacement rule'')" using old by simp
      then have "mp' = mp1 \<and> res = Err (ErrMsg ''tx doesn't fit the replacement rule'')"
        using False i ok by (auto simp: PN_Insert_def Let_def k_def l_def mp1_def split: if_splits)
      then show ?thesis using False ok repl mp1 cnt by (simp add: spec_Insert_def)
    qed
  qed
qed

lemma PN_Remove_repr:
  assumes laws: "skiplist_laws SL cmpf" and lin: "linear_on X (ComparePriority (pc_TxPriority (pn_cfg mp)))"
    and r: "PN_repr SL cmpf X zero mp M" and i: "PN_Remove SL A mp t = (mp', res)"
  shows "\<exists>M'. spec_Remove A M t = (M', res) \<and> PN_repr SL cmpf X zero mp' M' \<and> pn_cfg mp' = pn_cfg mp"
proof (cases "first_signature A ''attempted to remove a tx with no signatures'' t")
  case sig: (Ok id)
  obtain s n where id: "id = (s, n)" by fastforce
  note R = PN_reprD [OF r]
  show ?thesis
  proof (cases "M (s, n)")
    case None
    then show ?thesis using i r R(6) [of "(s, n)"] sig id by (auto simp: PN_Remove_def spec_Remove_def)
  next
    case (Some e)
    then obtain l where l: "map_of (senderIndices mp) s = Some l" using R(4) [of s n] by fastforce
    have k: "pkey (s, n) e = \<lparr>nonce = n, priority = e_prio e, sender = s, weight = e_weight e\<rparr>" by (simp add: pkey_def)
    have "PN_repr SL cmpf X zero mp' (M((s, n) := None)) \<and> pn_cfg mp' = pn_cfg mp \<and> res = Ok ()"
    proof (intro conjI PN_reprI)
      show "sender_repr SL cmpf zero s' l' (M((s, n) := None))" if "map_of (senderIndices mp') s' = Some l'" for s' l'
      proof (cases "s' = s")
        case True
        then show ?thesis using that i sig id Some l R(6) [of "(s, n)"] sender_Remove [OF laws R(5) [OF l], of "pkey (s, n) e"]
          by (auto simp: PN_Remove_def Let_def k update_conv')
      next
        case False
        then have "map_of (senderIndices mp) s' = Some l'" using that i sig id Some l R(6) [of "(s, n)"]
          by (auto simp: PN_Remove_def Let_def update_conv')
        then show ?thesis using R(5) False by (simp add: sender_repr_def)
      qed
    qed (use i sig id Some l R R(6) [of "(s, n)"] index_Remove [OF laws lin R(2) Some, unfolded k] card_prio_ids_remove [OF R(1) Some] in
        \<open>auto simp: PN_Remove_def Let_def add_count_simps update_conv' split: if_splits\<close>)
    then show ?thesis using sig id Some by (simp add: spec_Remove_def)
  qed
qed (use i r in \<open>auto simp: PN_Remove_def spec_Remove_def\<close>)

end
