(* ===== verification/Priority_Nonce_Select.thy ===== *)
theory Priority_Nonce_Select
  imports Priority_Nonce_Correct
begin

text \<open>
  Selection from the priority nonce mempool: the reordering of ties keeps the transactions, and
  the iterator yields every transaction once, those of a sender by rising nonce.
\<close>

section \<open>Weights\<close>

text \<open>The weight of a transaction is the priority of one of the transactions of its sender.\<close>

lemma weight_loop_in: "weight_loop P w es \<in> insert w ((\<lambda>x. priority (fst x)) ` set es)"
proof (induction P w es rule: weight_loop.induct)
  case (2 P w key t rest)
  then show ?case by (cases "ComparePriority P (priority key) w = 0") auto
qed simp

lemma senderWeight_in: "cursor \<noteq> [] \<Longrightarrow> senderWeight P cursor \<in> (\<lambda>x. priority (fst x)) ` set cursor"
  using weight_loop_in [of P "priority (fst (hd cursor))" "tl cursor"]
  by (cases cursor) (simp_all add: senderWeight_def case_prod_beta')

text \<open>What a reordering does not change.\<close>

definition content :: "'p entries \<Rightarrow> string \<times> nat \<rightharpoonup> 'p \<times> 'p \<times> tx" where
  "content M i = map_option (\<lambda>e. (e_prio e, e_skey e, e_tx e)) (M i)"

lemma content_eqD:
  assumes "content M' = content M"
  shows "dom M' = dom M" "M' i = None \<longleftrightarrow> M i = None"
    "M i = Some e \<Longrightarrow> \<exists>w. M' i = Some (e\<lparr>e_weight := w\<rparr>)"
proof -
  have *: "content M' i = content M i" for i by (simp add: assms)
  show "M' i = None \<longleftrightarrow> M i = None" for i using * [of i] by (auto simp: content_def)
  then show "dom M' = dom M" by (auto simp: dom_def)
  show "M i = Some e \<Longrightarrow> \<exists>w. M' i = Some (e\<lparr>e_weight := w\<rparr>)"
  proof -
    assume "M i = Some e"
    then obtain e' where "M' i = Some e'" "e_prio e' = e_prio e" "e_skey e' = e_skey e" "e_tx e' = e_tx e"
      using * [of i] by (auto simp: content_def)
    then show ?thesis by (intro exI [of _ "e_weight e'"]) (cases e'; cases e; simp)
  qed
qed

section \<open>Reordering\<close>

lemma reorder_step_repr:
  assumes laws: "skiplist_laws SL cmpf" and lin: "linear_on X (ComparePriority (pc_TxPriority (pn_cfg mp)))"
    and r: "PN_repr SL cmpf X zero mp M" and i: "M i = Some e" and w: "w \<in> X"
  shows "PN_repr SL cmpf X zero (reorder_step SL (pkey i e, pkey i (e\<lparr>e_weight := w\<rparr>), e_tx e) mp) (M(i \<mapsto> e\<lparr>e_weight := w\<rparr>))"
    (is "PN_repr SL cmpf X zero ?mp ?M")
proof -
  note R = PN_reprD [OF r]
  have cfg: "pn_cfg ?mp = pn_cfg mp" "senderIndices ?mp = senderIndices mp" "priorityCounts ?mp = priorityCounts mp"
    by (simp_all add: reorder_step_def)
  have ids: "prio_ids ?M p = prio_ids M p" for p using i by (auto simp: prio_ids_def)
  show ?thesis
  proof (rule PN_reprI)
    show "index_repr SL cmpf X (pc_TxPriority (pn_cfg ?mp)) (priorityIndex ?mp) ?M"
      using index_Set [OF laws lin index_Remove [OF laws lin R(2) i], of i "e\<lparr>e_weight := w\<rparr>"] w index_reprD(4) [OF R(2) i]
      by (simp add: cfg) (simp add: reorder_step_def)
    show "?M (s, n) = None" if "map_of (senderIndices ?mp) s = None" for s n
      using R(4) [of s n] that i cfg by auto
    show "sender_repr SL cmpf zero s l ?M" if "map_of (senderIndices ?mp) s = Some l" for s l
    proof -
      have "sender_repr SL cmpf zero s l M" using R(5) that cfg by simp
      then show ?thesis by (rule sender_repr_cong [THEN iffD1, rotated]) (use i in auto)
    qed
    show "scores ?mp j = map_option (\<lambda>e. (e_prio e, e_weight e)) (?M j)" for j
      using R(6) [of j] by (simp add: reorder_step_def)
    show "e_skey f \<in> X" if "?M j = Some f" for j f
      using that R(8) [of j f] R(8) [OF i] by (auto simp: fun_upd_apply split: if_splits)
  qed (use R(1,3,7) cfg ids in auto)
qed

definition reorder_item :: "(string \<times> nat) \<times> 'p entry \<times> 'p \<Rightarrow> 'p txMeta \<times> 'p txMeta \<times> tx" where
  "reorder_item x = (case x of (i, e, w) \<Rightarrow> (pkey i e, pkey i (e\<lparr>e_weight := w\<rparr>), e_tx e))"

lemma reorder_fold_repr:
  assumes laws: "skiplist_laws SL cmpf"
  shows "linear_on X (ComparePriority (pc_TxPriority (pn_cfg mp))) \<Longrightarrow> PN_repr SL cmpf X zero mp M \<Longrightarrow>
     distinct (map fst xs) \<Longrightarrow> \<forall>(i, e, w) \<in> set xs. M i = Some e \<and> w \<in> X \<Longrightarrow>
     \<exists>M'. PN_repr SL cmpf X zero (fold (reorder_step SL) (map reorder_item xs) mp) M' \<and> content M' = content M \<and>
       pn_cfg (fold (reorder_step SL) (map reorder_item xs) mp) = pn_cfg mp"
proof (induction xs arbitrary: mp M)
  case (Cons x xs)
  obtain i e w where x: "x = (i, e, w)" by (cases x) auto
  have i: "M i = Some e" "w \<in> X" using Cons.prems(4) x by simp_all
  define mp1 where "mp1 = reorder_step SL (reorder_item x) mp"
  have cfg: "pn_cfg mp1 = pn_cfg mp" by (simp add: mp1_def reorder_step_def split: prod.splits)
  define M1 where "M1 = M(i \<mapsto> e\<lparr>e_weight := w\<rparr>)"
  have r1: "PN_repr SL cmpf X zero mp1 M1"
    using reorder_step_repr [OF laws Cons.prems(1,2) i] x by (simp add: M1_def mp1_def reorder_item_def)
  have xs: "\<forall>(j, f, v) \<in> set xs. M1 j = Some f \<and> v \<in> X"
    using Cons.prems(3,4) x by (force simp: M1_def image_iff)
  have "content M1 = content M" using i(1) by (auto simp: M1_def content_def fun_eq_iff)
  then show ?case
    using Cons.IH [OF _ r1 _ xs] Cons.prems(1,3) cfg by (simp add: mp1_def [symmetric])
qed auto

lemma index_ids:
  assumes laws: "skiplist_laws SL cmpf" and lin: "linear_on X (ComparePriority P)" and r: "index_repr SL cmpf X P l M"
  shows "distinct (map (\<lambda>(k, t). (sender k, nonce k)) (sl_Elems SL l))"
    and "(k, t) \<in> set (sl_Elems SL l) \<Longrightarrow> \<exists>e. M (sender k, nonce k) = Some e \<and> k = pkey (sender k, nonce k) e \<and> t = e_tx e"
proof -
  note r' = index_reprD [OF r]
  show *: "(k, t) \<in> set (sl_Elems SL l) \<Longrightarrow> \<exists>e. M (sender k, nonce k) = Some e \<and> k = pkey (sender k, nonce k) e \<and> t = e_tx e" for k t
    by (auto simp: r'(3) elems_of_iff)
  have "distinct (sl_Elems SL l)"
    using sorted_keys_distinct [OF skiplistComparable_linear [OF laws lin] r'(6,2)] distinct_map by blast
  moreover have "inj_on (\<lambda>(k, t). (sender k, nonce k)) (set (sl_Elems SL l))"
  proof (rule inj_onI)
    fix x y
    assume "x \<in> set (sl_Elems SL l)" "y \<in> set (sl_Elems SL l)"
      "(case x of (k, t) \<Rightarrow> (sender k, nonce k)) = (case y of (k, t) \<Rightarrow> (sender k, nonce k))"
    then show "x = y" by (auto simp: r'(3) elems_of_iff)
  qed
  ultimately show "distinct (map (\<lambda>(k, t). (sender k, nonce k)) (sl_Elems SL l))"
    by (simp add: distinct_map)
qed

lemma reorderPriorityTies_repr:
  assumes laws: "skiplist_laws SL cmpf" and lin: "linear_on X (ComparePriority (pc_TxPriority (pn_cfg mp)))"
    and r: "PN_repr SL cmpf X zero mp M"
  shows "\<exists>M'. PN_repr SL cmpf X zero (reorderPriorityTies SL mp) M' \<and> content M' = content M \<and>
    pn_cfg (reorderPriorityTies SL mp) = pn_cfg mp"
proof -
  note R = PN_reprD [OF r] and ids = index_ids [OF laws lin PN_reprD(2) [OF r]]
  define w where "w k = senderWeight (pc_TxPriority (pn_cfg mp)) (sender_element SL mp k)" for k
  define item where "item = (\<lambda>(k, t :: tx). ((sender k, nonce k), the (M (sender k, nonce k)), w k))"
  define es where "es = filter (\<lambda>(key, t). count_of (priorityCounts mp) (priority key) > 1) (sl_Elems SL (priorityIndex mp))"
  have es: "set es \<subseteq> set (sl_Elems SL (priorityIndex mp))" by (auto simp: es_def)
  have "(k, k\<lparr>weight := w k\<rparr>, t) = reorder_item (item (k, t))" if kt: "(k, t) \<in> set es" for k t
  proof -
    obtain e where e: "M (sender k, nonce k) = Some e" "k = pkey (sender k, nonce k) e" "t = e_tx e"
      using ids(2) [OF subsetD [OF es kt]] by blast
    have "k\<lparr>weight := w k\<rparr> = pkey (sender k, nonce k) (e\<lparr>e_weight := w k\<rparr>)"
      by (subst e(2)) (simp add: pkey_def)
    then show ?thesis using e by (simp add: reorder_item_def item_def)
  qed
  then have "reordering SL mp = map reorder_item (map item es)"
    by (auto simp: reordering_def es_def [symmetric] w_def [symmetric])
  moreover have "distinct (map fst (map item es))"
  proof -
    have "map fst (map item es) = map (\<lambda>(k, t). (sender k, nonce k)) es" by (auto simp: item_def)
    then show ?thesis using ids(1) by (simp only:) (auto simp: es_def distinct_map_filter)
  qed
  moreover have "w k \<in> X" if kt: "(k, t) \<in> set es" for k t
  proof -
    obtain e where e: "M (sender k, nonce k) = Some e" using ids(2) [OF subsetD [OF es kt]] by blast
    then obtain l where l: "map_of (senderIndices mp) (sender k) = Some l" using R(4) [of "sender k" "nonce k"] by fastforce
    let ?c = "sender_element SL mp k"
    note L = sender_reprD [OF R(5) [OF l]]
    have "selem zero (sender k) (nonce k) e \<in> set (sl_Elems SL l)"
      using e by (auto simp: L(3) elems_of_iff of_sender_def)
    then have "?c \<noteq> []" "set ?c \<subseteq> set (sl_Elems SL l)"
      using l by (force simp: sender_element_def dest: set_dropWhileD)+
    moreover have "priority (fst x) \<in> X" if "x \<in> set (sl_Elems SL l)" for x
      using that R(8) by (auto simp: L(3) elems_of_iff of_sender_def)
    ultimately show ?thesis using senderWeight_in [of ?c "pc_TxPriority (pn_cfg mp)"] by (auto simp: w_def)
  qed
  then have "\<forall>(i, e, v) \<in> set (map item es). M i = Some e \<and> v \<in> X"
    using ids(2) es by (fastforce simp: item_def)
  ultimately show ?thesis
    using reorder_fold_repr [OF laws lin r, of "map item es"] by (simp add: reorderPriorityTies_def)
qed

section \<open>The iterator\<close>

type_synonym 'p cursors = "string \<rightharpoonup> ('p txMeta \<times> tx) list"

text \<open>The elements of a sender, and those that the cursors have not passed yet.\<close>

definition sender_elems :: "('s, 'p) txlists \<Rightarrow> ('s, 'p, 'b) PriorityNonceMempool \<Rightarrow> string \<Rightarrow> ('p txMeta \<times> tx) list" where
  "sender_elems SL mp s = (case map_of (senderIndices mp) s of None \<Rightarrow> [] | Some l \<Rightarrow> sl_Elems SL l)"

definition pending ::
  "('s, 'p) txlists \<Rightarrow> ('s, 'p, 'b) PriorityNonceMempool \<Rightarrow> 'p cursors \<Rightarrow> string \<Rightarrow> ('p txMeta \<times> tx) list" where
  "pending SL mp cur s = (case cur s of None \<Rightarrow> sender_elems SL mp s | Some c \<Rightarrow> tl c)"

text \<open>The keys of the sender indices carry the current priorities.\<close>

definition current :: "'p entries \<Rightarrow> bool" where
  "current M \<longleftrightarrow> (\<forall>i e. M i = Some e \<longrightarrow> e_skey e = e_prio e)"

text \<open>The nodes ahead are the end of the index, and the pending elements are the end of each sender's.\<close>

definition ahead ::
  "('s, 'p) txlists \<Rightarrow> ('s, 'p, 'b) PriorityNonceMempool \<Rightarrow> 'p cursors \<Rightarrow> ('p txMeta \<times> tx) list \<Rightarrow> bool" where
  "ahead SL mp cur ns \<longleftrightarrow>
     suffix ns (sl_Elems SL (priorityIndex mp)) \<and> (\<forall>s. suffix (pending SL mp cur s) (sender_elems SL mp s))"

text \<open>A sender without a node ahead has nothing pending.\<close>

definition served ::
  "('s, 'p) txlists \<Rightarrow> ('s, 'p, 'b) PriorityNonceMempool \<Rightarrow> 'p cursors \<Rightarrow> ('p txMeta \<times> tx) list \<Rightarrow> bool" where
  "served SL mp cur ns \<longleftrightarrow> (\<forall>s. s \<notin> (\<lambda>n. sender (fst n)) ` set ns \<longrightarrow> pending SL mp cur s = [])"

text \<open>The node of the iterator, with its sender and the priority of the next node.\<close>

definition at_node :: "'p PriorityNonceIterator \<Rightarrow> ('p txMeta \<times> tx) list \<Rightarrow> bool" where
  "at_node it ns \<longleftrightarrow>
     ns \<noteq> [] \<and> priorityNode it = ns \<and> it_sender it = sender (fst (hd ns)) \<and>
     (tl ns \<noteq> [] \<longrightarrow> nextPriority it = priority (fst (hd (tl ns))))"

text \<open>What a call of \<open>Next\<close> returns: the end, or an iterator whose sender has advanced by one.\<close>

definition advanced ::
  "('s, 'p) txlists \<Rightarrow> ('s, 'p, 'b) PriorityNonceMempool \<Rightarrow> 'p entries \<Rightarrow> 'p cursors \<Rightarrow> ('p txMeta \<times> tx) list
   \<Rightarrow> 'p PriorityNonceIterator option \<Rightarrow> bool" where
  "advanced SL mp M cur ns r =
     (case r of
        None \<Rightarrow> current M \<and> served SL mp cur ns \<longrightarrow> (\<forall>s. pending SL mp cur s = [])
      | Some it \<Rightarrow>
          (\<exists>x later. pending SL mp cur (it_sender it) = x # later \<and>
             senderCursors it = cur(it_sender it \<mapsto> x # later)) \<and>
          at_node it (priorityNode it) \<and> suffix (priorityNode it) ns \<and>
          (current M \<and> served SL mp cur ns \<longrightarrow> served SL mp cur (priorityNode it)))"

lemma sender_elems_repr:
  assumes "PN_repr SL cmpf X zero mp M"
  shows "set (sender_elems SL mp s) = elems_of (selem zero s) (of_sender s M)"
    "sorted_keys (sender_nonce_cmp SL) (sender_elems SL mp s)"
proof -
  have "set (sender_elems SL mp s) = elems_of (selem zero s) (of_sender s M) \<and> sorted_keys (sender_nonce_cmp SL) (sender_elems SL mp s)"
  proof (cases "map_of (senderIndices mp) s")
    case None
    then show ?thesis using PN_reprD(4) [OF assms None] by (simp add: sender_elems_def elems_of_def of_sender_def)
  next
    case (Some l)
    then show ?thesis using sender_reprD [OF PN_reprD(5) [OF assms Some]] by (simp add: sender_elems_def)
  qed
  then show "set (sender_elems SL mp s) = elems_of (selem zero s) (of_sender s M)"
    "sorted_keys (sender_nonce_cmp SL) (sender_elems SL mp s)" by blast+
qed

text \<open>
  The iterator leaves a sender with pending transactions only for a node of higher order than its
  next transaction; the node of that transaction is then still ahead.
\<close>

lemma leave_sender:
  assumes laws: "skiplist_laws SL cmpf" and lin: "linear_on X (ComparePriority (pc_TxPriority (pn_cfg mp)))"
    and r: "PN_repr SL cmpf X zero mp M" and cur: "current M"
    and a: "ahead SL mp cu (node # rest)" and s: "served SL mp cu (node # rest)"
    and p: "pending SL mp cu (sender (fst node)) = (key, t) # later" and rest: "rest \<noteq> []"
    and skip: "ComparePriority (pc_TxPriority (pn_cfg mp)) (priority key) (priority (fst (hd rest))) < 0 \<or>
      ComparePriority (pc_TxPriority (pn_cfg mp)) (priority key) (priority (fst (hd rest))) = 0 \<and>
      ComparePriority (pc_TxPriority (pn_cfg mp)) (case scores mp (sender key, nonce key) of None \<Rightarrow> zero | Some (_, w) \<Rightarrow> w)
        (weight (fst (hd rest))) < 0"
  shows "served SL mp cu rest"
proof -
  let ?s = "sender (fst node)"
  have "suffix ((key, t) # later) (sender_elems SL mp ?s)" using a p by (metis ahead_def)
  then have "(key, t) \<in> elems_of (selem zero ?s) (of_sender ?s M)"
    using set_mono_suffix sender_elems_repr(1) [OF r, of ?s] by fastforce
  then obtain n e where e: "M (?s, n) = Some e" "key = skey zero (?s, n) e"
    by (auto simp: elems_of_iff of_sender_def)
  have "?s \<in> (\<lambda>n. sender (fst n)) ` set rest"
  proof (rule ccontr)
    assume n: "?s \<notin> (\<lambda>n. sender (fst n)) ` set rest"
    note R = index_reprD [OF PN_reprD(2) [OF r]]
    obtain pre where pre: "sl_Elems SL (priorityIndex mp) = pre @ node # rest"
      using a by (auto simp: ahead_def suffix_def)
    have "pelem (?s, n) e \<in> set (sl_Elems SL (priorityIndex mp))"
      unfolding R(3) elems_of_iff using e(1) by blast
    moreover have "pelem (?s, n) e \<notin> set rest" using n by (force simp: image_iff)
    ultimately have "pelem (?s, n) e \<in> set (pre @ [node])" using pre by auto
    moreover have "hd rest \<in> set rest" using rest by simp
    moreover have "sorted_keys (skiplistComparable SL (pc_TxPriority (pn_cfg mp))) ((pre @ [node]) @ rest)"
      using R(2) pre by simp
    ultimately have "skiplistComparable SL (pc_TxPriority (pn_cfg mp)) (pkey (?s, n) e) (fst (hd rest)) < 0"
      unfolding sorted_keys_append by fastforce
    note less = skiplistComparable_less [OF laws this]
    have "e_skey e = e_prio e" using cur e(1) unfolding current_def by blast
    moreover have "scores mp (?s, n) = Some (e_prio e, e_weight e)" using PN_reprD(6) [OF r] e(1) by simp
    ultimately show False using skip less e(2) by auto
  qed
  then have "(\<lambda>n. sender (fst n)) ` set (node # rest) = (\<lambda>n. sender (fst n)) ` set rest"
    by (simp add: insert_absorb)
  then show ?thesis using s unfolding served_def by (simp only:)
qed

lemma ahead_tl: "ahead SL mp cu (node # rest) \<Longrightarrow> ahead SL mp cu rest"
  by (auto simp: ahead_def intro: suffix_ConsD)

lemma served_tl:
  assumes "served SL mp cu (node # rest)" "pending SL mp cu (sender (fst node)) = []"
  shows "served SL mp cu rest"
  unfolding served_def
proof (intro allI impI)
  fix s
  assume "s \<notin> (\<lambda>n. sender (fst n)) ` set rest"
  then show "pending SL mp cu s = []"
    using assms by (cases "s = sender (fst node)") (simp_all add: served_def)
qed

lemma advanced_tl:
  assumes "advanced SL mp M cu rest r" "current M \<Longrightarrow> served SL mp cu (node # rest) \<Longrightarrow> served SL mp cu rest"
  shows "advanced SL mp M cu (node # rest) r"
  using assms by (auto simp: advanced_def suffix_Cons split: option.splits)

lemma iterator_spec:
  fixes mp :: "('s, 'p, 'b) PriorityNonceMempool"
  assumes laws: "skiplist_laws SL cmpf" and lin: "linear_on X (ComparePriority (pc_TxPriority (pn_cfg mp)))"
    and r: "PN_repr SL cmpf X zero mp M"
  shows "ahead SL mp (senderCursors it) ns \<Longrightarrow>
      \<exists>res. iteratePriority SL zero mp it ns = Ok res \<and> advanced SL mp M (senderCursors it) ns res"
    and "ahead SL mp (senderCursors it) ns \<Longrightarrow> at_node it ns \<Longrightarrow>
      \<exists>res. iterator_Next SL zero mp it ns = Ok res \<and> advanced SL mp M (senderCursors it) ns res"
proof (induction ns arbitrary: it)
  case Nil
  {
    case 1
    then show ?case by (simp add: advanced_def served_def)
  next
    case 2
    then show ?case by (simp add: at_node_def)
  }
next
  case (Cons node rest)
  have next_ok: "\<exists>res. iterator_Next SL zero mp it (node # rest) = Ok res \<and> advanced SL mp M (senderCursors it) (node # rest) res"
    if a: "ahead SL mp (senderCursors it) (node # rest)" and at: "at_node it (node # rest)" for it
  proof -
    let ?cu = "senderCursors it" and ?s = "sender (fst node)"
    have s: "it_sender it = ?s" and np: "rest \<noteq> [] \<Longrightarrow> nextPriority it = priority (fst (hd rest))"
      using at by (simp_all add: at_node_def)
    have leave: "\<exists>res. iteratePriority SL zero mp it rest = Ok res \<and> advanced SL mp M ?cu (node # rest) res"
      if "current M \<Longrightarrow> served SL mp ?cu (node # rest) \<Longrightarrow> served SL mp ?cu rest"
      using Cons.IH(1) [of it, OF ahead_tl [OF a]] advanced_tl [OF _ that] by blast
    have "node \<in> set (sl_Elems SL (priorityIndex mp))" using a set_mono_suffix by (fastforce simp: ahead_def)
    then have "\<exists>n. M (?s, n) \<noteq> None" unfolding index_reprD(3) [OF PN_reprD(2) [OF r]] by (auto simp: elems_of_iff) blast
    then obtain l where l: "map_of (senderIndices mp) ?s = Some l" using PN_reprD(4) [OF r, of ?s] by fastforce
    have cursor: "(case ?cu (it_sender it) of
          None \<Rightarrow> (case map_of (senderIndices mp) (it_sender it) of
              None \<Rightarrow> Panic ''nil pointer dereference'' | Some senderIndex \<Rightarrow> Ok (sl_Elems SL senderIndex))
        | Some cursor \<Rightarrow> Ok (tl cursor)) = Ok (pending SL mp ?cu ?s)"
      using l s by (simp add: pending_def sender_elems_def split: option.splits)
    show ?thesis
    proof (cases "pending SL mp ?cu ?s")
      case Nil
      then have "iterator_Next SL zero mp it (node # rest) = iteratePriority SL zero mp it rest"
        by (simp add: cursor)
      moreover have "served SL mp ?cu rest" if "served SL mp ?cu (node # rest)"
        using served_tl [OF that Nil] .
      ultimately show ?thesis using leave by simp
    next
      case (Cons x later)
      obtain key t where x: "x = (key, t)" by fastforce
      let ?skip = "rest \<noteq> [] \<and> (ComparePriority (pc_TxPriority (pn_cfg mp)) (priority key) (nextPriority it) < 0 \<or>
          (ComparePriority (pc_TxPriority (pn_cfg mp)) (priority key) (nextPriority it) = 0 \<and>
           ComparePriority (pc_TxPriority (pn_cfg mp))
             (case scores mp (sender key, nonce key) of None \<Rightarrow> zero | Some (_, w) \<Rightarrow> w) (weight (fst (hd rest))) < 0))"
      have next_eq: "iterator_Next SL zero mp it (node # rest) =
          (if ?skip then iteratePriority SL zero mp it rest else Ok (Some (it\<lparr>senderCursors := ?cu(it_sender it \<mapsto> x # later)\<rparr>)))"
        using Cons x by (simp add: cursor Let_def)
      show ?thesis
      proof (cases ?skip)
        case True
        then have "served SL mp ?cu rest" if "current M" "served SL mp ?cu (node # rest)"
          using leave_sender [OF laws lin r that(1) a that(2)] Cons x np by auto
        then show ?thesis using leave unfolding next_eq if_P [OF True] by blast
      next
        case False
        have e: "iterator_Next SL zero mp it (node # rest) = Ok (Some (it\<lparr>senderCursors := ?cu(it_sender it \<mapsto> x # later)\<rparr>))"
          using next_eq unfolding if_not_P [OF False] .
        show ?thesis unfolding e using at s Cons by (auto simp: advanced_def at_node_def)
      qed
    qed
  qed
  {
    case 1
    define it' where "it' = it\<lparr>priorityNode := node # rest, it_sender := sender (fst node),
      nextPriority := (case rest of [] \<Rightarrow> MinValue (pc_TxPriority (pn_cfg mp)) | nx # _ \<Rightarrow> priority (fst nx))\<rparr>"
    have "senderCursors it' = senderCursors it" "at_node it' (node # rest)"
      by (cases rest; simp add: it'_def at_node_def)+
    then show ?case using next_ok [of it'] 1 by (simp only: iteratePriority.simps it'_def [symmetric])
  next
    case 2
    then show ?case using next_ok by blast
  }
qed

section \<open>The selected transactions\<close>

definition outstanding :: "('s, 'p) txlists \<Rightarrow> ('s, 'p, 'b) PriorityNonceMempool \<Rightarrow> 'p cursors \<Rightarrow> nat" where
  "outstanding SL mp cu = (\<Sum>s \<in> fst ` set (senderIndices mp). length (pending SL mp cu s))"

abbreviation from_sender :: "string \<Rightarrow> ('p txMeta \<times> tx) list \<Rightarrow> ('p txMeta \<times> tx) list" where
  "from_sender s ys \<equiv> filter (\<lambda>x. sender (fst x) = s) ys"

lemma pending_upd: "pending SL mp (cu(s \<mapsto> x # later)) r = (if r = s then later else pending SL mp cu r)"
  by (simp add: pending_def)

lemma sender_elems_sender: "PN_repr SL cmpf X zero mp M \<Longrightarrow> x \<in> set (sender_elems SL mp s) \<Longrightarrow> sender (fst x) = s"
  by (auto simp: sender_elems_repr elems_of_iff)

lemma outstanding_less:
  assumes "ahead SL mp cu ns" "pending SL mp cu s = x # later"
  shows "outstanding SL mp (cu(s \<mapsto> x # later)) < outstanding SL mp cu"
proof -
  have "sender_elems SL mp s \<noteq> []" using assms by (metis ahead_def list.distinct(1) suffix_Nil)
  then have "s \<in> fst ` set (senderIndices mp)"
    unfolding sender_elems_def by (metis map_of_eq_None_iff option.simps(4))
  then show ?thesis unfolding outstanding_def using assms(2)
    by (intro sum_strict_mono_ex1) (auto simp: pending_upd intro!: bexI [of _ s])
qed

lemma walk_spec:
  fixes mp :: "('s, 'p, 'b) PriorityNonceMempool"
  assumes laws: "skiplist_laws SL cmpf" and lin: "linear_on X (ComparePriority (pc_TxPriority (pn_cfg mp)))"
    and r: "PN_repr SL cmpf X zero mp M"
  shows "ahead SL mp cu ns \<Longrightarrow> advanced SL mp M cu ns res \<Longrightarrow> outstanding SL mp cu \<le> fuel \<Longrightarrow>
     \<exists>ys. walk SL zero mp fuel (Ok res) = Ok (map snd ys) \<and>
       (\<forall>s. prefix (from_sender s ys) (pending SL mp cu s)) \<and>
       (current M \<and> served SL mp cu ns \<longrightarrow> (\<forall>s. from_sender s ys = pending SL mp cu s))"
proof (induction fuel arbitrary: cu ns res)
  case 0
  show ?case
  proof (cases res)
    case None
    then show ?thesis using 0 by (intro exI [of _ "[]"]) (simp add: advanced_def)
  next
    case (Some it)
    then obtain x later where "pending SL mp cu (it_sender it) = x # later" using 0 by (auto simp: advanced_def)
    then show ?thesis using outstanding_less [OF 0(1)] 0(3) by fastforce
  qed
next
  case (Suc fuel)
  show ?case
  proof (cases res)
    case None
    then show ?thesis using Suc.prems by (intro exI [of _ "[]"]) (simp add: advanced_def)
  next
    case (Some it)
    let ?s = "it_sender it" and ?ns = "priorityNode it"
    obtain x later where p: "pending SL mp cu ?s = x # later" and cu': "senderCursors it = cu(?s \<mapsto> x # later)"
      and at: "at_node it ?ns" and suf: "suffix ?ns ns"
      and sv: "current M \<and> served SL mp cu ns \<longrightarrow> served SL mp cu ?ns"
      using Suc.prems(2) Some by (auto simp: advanced_def)
    let ?cu = "cu(?s \<mapsto> x # later)"
    have xs: "suffix (x # later) (sender_elems SL mp ?s)" using Suc.prems(1) p by (metis ahead_def)
    then have "x \<in> set (sender_elems SL mp ?s)" by (auto dest: set_mono_suffix)
    then have x: "sender (fst x) = ?s" by (rule sender_elems_sender [OF r])
    have a: "ahead SL mp ?cu ?ns"
      using Suc.prems(1) suffix_order.trans [OF suf] suffix_ConsD [OF xs] by (simp add: ahead_def pending_upd)
    obtain res' where n: "Iterator_Next SL zero mp it = Ok res'" "advanced SL mp M ?cu ?ns res'"
      using iterator_spec(2) [OF laws lin r, of it ?ns] a at cu' by (auto simp: Iterator_Next_def)
    have "outstanding SL mp ?cu \<le> fuel" using outstanding_less [OF Suc.prems(1) p] Suc.prems(3) by simp
    then obtain ys where ys: "walk SL zero mp fuel (Ok res') = Ok (map snd ys)"
        "\<forall>s. prefix (from_sender s ys) (pending SL mp ?cu s)"
        "current M \<and> served SL mp ?cu ?ns \<longrightarrow> (\<forall>s. from_sender s ys = pending SL mp ?cu s)"
      using Suc.IH [OF a n(2)] by blast
    have "Iterator_Tx it = Ok (snd x)" using cu' by (cases x) (simp add: Iterator_Tx_def)
    then have w: "walk SL zero mp (Suc fuel) (Ok res) = Ok (map snd (x # ys))" using Some n(1) ys(1) by simp
    have "?s \<in> (\<lambda>n. sender (fst n)) ` set ?ns" using at by (cases ?ns) (auto simp: at_node_def)
    then have "served SL mp cu ?ns \<Longrightarrow> served SL mp ?cu ?ns" by (auto simp: served_def pending_upd)
    then have "current M \<and> served SL mp cu ns \<longrightarrow> (\<forall>s. from_sender s (x # ys) = pending SL mp cu s)"
      using ys(3) sv x p by (auto simp: pending_upd)
    moreover have "prefix (from_sender s (x # ys)) (pending SL mp cu s)" for s
      using ys(2) [rule_format, of s] x p by (auto simp: pending_upd)
    ultimately show ?thesis using w by blast
  qed
qed

lemma outstanding_all:
  assumes laws: "skiplist_laws SL cmpf" and r: "PN_repr SL cmpf X zero mp M"
  shows "outstanding SL mp Map.empty = card (dom M)"
proof -
  let ?S = "fst ` set (senderIndices mp)"
  have "length (sender_elems SL mp s) = card (dom (of_sender s M))" for s
  proof -
    note c = sender_nonce_cmp_simps [OF laws]
    have "distinct (sender_elems SL mp s)"
      using sorted_keys_distinct [OF c(3) subset_UNIV sender_elems_repr(2) [OF r]] distinct_map by blast
    then have "length (sender_elems SL mp s) = card (elems_of (selem zero s) (of_sender s M))"
      by (simp add: distinct_card sender_elems_repr(1) [OF r, symmetric])
    also have "elems_of (selem zero s) (of_sender s M) = (\<lambda>n. selem zero s n (the (of_sender s M n))) ` dom (of_sender s M)"
      by (auto simp: elems_of_iff image_iff) (metis domI option.sel)+
    also have "card \<dots> = card (dom (of_sender s M))"
      by (rule card_image) (auto intro: inj_onI simp: skey_def)
    finally show ?thesis .
  qed
  moreover have "dom M = Sigma ?S (\<lambda>s. dom (of_sender s M))"
    using PN_reprD(4) [OF r] by (force simp: of_sender_def map_of_eq_None_iff)
  moreover have "finite (dom (of_sender s M))" for s
    using finite_vimageI [OF PN_reprD(1) [OF r], of "Pair s"] by (simp add: vimage_def of_sender_def dom_def inj_on_def)
  ultimately show ?thesis by (simp add: outstanding_def pending_def)
qed

lemma current_content_imp:
  assumes c: "content M' = content M" and M: "current M"
  shows "current M'"
  unfolding current_def
proof (intro allI impI)
  fix i e
  assume "M' i = Some e"
  then obtain w where "M i = Some (e\<lparr>e_weight := w\<rparr>)" using content_eqD(3) [OF c [symmetric]] by blast
  then have "e_skey (e\<lparr>e_weight := w\<rparr>) = e_prio (e\<lparr>e_weight := w\<rparr>)" using M unfolding current_def by blast
  then show "e_skey e = e_prio e" by simp
qed

lemma current_content: "content M' = content M \<Longrightarrow> current M' \<longleftrightarrow> current M"
  using current_content_imp by metis

lemma ahead_start: "ahead SL mp Map.empty (sl_Elems SL (priorityIndex mp))"
  by (simp add: ahead_def pending_def)

lemma served_start:
  assumes r: "PN_repr SL cmpf X zero mp M"
  shows "served SL mp Map.empty (sl_Elems SL (priorityIndex mp))"
  unfolding served_def
proof (intro allI impI)
  fix s
  assume s: "s \<notin> (\<lambda>n. sender (fst n)) ` set (sl_Elems SL (priorityIndex mp))"
  have "M (s, n) = None" for n
  proof (rule ccontr)
    assume "M (s, n) \<noteq> None"
    then obtain e where "M (s, n) = Some e" by blast
    then have "pelem (s, n) e \<in> set (sl_Elems SL (priorityIndex mp))"
      unfolding index_reprD(3) [OF PN_reprD(2) [OF r]] elems_of_iff by blast
    then show False using s by force
  qed
  then have "set (sender_elems SL mp s) = {}" by (simp add: sender_elems_repr(1) [OF r] elems_of_def of_sender_def)
  then show "pending SL mp Map.empty s = []" by (simp add: pending_def)
qed

lemma PN_txs_eq:
  assumes "skiplist_laws SL cmpf" "sl_Elems SL (priorityIndex mp) \<noteq> []" "mp1 = reorderPriorityTies SL mp"
  shows "PN_txs SL zero mp = (mp1, walk SL zero mp1 (length (sl_Elems SL (priorityIndex mp1)))
    (iteratePriority SL zero mp1 \<lparr>priorityNode = [], senderCursors = Map.empty, it_sender = '''', nextPriority = zero\<rparr>
       (sl_Elems SL (priorityIndex mp1))))"
  using assms(2) by (simp add: PN_txs_def PN_Select_def skiplist_lawsD [OF assms(1)] assms(3) Let_def)

lemma PN_txs_repr:
  fixes mp :: "('s, 'p, 'b) PriorityNonceMempool"
  assumes laws: "skiplist_laws SL cmpf" and lin: "linear_on X (ComparePriority (pc_TxPriority (pn_cfg mp)))"
    and r: "PN_repr SL cmpf X zero mp M" and sel: "PN_txs SL zero mp = (mp', res)"
  shows "\<exists>M' ys. PN_repr SL cmpf X zero mp' M' \<and> content M' = content M \<and> pn_cfg mp' = pn_cfg mp \<and> res = Ok (map snd ys) \<and>
     (\<forall>s. prefix (from_sender s ys) (sender_elems SL mp' s)) \<and>
     (current M \<longrightarrow> (\<forall>s. from_sender s ys = sender_elems SL mp' s))"
proof (cases "sl_Elems SL (priorityIndex mp) = []")
  case True
  then have e: "mp' = mp" "res = Ok []" using sel by (simp_all add: PN_txs_def PN_Select_def skiplist_lawsD [OF laws])
  have "pending SL mp Map.empty s = []" for s using served_start [OF r] True by (simp add: served_def)
  then have "sender_elems SL mp s = []" for s by (simp add: pending_def)
  then show ?thesis using e r by (intro exI [of _ M] exI [of _ "[]"]) simp
next
  case False
  define mp1 where "mp1 = reorderPriorityTies SL mp"
  obtain M' where M': "PN_repr SL cmpf X zero mp1 M'" "content M' = content M" "pn_cfg mp1 = pn_cfg mp"
    using reorderPriorityTies_repr [OF laws lin r] by (auto simp: mp1_def)
  note lin1 = lin [unfolded M'(3) [symmetric]]
  let ?it = "\<lparr>priorityNode = [], senderCursors = Map.empty, it_sender = '''', nextPriority = zero\<rparr> :: 'p PriorityNonceIterator"
  let ?ns = "sl_Elems SL (priorityIndex mp1)"
  obtain it where it: "iteratePriority SL zero mp1 ?it ?ns = Ok it" "advanced SL mp1 M' Map.empty ?ns it"
    using iterator_spec(1) [OF laws lin1 M'(1), of ?it ?ns] ahead_start [of SL mp1] by auto
  from PN_txs_eq [OF laws False mp1_def, of zero] have e: "mp' = mp1" "res = walk SL zero mp1 (length ?ns) (Ok it)" using sel unfolding it(1) by simp_all
  have "outstanding SL mp1 Map.empty \<le> length ?ns"
    using outstanding_all [OF laws M'(1)] index_length [OF laws lin1 PN_reprD(2) [OF M'(1)]] by simp
  from walk_spec [OF laws lin1 M'(1) ahead_start it(2) this] show ?thesis
    using M' e served_start [OF M'(1)] current_content [OF M'(2)] by (auto simp: pending_def)
qed

text \<open>The elements by sender and nonce.\<close>

lemma sender_elems_nonces:
  assumes laws: "skiplist_laws SL cmpf" and r: "PN_repr SL cmpf X zero mp M"
  shows "sorted_wrt (<) (map (\<lambda>x. nonce (fst x)) (sender_elems SL mp s))"
  using sender_elems_repr(2) [OF r, of s]
  by (simp add: sorted_keys_def sender_nonce_cmp_simps [OF laws] sorted_wrt_map)

text \<open>A list is distinct if the part of each sender is.\<close>

lemma distinct_by_sender:
  fixes zs :: "('p txMeta \<times> tx) list"
  assumes "\<And>s. distinct (map g (from_sender s zs))" "\<And>x y. g x = g y \<Longrightarrow> sender (fst x) = sender (fst y)"
  shows "distinct (map g zs)"
  using assms(1)
proof (induction zs)
  case (Cons z zs)
  have "distinct (map g (from_sender s zs))" for s using Cons.prems [of s] by (simp split: if_splits)
  moreover have "g z \<notin> g ` set zs"
  proof
    assume "g z \<in> g ` set zs"
    then obtain y where "y \<in> set zs" "g z = g y" "sender (fst z) = sender (fst y)" using assms(2) by blast
    then show False using Cons.prems [of "sender (fst z)"] by auto
  qed
  ultimately show ?case using Cons.IH by simp
qed simp

lemma complete_of_senders:
  assumes laws: "skiplist_laws SL cmpf" and r: "PN_repr SL cmpf X zero mp M"
    and ys: "\<And>s. from_sender s ys = sender_elems SL mp s"
  shows "distinct (map (\<lambda>x. (sender (fst x), nonce (fst x))) ys)"
    "map_of (map (\<lambda>x. ((sender (fst x), nonce (fst x)), snd x)) ys) = (\<lambda>i. map_option e_tx (M i))"
proof -
  have iff: "x \<in> set ys \<longleftrightarrow> (\<exists>n e. M (sender (fst x), n) = Some e \<and> x = selem zero (sender (fst x)) n e)" for x
  proof -
    have "x \<in> set ys \<longleftrightarrow> x \<in> set (from_sender (sender (fst x)) ys)" by simp
    then show ?thesis unfolding ys sender_elems_repr(1) [OF r] elems_of_iff of_sender_def .
  qed
  have "distinct (map (\<lambda>x. (sender (fst x), nonce (fst x))) (from_sender s ys))" for s
    using sender_elems_nonces [OF laws r, of s] unfolding ys strict_sorted_iff by (auto simp: distinct_map inj_on_def)
  then show d: "distinct (map (\<lambda>x. (sender (fst x), nonce (fst x))) ys)" by (rule distinct_by_sender) simp
  show "map_of (map (\<lambda>x. ((sender (fst x), nonce (fst x)), snd x)) ys) = (\<lambda>i. map_option e_tx (M i))" (is "map_of ?zs = ?m")
  proof
    fix i :: "string \<times> nat"
    have d': "distinct (map fst ?zs)" using d by (simp add: comp_def)
    show "map_of ?zs i = ?m i"
    proof (cases "M i")
      case None
      have "i \<noteq> (sender (fst x), nonce (fst x))" if xs: "x \<in> set ys" for x
      proof -
        obtain n e where "M (sender (fst x), n) = Some e" "x = selem zero (sender (fst x)) n e" using iff xs by blast
        then have "M (sender (fst x), nonce (fst x)) = Some e" by (metis fst_conv key_simps(5) snd_conv)
        then show ?thesis using None by auto
      qed
      then have "i \<notin> (\<lambda>x. (sender (fst x), nonce (fst x))) ` set ys" by blast
      then have "i \<notin> fst ` set ?zs" by (simp add: image_image)
      then have "map_of ?zs i = None" by (simp only: map_of_eq_None_iff not_False_eq_True)
      then show ?thesis using None by simp
    next
      case (Some e)
      then have "selem zero (fst i) (snd i) e \<in> set ys"
        unfolding iff by (intro exI [of _ "snd i"] exI [of _ e]) simp
      then have "(i, e_tx e) \<in> set ?zs" by force
      then show ?thesis using Some d' by simp
    qed
  qed
qed

section \<open>One transaction per sender\<close>

definition one_per_sender :: "'p entries \<Rightarrow> bool" where
  "one_per_sender M \<longleftrightarrow> (\<forall>s m n. M (s, m) \<noteq> None \<and> M (s, n) \<noteq> None \<longrightarrow> m = n)"

lemma distinct_singleton_list: "distinct xs \<Longrightarrow> set xs = {x} \<Longrightarrow> xs = [x]"
  by (cases xs; cases "tl xs") auto

lemma sole_elem:
  assumes laws: "skiplist_laws SL cmpf" and r: "PN_repr SL cmpf X zero mp M" and one: "one_per_sender M"
    and e: "M (s, n) = Some e"
  shows "sender_elems SL mp s = [selem zero s n e]"
proof -
  have "elems_of (selem zero s) (of_sender s M) = {selem zero s n e}"
    using one e unfolding one_per_sender_def elems_of_def of_sender_def by fastforce
  then have "set (sender_elems SL mp s) = {selem zero s n e}" by (simp add: sender_elems_repr(1) [OF r])
  moreover have "distinct (sender_elems SL mp s)"
    using sorted_keys_distinct [OF sender_nonce_cmp_simps(3) [OF laws] subset_UNIV sender_elems_repr(2) [OF r]] distinct_map by blast
  ultimately show ?thesis by (rule distinct_singleton_list [rotated])
qed

text \<open>With one transaction per sender the iterator follows the priority index.\<close>

lemma walk_one_per_sender:
  fixes mp :: "('s, 'p, 'b) PriorityNonceMempool"
  assumes laws: "skiplist_laws SL cmpf" and lin: "linear_on X (ComparePriority (pc_TxPriority (pn_cfg mp)))"
    and r: "PN_repr SL cmpf X zero mp M" and one: "one_per_sender M" and cur: "current M"
  shows "suffix ns (sl_Elems SL (priorityIndex mp)) \<Longrightarrow> \<forall>x \<in> set ns. senderCursors it (sender (fst x)) = None \<Longrightarrow>
     length ns \<le> fuel \<Longrightarrow> walk SL zero mp fuel (iteratePriority SL zero mp it ns) = Ok (map snd ns)"
proof (induction ns arbitrary: it fuel)
  case (Cons node rest)
  note R = index_reprD [OF PN_reprD(2) [OF r]]
  obtain pre where pre: "sl_Elems SL (priorityIndex mp) = pre @ node # rest" using Cons.prems(1) by (auto simp: suffix_def)
  then have "node \<in> elems_of pelem M" using R(3) by (metis in_set_conv_decomp)
  then obtain s n e where e: "M (s, n) = Some e" "node = pelem (s, n) e" by (auto simp: elems_of_iff)
  have "sender_elems SL mp s = [selem zero s n e]" by (rule sole_elem [OF laws r one e(1)])
  then obtain l where l: "map_of (senderIndices mp) s = Some l" "sl_Elems SL l = [selem zero s n e]"
    by (auto simp: sender_elems_def split: option.splits)
  define it1 where "it1 = it\<lparr>priorityNode := node # rest, it_sender := s,
      nextPriority := (case rest of [] \<Rightarrow> MinValue (pc_TxPriority (pn_cfg mp)) | nx # _ \<Rightarrow> priority (fst nx))\<rparr>"
  define it2 where "it2 = it1\<lparr>senderCursors := (senderCursors it)(s \<mapsto> [selem zero s n e])\<rparr>"
  have it1: "senderCursors it s = None" "it_sender it1 = s" "senderCursors it1 = senderCursors it"
    "rest \<noteq> [] \<Longrightarrow> nextPriority it1 = priority (fst (hd rest))"
    using Cons.prems(2) e by (auto simp: it1_def split: list.splits)
  have stay: "\<not> (rest \<noteq> [] \<and>
      (ComparePriority (pc_TxPriority (pn_cfg mp)) (e_skey e) (nextPriority it1) < 0 \<or>
       (ComparePriority (pc_TxPriority (pn_cfg mp)) (e_skey e) (nextPriority it1) = 0 \<and>
        ComparePriority (pc_TxPriority (pn_cfg mp)) (e_weight e) (weight (fst (hd rest))) < 0)))"
  proof
    assume a: "rest \<noteq> [] \<and>
      (ComparePriority (pc_TxPriority (pn_cfg mp)) (e_skey e) (nextPriority it1) < 0 \<or>
       (ComparePriority (pc_TxPriority (pn_cfg mp)) (e_skey e) (nextPriority it1) = 0 \<and>
        ComparePriority (pc_TxPriority (pn_cfg mp)) (e_weight e) (weight (fst (hd rest))) < 0))"
    then have "skiplistComparable SL (pc_TxPriority (pn_cfg mp)) (fst node) (fst (hd rest)) < 0"
      using R(2) pre by (simp add: sorted_keys_append)
    note less = skiplistComparable_less [OF laws this]
    have "e_skey e = e_prio e" using cur e(1) unfolding current_def by blast
    then show False using a less it1(4) e(2) by auto
  qed
  have sc: "scores mp (s, n) = Some (e_prio e, e_weight e)" using PN_reprD(6) [OF r] e(1) by simp
  have 1: "iteratePriority SL zero mp it (node # rest) = Ok (Some it2)"
  proof -
    have "iteratePriority SL zero mp it (node # rest) = iterator_Next SL zero mp it1 (node # rest)"
      using e(2) by (simp only: iteratePriority.simps it1_def) simp
    also have "\<dots> = Ok (Some it2)"
      using stay l sc by (simp add: it1 it2_def Let_def del: de_Morgan_conj not_less)
    finally show ?thesis .
  qed
  have 2: "Iterator_Next SL zero mp it2 = iteratePriority SL zero mp it2 rest"
    by (simp add: Iterator_Next_def it2_def it1_def)
  have 3: "Iterator_Tx it2 = Ok (e_tx e)" by (simp add: Iterator_Tx_def it2_def it1_def)
  obtain f where f: "fuel = Suc f" "length rest \<le> f" using Cons.prems(3) by (cases fuel) auto
  have "senderCursors it2 (sender (fst x)) = None" if x: "x \<in> set rest" for x
  proof -
    have "x \<in> set (sl_Elems SL (priorityIndex mp))" using x pre by simp
    then obtain i f where i: "M i = Some f" "x = pelem i f" using R(3) by (fastforce simp: elems_of_iff)
    have "skiplistComparable SL (pc_TxPriority (pn_cfg mp)) (fst node) (fst x) < 0"
      using R(2) pre x by (auto simp: sorted_keys_append)
    then have ne: "x \<noteq> node"
      using linear_on_refl [OF skiplistComparable_linear [OF laws lin], of "fst x"] R(4,5) i by auto
    have "fst i \<noteq> s"
    proof
      assume s: "fst i = s"
      then have "M (s, snd i) = Some f" using i(1) by (metis prod.collapse)
      then have "snd i = n" using one e(1) unfolding one_per_sender_def by blast
      then show False using s ne i e by (metis option.sel prod.collapse)
    qed
    then show ?thesis using Cons.prems(2) x i(2) by (auto simp: it2_def it1_def)
  qed
  then have "walk SL zero mp f (iteratePriority SL zero mp it2 rest) = Ok (map snd rest)"
    using Cons.IH [of it2 f] suffix_ConsD [OF Cons.prems(1)] f(2) by blast
  then show ?case using 1 2 3 f(1) e(2) by simp
qed simp

lemma one_per_sender_content: "content M' = content M \<Longrightarrow> one_per_sender M' \<longleftrightarrow> one_per_sender M"
  unfolding one_per_sender_def using content_eqD(2) [of M' M] by simp

lemma PN_txs_by_priority:
  fixes mp :: "('s, 'p, 'b) PriorityNonceMempool"
  assumes laws: "skiplist_laws SL cmpf" and lin: "linear_on X (ComparePriority (pc_TxPriority (pn_cfg mp)))"
    and r: "PN_repr SL cmpf X zero mp M" and cur: "current M" and one: "one_per_sender M"
    and sel: "PN_txs SL zero mp = (mp', res)"
  shows "\<exists>is. res = Ok (map (\<lambda>i. e_tx (the (M i))) is) \<and> distinct is \<and> set is = dom M \<and>
     sorted_wrt (\<lambda>i j. 0 \<le> ComparePriority (pc_TxPriority (pn_cfg mp)) (e_prio (the (M i))) (e_prio (the (M j)))) is"
proof (cases "sl_Elems SL (priorityIndex mp) = []")
  case True
  then have "dom M = {}" "finite (dom M)" using index_length [OF laws lin PN_reprD(2) [OF r]] PN_reprD(1) [OF r] by auto
  moreover have "res = Ok []" using True sel by (simp add: PN_txs_def PN_Select_def skiplist_lawsD [OF laws])
  ultimately show ?thesis by (intro exI [of _ "[]"]) simp
next
  case False
  define mp1 where "mp1 = reorderPriorityTies SL mp"
  obtain M' where M': "PN_repr SL cmpf X zero mp1 M'" "content M' = content M" "pn_cfg mp1 = pn_cfg mp"
    using reorderPriorityTies_repr [OF laws lin r] by (auto simp: mp1_def)
  note lin1 = lin [unfolded M'(3) [symmetric]] and R = index_reprD [OF PN_reprD(2) [OF M'(1)]]
  define ns where "ns = sl_Elems SL (priorityIndex mp1)"
  define ident where "ident = (\<lambda>x :: 'p txMeta \<times> tx. (sender (fst x), nonce (fst x)))"
  have "walk SL zero mp1 (length ns) (iteratePriority SL zero mp1
      \<lparr>priorityNode = [], senderCursors = Map.empty, it_sender = '''', nextPriority = zero\<rparr> ns) = Ok (map snd ns)"
    using current_content [OF M'(2)] one_per_sender_content [OF M'(2)] cur one
    by (intro walk_one_per_sender [OF laws lin1 M'(1)]) (simp_all add: ns_def)
  then have res: "res = Ok (map snd ns)"
    using sel PN_txs_eq [OF laws False mp1_def, of zero, folded ns_def] by simp
  have elem: "e_tx (the (M (ident x))) = snd x" "e_prio (the (M (ident x))) = priority (fst x)" if x: "x \<in> set ns" for x
  proof -
    obtain i e where i: "M' i = Some e" "x = pelem i e" using x R(3) by (auto simp: ns_def elems_of_iff)
    obtain w where "M i = Some (e\<lparr>e_weight := w\<rparr>)" using content_eqD(3) [OF M'(2) [symmetric] i(1)] by blast
    then show "e_tx (the (M (ident x))) = snd x" "e_prio (the (M (ident x))) = priority (fst x)"
      using i(2) by (simp_all add: ident_def)
  qed
  have "res = Ok (map (\<lambda>i. e_tx (the (M i))) (map ident ns))" unfolding res using elem by simp
  moreover have "distinct (map ident ns)"
    using index_ids(1) [OF laws lin1 PN_reprD(2) [OF M'(1)]] by (simp add: ns_def ident_def case_prod_beta')
  moreover have "set (map ident ns) = dom M"
  proof -
    have "ident (pelem i e) = i" for i e by (simp add: ident_def)
    then have "ident ` elems_of pelem M' = dom M'" by (rule image_elems_of)
    then show ?thesis using R(3) content_eqD(1) [OF M'(2)] by (simp add: ns_def)
  qed
  moreover have "sorted_wrt (\<lambda>x y. 0 \<le> ComparePriority (pc_TxPriority (pn_cfg mp)) (priority (fst x)) (priority (fst y))) ns"
    using R(2) skiplistComparable_less(1) [OF laws] M'(3) unfolding sorted_keys_def ns_def
    by (elim sorted_wrt_mono_rel [rotated]) simp
  then have "sorted_wrt (\<lambda>i j. 0 \<le> ComparePriority (pc_TxPriority (pn_cfg mp)) (e_prio (the (M i))) (e_prio (the (M j)))) (map ident ns)"
    unfolding sorted_wrt_map by (rule sorted_wrt_mono_rel [rotated]) (simp add: elem)
  ultimately show ?thesis by blast
qed

end
