(* ===== verification/Priority_Nonce_Props.thy ===== *)
theory Priority_Nonce_Props
  imports Priority_Nonce_Select Demo
begin

text \<open>
  The properties of the priority nonce mempool: refinement of the abstract operations, the
  invariant and the bounds of the reachable states, and what a selection returns.
\<close>

section \<open>Reachable mempools\<close>

text \<open>
  The priority of the transaction is one of \<open>X\<close>, where the comparison is a total preorder. For
  the default priority this is every integer; for the fee and bid priorities it is the coin
  strings of one denomination.
\<close>

definition fits :: "('p, 'b) TxPriority \<Rightarrow> 'p set \<Rightarrow> 'b Context \<Rightarrow> tx \<Rightarrow> bool" where
  "fits P X ctx t \<longleftrightarrow> (\<forall>p. GetTxPriority P ctx t = Ok p \<longrightarrow> p \<in> X)"

lemma fits_UNIV [simp]: "fits P UNIV ctx t"
  by (simp add: fits_def)

inductive PN_reach ::
  "('s, 'p) txlists \<Rightarrow> addr_ops \<Rightarrow> 'p set \<Rightarrow> 'p \<Rightarrow> ('p, 'b) PriorityNonceMempoolConfig \<Rightarrow> ('s, 'p, 'b) PriorityNonceMempool \<Rightarrow> bool"
  for SL :: "('s, 'p) txlists" and A X and zero :: 'p and c :: "('p, 'b) PriorityNonceMempoolConfig" where
  new: "PN_reach SL A X zero c (NewPriorityMempool SL c)"
| ins: "PN_reach SL A X zero c mp \<Longrightarrow> fits (pc_TxPriority c) X ctx t \<Longrightarrow>
    PN_Insert SL A zero mp ctx t = (mp', r) \<Longrightarrow> PN_reach SL A X zero c mp'"
| rem: "PN_reach SL A X zero c mp \<Longrightarrow> PN_Remove SL A mp t = (mp', r) \<Longrightarrow> PN_reach SL A X zero c mp'"
| sel: "PN_reach SL A X zero c mp \<Longrightarrow> PN_Select SL zero mp = (mp', q) \<Longrightarrow> PN_reach SL A X zero c mp'"

lemma PN_wf_repr: "PN_wf SL cmpf X zero mp \<Longrightarrow> PN_repr SL cmpf X zero mp (entries SL mp)"
  by (simp add: PN_wf_def)

lemma PN_repr_wf: "PN_repr SL cmpf X zero mp M \<Longrightarrow> PN_wf SL cmpf X zero mp \<and> entries SL mp = M"
  using PN_repr_entries by (fastforce simp: PN_wf_def)

lemma PN_Select_repr:
  assumes "skiplist_laws SL cmpf" "linear_on X (ComparePriority (pc_TxPriority (pn_cfg mp)))"
    "PN_repr SL cmpf X zero mp M" "PN_Select SL zero mp = (mp', q)"
  shows "\<exists>M'. PN_repr SL cmpf X zero mp' M' \<and> content M' = content M \<and> pn_cfg mp' = pn_cfg mp"
  using reorderPriorityTies_repr [OF assms(1-3)] assms(3,4)
  by (auto simp: PN_Select_def Let_def split: if_splits)

definition within_cap :: "('p, 'b) PriorityNonceMempoolConfig \<Rightarrow> 'p entries \<Rightarrow> bool" where
  "within_cap c M \<longleftrightarrow>
     (pc_MaxTx c > 0 \<longrightarrow> int (card (dom M)) \<le> pc_MaxTx c) \<and> (pc_MaxTx c < 0 \<longrightarrow> M = Map.empty)"

lemma spec_Insert_cap:
  assumes "within_cap c M" "finite (dom M)" "spec_Insert c A zero M ctx t = (M', r)"
  shows "within_cap c M'"
  using assms card_insert_le_m1 [of "nat (pc_MaxTx c)" "dom M"]
  by (auto simp: within_cap_def spec_Insert_def card_insert_if split: if_splits outcome.splits prod.splits)

lemma spec_Remove_cap:
  assumes "within_cap c M" "finite (dom M)" "spec_Remove A M t = (M', r)"
  shows "within_cap c M'"
proof -
  have "dom M' \<subseteq> dom M" "M = Map.empty \<Longrightarrow> M' = Map.empty"
    using assms(3) by (auto simp: spec_Remove_def split: outcome.splits if_splits)
  then show ?thesis using assms(1) card_mono [OF assms(2), of "dom M'"] by (auto simp: within_cap_def)
qed

lemma PN_reach_repr:
  assumes laws: "skiplist_laws SL cmpf" and lin: "linear_on X (ComparePriority (pc_TxPriority c))"
    and zero: "zero \<in> X" and reach: "PN_reach SL A X zero c mp"
  shows "\<exists>M. PN_repr SL cmpf X zero mp M \<and> pn_cfg mp = c \<and> within_cap c M"
  using reach
proof induction
  case new
  then show ?case using PN_New_repr [OF laws zero, of c] by (force simp: NewPriorityMempool_def within_cap_def)
next
  case (ins mp ctx t mp' r)
  then obtain M where M: "PN_repr SL cmpf X zero mp M" "pn_cfg mp = c" "within_cap c M" by blast
  then show ?case
    using PN_Insert_repr [OF laws _ M(1) ins.hyps(3)] lin ins.hyps(2) spec_Insert_cap [OF M(3) PN_reprD(1) [OF M(1)]]
    by (metis fits_def)
next
  case (rem mp t mp' r)
  then obtain M where M: "PN_repr SL cmpf X zero mp M" "pn_cfg mp = c" "within_cap c M" by blast
  then show ?case
    using PN_Remove_repr [OF laws _ M(1) rem.hyps(2)] lin spec_Remove_cap [OF M(3) PN_reprD(1) [OF M(1)]] by metis
next
  case (sel mp mp' q)
  then obtain M where M: "PN_repr SL cmpf X zero mp M" "pn_cfg mp = c" "within_cap c M" by blast
  obtain M' where M': "PN_repr SL cmpf X zero mp' M'" "content M' = content M" "pn_cfg mp' = pn_cfg mp"
    using PN_Select_repr [OF laws _ M(1) sel.hyps(2)] lin M(2) by auto
  have "within_cap c M'" using M(3) content_eqD(1) [OF M'(2)] by (simp add: within_cap_def flip: dom_eq_empty_conv)
  then show ?case using M' M(2) by auto
qed

section \<open>A concrete mempool\<close>

text \<open>Addresses are written in hexadecimal; a transaction has one signature.\<close>

definition hex_addr_ops :: addr_ops where
  "hex_addr_ops = \<lparr>AccAddressFromBech32 = (\<lambda>s. Err (ErrMsg ''bech32'')), AccAddress_String = hex_EncodeToString\<rparr>"

definition signed_tx :: "bytes \<Rightarrow> nat \<Rightarrow> bytes \<Rightarrow> tx" where
  "signed_tx a n bz = \<lparr>GetMsgs = [], GetFee = None, GetTimeoutHeight = None,
     SigVerifiable = Some (Ok [a], Ok [\<lparr>PubKey_Address = a, Sequence = n\<rparr>]), tx_raw = bz\<rparr>"

type_synonym demo_list = "(int txMeta \<Rightarrow> int txMeta \<Rightarrow> int) \<times> (int txMeta \<times> tx) list"

definition pn_insert ::
  "(demo_list, int, unit) PriorityNonceMempool \<Rightarrow> int \<Rightarrow> tx \<Rightarrow> (demo_list, int, unit) PriorityNonceMempool" where
  "pn_insert mp p t = fst (PN_Insert list_skiplist hex_addr_ops 0 mp (demo_ctx\<lparr>Priority := p\<rparr>) t)"

definition capped_cfg :: "(int, unit) PriorityNonceMempoolConfig" where
  "capped_cfg = (DefaultPriorityNonceMempoolConfig list_skiplist)\<lparr>pc_MaxTx := 1\<rparr>"

text \<open>Two senders, three transactions of rising and falling priority.\<close>

definition pn_three :: "(demo_list, int, unit) PriorityNonceMempool" where
  "pn_three = pn_insert (pn_insert (pn_insert (DefaultPriorityMempool list_skiplist)
     5 (signed_tx [1] 0 [10])) 9 (signed_tx [1] 1 [11])) 7 (signed_tx [2] 0 [20])"

text \<open>A transaction that was replaced by one of higher priority, beside one of another sender.\<close>

definition pn_raised :: "(demo_list, int, unit) PriorityNonceMempool" where
  "pn_raised = pn_insert (pn_insert (pn_insert (DefaultPriorityMempool list_skiplist)
     1 (signed_tx [1] 0 [10])) 5 (signed_tx [2] 0 [20])) 9 (signed_tx [1] 0 [11])"

text \<open>A mempool whose only transaction was removed again.\<close>

definition pn_emptied :: "(demo_list, int, unit) PriorityNonceMempool" where
  "pn_emptied = fst (PN_Remove list_skiplist hex_addr_ops
     (pn_insert (DefaultPriorityMempool list_skiplist) 1 (signed_tx [1] 0 [10])) (signed_tx [1] 0 [10]))"

text \<open>Checks on a mempool that it has only current keys, and one transaction per sender.\<close>

definition keys_current :: "('s, 'p) txlists \<Rightarrow> ('s, 'p, 'b) PriorityNonceMempool \<Rightarrow> bool" where
  "keys_current SL mp \<longleftrightarrow>
     list_all (\<lambda>(s, l). list_all (\<lambda>(k, t). case scores mp (s, nonce k) of None \<Rightarrow> True | Some (p, w) \<Rightarrow> priority k = p)
       (sl_Elems SL l)) (senderIndices mp)"

definition single_keys :: "('s, 'p) txlists \<Rightarrow> ('s, 'p, 'b) PriorityNonceMempool \<Rightarrow> bool" where
  "single_keys SL mp \<longleftrightarrow> list_all (\<lambda>(s, l). length (sl_Elems SL l) \<le> 1) (senderIndices mp)"

section \<open>Reading the concrete mempools\<close>

lemma entries_Some:
  assumes "entries SL mp (s, n) = Some e"
  shows "\<exists>l k. map_of (senderIndices mp) s = Some l \<and> (k, e_tx e) \<in> set (sl_Elems SL l) \<and> nonce k = n \<and>
    priority k = e_skey e \<and> scores mp (s, n) = Some (e_prio e, e_weight e)"
  using assms by (auto simp: entries_def split: option.splits prod.splits dest!: find_SomeD)

lemma keys_current_D: "keys_current SL mp \<Longrightarrow> current (entries SL mp)"
  unfolding current_def keys_current_def list_all_iff
proof (intro allI impI)
  fix i e
  assume c: "\<forall>(s, l) \<in> set (senderIndices mp). \<forall>(k, t) \<in> set (sl_Elems SL l).
      case scores mp (s, nonce k) of None \<Rightarrow> True | Some (p, w) \<Rightarrow> priority k = p"
    and "entries SL mp i = Some e"
  then obtain l k where "(fst i, l) \<in> set (senderIndices mp)" "(k, e_tx e) \<in> set (sl_Elems SL l)" "nonce k = snd i"
      "priority k = e_skey e" "scores mp i = Some (e_prio e, e_weight e)"
    using entries_Some [of SL mp "fst i" "snd i" e] by (auto dest: map_of_SomeD)
  then show "e_skey e = e_prio e" using c by fastforce
qed

lemma single_keys_D:
  assumes "single_keys SL mp"
  shows "one_per_sender (entries SL mp)"
  unfolding one_per_sender_def
proof (intro allI impI)
  fix s m n
  assume "entries SL mp (s, m) \<noteq> None \<and> entries SL mp (s, n) \<noteq> None"
  then obtain e f where "entries SL mp (s, m) = Some e" "entries SL mp (s, n) = Some f" by blast
  then obtain l k k' where l: "map_of (senderIndices mp) s = Some l"
    and k: "(k, e_tx e) \<in> set (sl_Elems SL l)" "nonce k = m" "(k', e_tx f) \<in> set (sl_Elems SL l)" "nonce k' = n"
    using entries_Some [of SL mp s m e] entries_Some [of SL mp s n f] by auto
  have "length (sl_Elems SL l) \<le> 1" using assms map_of_SomeD [OF l] by (auto simp: single_keys_def list_all_iff)
  then show "m = n" using k by (cases "sl_Elems SL l") auto
qed

lemma default_linear:
  "skiplist_laws SL cmpf \<Longrightarrow> linear_cmp (ComparePriority (pc_TxPriority (DefaultPriorityNonceMempoolConfig SL)))"
  using Int64_linear [of SL cmpf] by (simp add: DefaultPriorityNonceMempoolConfig_def NewDefaultTxPriority_def)

lemma pn_insert_reach:
  "PN_reach list_skiplist hex_addr_ops UNIV 0 c mp \<Longrightarrow> PN_reach list_skiplist hex_addr_ops UNIV 0 c (pn_insert mp p t)"
  unfolding pn_insert_def by (rule PN_reach.ins [OF _ fits_UNIV]) (auto intro: prod.collapse [symmetric])

lemma pn_three_reach: "PN_reach list_skiplist hex_addr_ops UNIV 0 (DefaultPriorityNonceMempoolConfig list_skiplist) pn_three"
  unfolding pn_three_def DefaultPriorityMempool_def by (intro pn_insert_reach PN_reach.new)

lemmas demo_linear = default_linear [OF list_skiplist_laws]

lemma demo_reach_wf:
  assumes "PN_reach list_skiplist hex_addr_ops UNIV 0 (DefaultPriorityNonceMempoolConfig list_skiplist) mp"
  shows "PN_wf list_skiplist fst UNIV 0 mp" "linear_cmp (ComparePriority (pc_TxPriority (pn_cfg mp)))"
  using PN_reach_repr [OF list_skiplist_laws demo_linear UNIV_I assms] demo_linear by (auto simp: PN_wf_iff)

lemmas pn_three_wf = demo_reach_wf [OF pn_three_reach]

section \<open>Properties\<close>

text \<open>
  C14: Insertion refines the operation on the map from sender and nonce to entries: at the cap it
  refuses, with a negative cap it does nothing, a transaction without a usable first signature is
  refused, and otherwise the transaction becomes the entry of its sender and nonce, in place of an
  old one if the replacement rule allows that. The error results agree, and the mempool stays
  well-formed.
\<close>

theorem PN_Insert_refines:
  assumes "skiplist_laws SL cmpf" "linear_on X (ComparePriority (pc_TxPriority (pn_cfg mp)))"
    "PN_wf SL cmpf X zero mp" "fits (pc_TxPriority (pn_cfg mp)) X ctx t" "PN_Insert SL A zero mp ctx t = (mp', r)"
  shows "spec_Insert (pn_cfg mp) A zero (entries SL mp) ctx t = (entries SL mp', r) \<and>
    PN_wf SL cmpf X zero mp' \<and> pn_cfg mp' = pn_cfg mp"
  using PN_Insert_repr [OF assms(1,2) PN_wf_repr [OF assms(3)] assms(5)] assms(4)
  by (auto simp: fits_def dest!: PN_repr_wf)

theorem PN_Insert_refines_witness:
  "spec_Insert (pn_cfg pn_three) hex_addr_ops 0 (entries list_skiplist pn_three) (demo_ctx\<lparr>Priority := 8\<rparr>) (signed_tx [2] 0 [21]) =
     (entries list_skiplist (pn_insert pn_three 8 (signed_tx [2] 0 [21])), Ok ())"
proof -
  let ?t = "signed_tx [2] 0 [21]" and ?ctx = "demo_ctx\<lparr>Priority := 8\<rparr>"
  have "snd (PN_Insert list_skiplist hex_addr_ops 0 pn_three ?ctx ?t) = Ok ()" by code_simp
  then have "PN_Insert list_skiplist hex_addr_ops 0 pn_three ?ctx ?t = (pn_insert pn_three 8 ?t, Ok ())"
    unfolding pn_insert_def by (metis prod.collapse)
  from PN_Insert_refines [OF list_skiplist_laws pn_three_wf(2,1) fits_UNIV this] show ?thesis by blast
qed

text \<open>
  C16: Removal refines the removal from the map: the entry of the sender and the nonce of the first
  signature goes, whatever transaction it holds; without such an entry the result is
  \<open>ErrTxNotFound\<close>.
\<close>

theorem PN_Remove_refines:
  assumes "skiplist_laws SL cmpf" "linear_on X (ComparePriority (pc_TxPriority (pn_cfg mp)))"
    "PN_wf SL cmpf X zero mp" "PN_Remove SL A mp t = (mp', r)"
  shows "spec_Remove A (entries SL mp) t = (entries SL mp', r) \<and> PN_wf SL cmpf X zero mp' \<and> pn_cfg mp' = pn_cfg mp"
  using PN_Remove_repr [OF assms(1,2) PN_wf_repr [OF assms(3)] assms(4)] by (auto dest!: PN_repr_wf)

theorem PN_Remove_refines_witness:
  "spec_Remove hex_addr_ops (entries list_skiplist pn_three) (signed_tx [1] 1 []) =
     (entries list_skiplist (fst (PN_Remove list_skiplist hex_addr_ops pn_three (signed_tx [1] 1 []))), Ok ())"
proof -
  let ?t = "signed_tx [1] 1 []"
  have "snd (PN_Remove list_skiplist hex_addr_ops pn_three ?t) = Ok ()" by code_simp
  then have "PN_Remove list_skiplist hex_addr_ops pn_three ?t = (fst (PN_Remove list_skiplist hex_addr_ops pn_three ?t), Ok ())"
    by (metis prod.collapse)
  from PN_Remove_refines [OF list_skiplist_laws pn_three_wf(2,1) this] show ?thesis by blast
qed

text \<open>
  C23: Every mempool that insertions, removals and selections make from a new one is well-formed:
  the priority index, the counts, the sender indices and the scores all describe the same entries,
  and the lists are sorted by their keys.
\<close>

theorem PN_reach_wf:
  assumes "skiplist_laws SL cmpf" "linear_on X (ComparePriority (pc_TxPriority c))" "zero \<in> X"
    "PN_reach SL A X zero c mp"
  shows "PN_wf SL cmpf X zero mp \<and> pn_cfg mp = c"
  using PN_reach_repr [OF assms] by (auto simp: PN_wf_iff)

theorem PN_reach_wf_witness: "PN_wf list_skiplist fst UNIV 0 pn_three \<and> PN_CountTx list_skiplist pn_three = 3"
proof
  show "PN_wf list_skiplist fst UNIV 0 pn_three"
    using PN_reach_wf [OF list_skiplist_laws demo_linear UNIV_I pn_three_reach] by blast
  show "PN_CountTx list_skiplist pn_three = 3" by code_simp
qed

text \<open>
  C24: The number that \<open>CountTx\<close> reports is the number of entries, and in a reachable mempool it
  never exceeds a positive \<open>MaxTx\<close>; with a negative one it stays 0.
\<close>

theorem PN_count_bounded:
  assumes "skiplist_laws SL cmpf" "linear_on X (ComparePriority (pc_TxPriority c))" "zero \<in> X"
    "PN_reach SL A X zero c mp"
  shows "PN_CountTx SL mp = int (card (dom (entries SL mp))) \<and>
    (pc_MaxTx c > 0 \<longrightarrow> PN_CountTx SL mp \<le> pc_MaxTx c) \<and> (pc_MaxTx c < 0 \<longrightarrow> PN_CountTx SL mp = 0)"
proof -
  obtain M where M: "PN_repr SL cmpf X zero mp M" "pn_cfg mp = c" "within_cap c M" using PN_reach_repr [OF assms] by blast
  then have "PN_CountTx SL mp = int (card (dom M))" "entries SL mp = M"
    using PN_CountTx_repr [OF assms(1) _ M(1)] PN_repr_entries [OF M(1)] assms(2) by simp_all
  then show ?thesis using M(3) by (auto simp: within_cap_def)
qed



theorem PN_count_bounded_witness:
  "PN_CountTx list_skiplist (pn_insert (pn_insert (NewPriorityMempool list_skiplist capped_cfg)
     5 (signed_tx [1] 0 [10])) 9 (signed_tx [1] 1 [11])) \<le> 1" (is "PN_CountTx list_skiplist ?mp \<le> 1")
proof -
  have c: "pc_MaxTx capped_cfg = 1" "linear_cmp (ComparePriority (pc_TxPriority capped_cfg))"
    using demo_linear by (simp_all add: capped_cfg_def)
  have "PN_reach list_skiplist hex_addr_ops UNIV 0 capped_cfg ?mp" by (intro pn_insert_reach PN_reach.new)
  from PN_count_bounded [OF list_skiplist_laws c(2) UNIV_I this] show ?thesis unfolding c(1) by simp
qed

text \<open>
  C15: If the keys of the sender indices carry the current priorities, then a caller that walks the
  iterator of \<open>Select\<close> to its end gets, without a panic, every transaction of the mempool exactly
  once, and the transactions of each sender by rising nonce. Selecting changes weights only.
\<close>

theorem PN_Select_complete:
  assumes "skiplist_laws SL cmpf" "linear_on X (ComparePriority (pc_TxPriority (pn_cfg mp)))"
    "PN_wf SL cmpf X zero mp" "current (entries SL mp)" "PN_txs SL zero mp = (mp', r)"
  shows "PN_wf SL cmpf X zero mp' \<and> content (entries SL mp') = content (entries SL mp) \<and>
    (\<exists>ys. r = Ok (map snd ys) \<and> distinct (map fst ys) \<and> map_of ys = (\<lambda>i. map_option e_tx (entries SL mp i)) \<and>
       (\<forall>s. sorted_wrt (<) (map (\<lambda>y. snd (fst y)) (filter (\<lambda>y. fst (fst y) = s) ys))))"
proof -
  obtain M' ys where M': "PN_repr SL cmpf X zero mp' M'" "content M' = content (entries SL mp)" "r = Ok (map snd ys)"
    and ys: "\<And>s. from_sender s ys = sender_elems SL mp' s"
    using PN_txs_repr [OF assms(1,2) PN_wf_repr [OF assms(3)] assms(5)] assms(4) by blast
  define zs where "zs = map (\<lambda>x. ((sender (fst x), nonce (fst x)), snd x)) ys"
  have r: "r = Ok (map snd zs)" using M'(3) by (simp add: zs_def comp_def)
  note c = complete_of_senders [OF assms(1) M'(1) ys]
  have "map_option e_tx (M' i) = map_option e_tx (entries SL mp i)" for i
    using fun_cong [OF M'(2), of i] by (cases "M' i"; cases "entries SL mp i") (auto simp: content_def)
  then have "map_of zs = (\<lambda>i. map_option e_tx (entries SL mp i))" using c(2) by (simp add: zs_def)
  moreover have "distinct (map fst zs)" using c(1) by (simp add: zs_def comp_def)
  moreover have "map (\<lambda>y. snd (fst y)) (filter (\<lambda>y. fst (fst y) = s) zs) = map (\<lambda>x. nonce (fst x)) (from_sender s ys)" for s
    by (simp add: zs_def filter_map comp_def)
  ultimately show ?thesis
    using r M'(2) PN_repr_wf [OF M'(1)] sender_elems_nonces [OF assms(1) M'(1)] by (auto simp: ys)
qed

theorem PN_Select_complete_witness:
  "\<exists>ys. snd (PN_txs list_skiplist 0 pn_three) = Ok (map snd ys) \<and> distinct (map fst ys) \<and>
     map_of ys = (\<lambda>i. map_option e_tx (entries list_skiplist pn_three i)) \<and>
     map snd ys = [signed_tx [2] 0 [20], signed_tx [1] 0 [10], signed_tx [1] 1 [11]]"
proof -
  have "current (entries list_skiplist pn_three)" by (rule keys_current_D) code_simp
  note c = PN_Select_complete [OF list_skiplist_laws pn_three_wf(2,1) this prod.collapse [symmetric]]
  then obtain ys where ys: "snd (PN_txs list_skiplist 0 pn_three) = Ok (map snd ys)" "distinct (map fst ys)"
    "map_of ys = (\<lambda>i. map_option e_tx (entries list_skiplist pn_three i))" by blast
  have "snd (PN_txs list_skiplist 0 pn_three) = Ok [signed_tx [2] 0 [20], signed_tx [1] 0 [10], signed_tx [1] 1 [11]]"
    by code_simp
  then have "map snd ys = [signed_tx [2] 0 [20], signed_tx [1] 0 [10], signed_tx [1] 1 [11]]"
    unfolding ys(1) outcome.inject .
  then show ?thesis using ys by (intro exI [of _ ys]) blast
qed


text \<open>
  C39: \<open>NextSenderTx\<close> returns the transaction of the lowest nonce of a sender that has one and nil
  for a sender that never had one; for a sender whose transactions were all removed it panics,
  since the empty index stays in the map.
\<close>

theorem NextSenderTx_spec:
  assumes "skiplist_laws SL cmpf" "PN_wf SL cmpf X zero mp"
  shows "NextSenderTx SL mp s =
    (if map_of (senderIndices mp) s = None then Ok None
     else if \<exists>n. entries SL mp (s, n) \<noteq> None then
       Ok (Some (e_tx (the (entries SL mp (s, LEAST n. entries SL mp (s, n) \<noteq> None)))))
     else Panic ''nil pointer dereference'')"
proof (cases "map_of (senderIndices mp) s")
  case None
  then show ?thesis by (simp add: NextSenderTx_def)
next
  case (Some l)
  note r = PN_wf_repr [OF assms(2)]
  have se: "sl_Elems SL l = sender_elems SL mp s" using Some by (simp add: sender_elems_def)
  note iff = sender_elems_repr(1) [OF r, of s]
  show ?thesis
  proof (cases "sender_elems SL mp s")
    case Nil
    then have "entries SL mp (s, n) = None" for n
      using iff by (cases "entries SL mp (s, n)") (auto simp: elems_of_def of_sender_def)
    then show ?thesis using Some se Nil by (simp add: NextSenderTx_def)
  next
    case (Cons x xs)
    then have "x \<in> elems_of (selem zero s) (of_sender s (entries SL mp))" using iff by auto
    then obtain n e where e: "entries SL mp (s, n) = Some e" "x = selem zero s n e"
      by (auto simp: elems_of_iff of_sender_def)
    have "n \<le> m" if m: "entries SL mp (s, m) \<noteq> None" for m
    proof -
      obtain f where "entries SL mp (s, m) = Some f" using m by blast
      then have "selem zero s m f \<in> set (x # xs)"
        unfolding Cons [symmetric] iff elems_of_iff of_sender_def by blast
      moreover have "\<forall>y \<in> set xs. nonce (fst x) < nonce (fst y)"
        using sender_elems_nonces [OF assms(1) r, of s] Cons by simp
      ultimately show ?thesis using e(2) by (force simp: skey_def)
    qed
    then have "(LEAST n. entries SL mp (s, n) \<noteq> None) = n" using e(1) by (intro Least_equality) auto
    then show ?thesis using Some se Cons e by (auto simp: NextSenderTx_def)
  qed
qed

theorem NextSenderTx_spec_witness:
  "NextSenderTx list_skiplist pn_emptied ''01'' = Panic ''nil pointer dereference'' \<and>
   NextSenderTx list_skiplist pn_emptied ''02'' = Ok None"
proof -
  have r: "PN_reach list_skiplist hex_addr_ops UNIV 0 (DefaultPriorityNonceMempoolConfig list_skiplist) pn_emptied"
    unfolding pn_emptied_def DefaultPriorityMempool_def
    by (rule PN_reach.rem [OF pn_insert_reach [OF PN_reach.new] prod.collapse [symmetric]])
  note s = NextSenderTx_spec [OF list_skiplist_laws demo_reach_wf(1) [OF r]]
  have "PN_CountTx list_skiplist pn_emptied = 0" by code_simp
  then have "entries list_skiplist pn_emptied (s, n) = None" for s n
    using PN_CountTx_repr [OF list_skiplist_laws demo_reach_wf(2) PN_wf_repr [OF demo_reach_wf(1)], OF r r]
      PN_reprD(1) [OF PN_wf_repr [OF demo_reach_wf(1) [OF r]]] by simp
  moreover have "\<not> Option.is_none (map_of (senderIndices pn_emptied) ''01'')"
    "Option.is_none (map_of (senderIndices pn_emptied) ''02'')" by code_simp+
  ultimately show ?thesis unfolding s Option.is_none_def by simp
qed

section \<open>Emptiness\<close>

lemma IsEmpty_iff:
  assumes "skiplist_laws SL cmpf" "linear_on X (ComparePriority (pc_TxPriority (pn_cfg mp)))" "PN_wf SL cmpf X zero mp"
  shows "IsEmpty SL mp = Ok () \<longleftrightarrow> entries SL mp = Map.empty"
proof
  note r = PN_wf_repr [OF assms(3)]
  have len: "length (sl_Elems SL (priorityIndex mp)) = card (dom (entries SL mp))"
    by (rule index_length [OF assms(1,2) PN_reprD(2) [OF r]])
  show "entries SL mp = Map.empty" if "IsEmpty SL mp = Ok ()"
  proof -
    have "sl_Len SL (priorityIndex mp) = 0" using that by (simp add: IsEmpty_def split: if_splits)
    then have "card (dom (entries SL mp)) = 0" using len by (simp add: skiplist_lawsD [OF assms(1)])
    then show ?thesis using PN_reprD(1) [OF r] by simp
  qed
  assume e: "entries SL mp = Map.empty"
  have "count_of (priorityCounts mp) p = 0" for p using PN_reprD(3) [OF r, of p] e by (simp add: prio_ids_def)
  moreover have "sl_Len SL l = 0" if "map_of (senderIndices mp) s = Some l" for s l
    using sender_reprD(3) [OF PN_reprD(5) [OF r that]] e by (simp add: elems_of_def of_sender_def skiplist_lawsD [OF assms(1)])
  ultimately show "IsEmpty SL mp = Ok ()"
    using len e by (auto simp: IsEmpty_def skiplist_lawsD [OF assms(1)] list_ex_iff split: option.splits)
qed

end
