(* ===== verification/Lane_Mempool_Correct.thy ===== *)
theory Lane_Mempool_Correct
  imports Priority_Nonce_Props
begin

text \<open>
  The lane mempool on the priority nonce mempool. The contract between the two is the locale
  \<open>tx_index\<close>; the lane mempool relies on it to keep its cache of hashes in step with the index.
\<close>

section \<open>The cache\<close>

lemma CM_Contains_iff: "CM_Contains sha cm t \<longleftrightarrow> (\<exists>bz h. cm_hash sha cm t = Ok (bz, h) \<and> h \<in> cm_txCache cm)"
  by (auto simp: CM_Contains_def split: outcome.splits)

lemma cm_hash_cong: "cm_txEncoder cm' = cm_txEncoder cm \<Longrightarrow> cm_hash sha cm' t = cm_hash sha cm t"
  by (simp add: cm_hash_def)

lemma CM_Contains_mono:
  "cm_txEncoder cm' = cm_txEncoder cm \<Longrightarrow> cm_txCache cm \<subseteq> cm_txCache cm' \<Longrightarrow> CM_Contains sha cm t \<Longrightarrow> CM_Contains sha cm' t"
  using cm_hash_cong [of cm' cm] by (auto simp: CM_Contains_iff)

text \<open>What the operations do with the index and the cache.\<close>

lemma CM_Remove_effect:
  assumes "CM_Remove IX sha cm t = (cm', r)" "idx_Remove IX (cm_index cm) t = (i', r')"
  shows "cm_index cm' = i'" "cm_txEncoder cm' = cm_txEncoder cm"
    "cm_txCache cm' = cm_txCache cm \<or> (\<exists>bz th. cm_hash sha cm t = Ok (bz, th) \<and> cm_txCache cm' = cm_txCache cm - {th})"
  using assms by (auto simp: CM_Remove_def cm_hash_def Let_def split: outcome.splits prod.splits if_splits option.splits)

lemma CM_Insert_effect:
  assumes "CM_Insert IX sha cm ctx t = (cm', r)" "idx_Insert IX (cm_index cm) ctx t = (i', r')" "\<And>s. r \<noteq> Panic s"
  shows "r' \<noteq> Ok () \<and> cm' = cm\<lparr>cm_index := i'\<rparr> \<or>
    r' = Ok () \<and> (\<exists>bz h. cm_hash sha cm t = Ok (bz, h) \<and> cm' = cm\<lparr>cm_index := i', cm_txCache := insert h (cm_txCache cm)\<rparr>) \<or>
    r' = Ok () \<and> \<not> is_Ok (cm_hash sha cm t) \<and> (\<exists>q. CM_Remove IX sha (cm\<lparr>cm_index := i'\<rparr>) t = (cm', q))"
  using assms cm_hash_cong [of "cm\<lparr>cm_index := i'\<rparr>" cm sha t]
  by (auto simp: CM_Insert_def Let_def split: outcome.splits prod.splits)

section \<open>The contract of an index\<close>

text \<open>
  \<open>ident\<close> is what tells transactions apart, \<open>held\<close> the transactions of the index, \<open>good\<close> the
  invariant of the index; the laws of insertion hold for the transactions that are \<open>admitted\<close>.
\<close>

locale tx_index =
  fixes IX :: "('i, 'b) index_ops"
    and ident :: "tx \<Rightarrow> 'k option"
    and held :: "'i \<Rightarrow> 'k \<rightharpoonup> tx"
    and good :: "'i \<Rightarrow> bool"
    and admitted :: "'b Context \<Rightarrow> tx \<Rightarrow> bool"
  assumes ins_good: "good i \<Longrightarrow> admitted ctx t \<Longrightarrow> idx_Insert IX i ctx t = (i', r) \<Longrightarrow> good i'"
    and rem_good: "good i \<Longrightarrow> idx_Remove IX i t = (i', r) \<Longrightarrow> good i'"
    and sel_good: "good i \<Longrightarrow> idx_Select IX i = (i', ts) \<Longrightarrow> good i' \<and> held i' = held i"
    and held_ident: "good i \<Longrightarrow> held i k = Some t \<Longrightarrow> ident t = Some k"
    and ins_Ok: "good i \<Longrightarrow> admitted ctx t \<Longrightarrow> idx_Insert IX i ctx t = (i', Ok ()) \<Longrightarrow>
      held i' = held i \<or> (\<exists>k. ident t = Some k \<and> held i' = (held i)(k \<mapsto> t))"
    and ins_fail: "good i \<Longrightarrow> admitted ctx t \<Longrightarrow> idx_Insert IX i ctx t = (i', r) \<Longrightarrow> r \<noteq> Ok () \<Longrightarrow> held i' = held i"
    and rem_present: "good i \<Longrightarrow> ident t = Some k \<Longrightarrow> held i k \<noteq> None \<Longrightarrow> idx_Remove IX i t = (i', r) \<Longrightarrow>
      r = Ok () \<and> held i' = (held i)(k := None)"
    and rem_absent: "good i \<Longrightarrow> ident t = None \<or> held i (the (ident t)) = None \<Longrightarrow> idx_Remove IX i t = (i', r) \<Longrightarrow> held i' = held i"
begin

text \<open>Every transaction of the index is in the cache.\<close>

definition covered :: "(bytes \<Rightarrow> bytes) \<Rightarrow> ('i, 'p, 'b) ConstructorMempool \<Rightarrow> bool" where
  "covered sha cm \<longleftrightarrow> good (cm_index cm) \<and> (\<forall>k t. held (cm_index cm) k = Some t \<longrightarrow> CM_Contains sha cm t)"

lemma held_after_remove:
  assumes "good i" "idx_Remove IX i t = (i', r)"
  shows "held i' = (case ident t of None \<Rightarrow> held i | Some k \<Rightarrow> (held i)(k := None))"
proof (cases "ident t = None \<or> held i (the (ident t)) = None")
  case True
  then show ?thesis using rem_absent [OF assms(1) True assms(2)] by (auto split: option.splits)
next
  case False
  then obtain k where k: "ident t = Some k" "held i k \<noteq> None" by auto
  then show ?thesis using rem_present [OF assms(1) k assms(2)] by simp
qed



lemma CM_Remove_covered:
  assumes c: "covered sha cm" and r: "CM_Remove IX sha cm t = (cm', r)"
    and hash: "\<And>u bz bz' h. cm_hash sha cm t = Ok (bz, h) \<Longrightarrow> cm_hash sha cm u = Ok (bz', h) \<Longrightarrow> ident u = ident t"
  shows "covered sha cm'"
proof -
  obtain i' r' where i: "idx_Remove IX (cm_index cm) t = (i', r')" by fastforce
  have h: "held i' = (case ident t of None \<Rightarrow> held (cm_index cm) | Some k \<Rightarrow> (held (cm_index cm))(k := None))"
    and g: "good i'"
    using held_after_remove [OF _ i] rem_good [OF _ i] c by (simp_all add: covered_def)
  note cm' = CM_Remove_effect [OF r i]
  have "CM_Contains sha cm' u" if u: "held i' k = Some u" for k u
  proof -
    have k: "held (cm_index cm) k = Some u" "ident t \<noteq> Some k"
      using u h by (auto split: option.splits if_splits)
    then have "ident u \<noteq> ident t" using held_ident c by (auto simp: covered_def)
    moreover have "CM_Contains sha cm u" using c k(1) by (auto simp: covered_def)
    ultimately obtain bz h where bz: "cm_hash sha cm u = Ok (bz, h)" "h \<in> cm_txCache cm" "ident u \<noteq> ident t"
      by (auto simp: CM_Contains_iff)
    then have "h \<in> cm_txCache cm'" using cm'(3) hash by blast
    then show ?thesis using bz(1) cm_hash_cong [OF cm'(2)] by (auto simp: CM_Contains_iff)
  qed
  then show ?thesis using g cm'(1) by (simp add: covered_def)
qed

lemma CM_Insert_covered:
  assumes c: "covered sha cm" and r: "CM_Insert IX sha cm ctx t = (cm', r)" and np: "\<And>s. r \<noteq> Panic s"
    and ad: "admitted ctx t"
  shows "covered sha cm'"
proof -
  obtain i' r' where i: "idx_Insert IX (cm_index cm) ctx t = (i', r')" by fastforce
  have g: "good (cm_index cm)" "good i'" using c ins_good [OF _ ad i] by (simp_all add: covered_def)
  from CM_Insert_effect [OF r i np] show ?thesis
  proof (elim disjE conjE exE)
    assume "r' \<noteq> Ok ()" "cm' = cm\<lparr>cm_index := i'\<rparr>"
    then show ?thesis using ins_fail [OF g(1) ad i] c g CM_Contains_mono [of cm' cm sha] by (simp add: covered_def)
  next
    fix bz h
    assume ok: "r' = Ok ()" and h: "cm_hash sha cm t = Ok (bz, h)"
      and cm': "cm' = cm\<lparr>cm_index := i', cm_txCache := insert h (cm_txCache cm)\<rparr>"
    have "CM_Contains sha cm' t" using h cm_hash_cong [of cm' cm sha t] cm' by (auto simp: CM_Contains_iff)
    moreover have "CM_Contains sha cm u \<Longrightarrow> CM_Contains sha cm' u" for u
      using CM_Contains_mono [of cm' cm sha u] cm' by auto
    ultimately show ?thesis using ins_Ok [OF g(1) ad i [unfolded ok]] c g(2) cm' by (auto simp: covered_def split: if_splits)
  next
    fix q
    assume ok: "r' = Ok ()" and h: "\<not> is_Ok (cm_hash sha cm t)" and q: "CM_Remove IX sha (cm\<lparr>cm_index := i'\<rparr>) t = (cm', q)"
    obtain i2 r2 where i2: "idx_Remove IX i' t = (i2, r2)" by fastforce
    have "held i2 = (case ident t of None \<Rightarrow> held i' | Some k \<Rightarrow> (held i')(k := None))" by (rule held_after_remove [OF g(2) i2])
    then have "held i2 \<subseteq>\<^sub>m held (cm_index cm)"
      using ins_Ok [OF g(1) ad i [unfolded ok]] by (elim disjE exE conjE) (auto simp: map_le_def split: option.splits)
    then have "held i2 k = Some u \<Longrightarrow> held (cm_index cm) k = Some u" for k u by (auto simp: map_le_def dom_def)
    moreover have i2': "idx_Remove IX (cm_index (cm\<lparr>cm_index := i'\<rparr>)) t = (i2, r2)" using i2 by simp
    note e = CM_Remove_effect [OF q i2']
    have hh: "cm_hash sha (cm\<lparr>cm_index := i'\<rparr>) t = cm_hash sha cm t" by (rule cm_hash_cong) simp
    have "cm_txCache cm' = cm_txCache cm" using e(3) h unfolding hh is_Ok_iff by auto
    moreover have "good i2" by (rule rem_good [OF g(2) i2])
    ultimately show ?thesis using c e(1,2) CM_Contains_mono [of cm' cm sha] by (simp add: covered_def) blast
  qed
qed

lemma CM_Select_covered:
  assumes c: "covered sha cm" and r: "CM_Select IX cm = (cm', ts)"
  shows "covered sha cm'"
proof -
  obtain i' us where i: "idx_Select IX (cm_index cm) = (i', us)" by fastforce
  then have cm': "cm' = cm\<lparr>cm_index := i'\<rparr>" using r by (simp add: CM_Select_def)
  then show ?thesis
    using sel_good [OF _ i] c CM_Contains_mono [of cm' cm sha] by (simp add: covered_def)
qed

end

section \<open>The priority nonce mempool as an index\<close>

text \<open>
  The methods of \<^verbatim>\<open>sdkmempool.Mempool\<close>; selecting never ends in an error or a panic on a well-formed
  mempool (\<open>PN_txs_repr\<close>), so that case is left empty.
\<close>

definition PN_index :: "('s, 'p) txlists \<Rightarrow> addr_ops \<Rightarrow> 'p \<Rightarrow> (('s, 'p, 'b) PriorityNonceMempool, 'b) index_ops" where
  "PN_index SL A zero =
     \<lparr>idx_Insert = PN_Insert SL A zero, idx_Remove = PN_Remove SL A,
      idx_Select = (\<lambda>mp. case PN_txs SL zero mp of (mp', Ok ts) \<Rightarrow> (mp', ts) | (mp', _) \<Rightarrow> (mp', [])),
      idx_CountTx = PN_CountTx SL\<rparr>"

text \<open>The index that \<open>NewConstructorMempool\<close> makes.\<close>

definition new_lane_index :: "('s, 'p) txlists \<Rightarrow> ('p, 'b) TxPriority \<Rightarrow> int \<Rightarrow> ('s, 'p, 'b) PriorityNonceMempool" where
  "new_lane_index SL txPriority maxTx =
     NewPriorityMempool SL \<lparr>pc_TxPriority = txPriority, OnRead = None, TxReplacement = None, pc_MaxTx = maxTx\<rparr>"

definition sender_nonce :: "addr_ops \<Rightarrow> tx \<Rightarrow> (string \<times> nat) option" where
  "sender_nonce A t = (case first_signature A '''' t of Ok i \<Rightarrow> Some i | _ \<Rightarrow> None)"

definition txs_of :: "('i \<rightharpoonup> 'p entry) \<Rightarrow> 'i \<rightharpoonup> tx" where
  "txs_of M i = map_option e_tx (M i)"

definition held_txs :: "('s, 'p) txlists \<Rightarrow> ('s, 'p, 'b) PriorityNonceMempool \<Rightarrow> string \<times> nat \<rightharpoonup> tx" where
  "held_txs SL mp = txs_of (entries SL mp)"

text \<open>
  A good index with the priority \<open>P\<close>: it is well-formed, every entry sits under its first signer and
  nonce, and its recorded priority is the one that \<open>P\<close> gave the transaction.
\<close>

definition good_index ::
  "('s, 'p) txlists \<Rightarrow> ('s \<Rightarrow> 'p txMeta \<Rightarrow> 'p txMeta \<Rightarrow> int) \<Rightarrow> 'p set \<Rightarrow> ('p, 'b) TxPriority \<Rightarrow> addr_ops \<Rightarrow> 'p \<Rightarrow> ('s, 'p, 'b) PriorityNonceMempool \<Rightarrow> bool" where
  "good_index SL cmpf X P A zero mp \<longleftrightarrow>
     skiplist_laws SL cmpf \<and> pc_TxPriority (pn_cfg mp) = P \<and> linear_on X (ComparePriority P) \<and>
     PN_wf SL cmpf X zero mp \<and>
     (\<forall>i t. held_txs SL mp i = Some t \<longrightarrow> sender_nonce A t = Some i) \<and>
     (\<forall>i e. entries SL mp i = Some e \<longrightarrow> (\<exists>ctx. GetTxPriority P ctx (e_tx e) = Ok (e_prio e)))"

lemma txs_of_simps [simp]:
  "txs_of (M(i \<mapsto> e)) = (txs_of M)(i \<mapsto> e_tx e)" "txs_of (M(i := None)) = (txs_of M)(i := None)"
  "txs_of M i = None \<longleftrightarrow> M i = None"
  by (auto simp: txs_of_def fun_eq_iff)

lemma good_indexD:
  assumes "good_index SL cmpf X P A zero mp"
  shows "skiplist_laws SL cmpf" "linear_on X (ComparePriority (pc_TxPriority (pn_cfg mp)))" "PN_wf SL cmpf X zero mp"
    "held_txs SL mp i = Some t \<Longrightarrow> sender_nonce A t = Some i" "pc_TxPriority (pn_cfg mp) = P"
    "entries SL mp i = Some e \<Longrightarrow> \<exists>ctx. GetTxPriority P ctx (e_tx e) = Ok (e_prio e)"
  using assms unfolding good_index_def by blast+

lemma first_signature_msg: "first_signature A m t = Ok i \<longleftrightarrow> sender_nonce A t = Some i"
  by (auto simp: first_signature_def sender_nonce_def obind_def split: option.splits prod.splits outcome.splits list.splits)

lemma content_held: "content (entries SL mp') = content (entries SL mp) \<Longrightarrow> held_txs SL mp' = held_txs SL mp"
proof
  fix i
  assume "content (entries SL mp') = content (entries SL mp)"
  from fun_cong [OF this, of i] show "held_txs SL mp' i = held_txs SL mp i"
    by (cases "entries SL mp' i"; cases "entries SL mp i") (auto simp: content_def held_txs_def txs_of_def)
qed

lemma PN_Insert_held:
  assumes g: "good_index SL cmpf X P A zero mp" and f: "fits P X ctx t"
    and i: "PN_Insert SL A zero mp ctx t = (mp', r)"
  shows "good_index SL cmpf X P A zero mp'"
    "r \<noteq> Ok () \<Longrightarrow> held_txs SL mp' = held_txs SL mp"
    "held_txs SL mp' = held_txs SL mp \<or> (\<exists>k. sender_nonce A t = Some k \<and> held_txs SL mp' = (held_txs SL mp)(k \<mapsto> t))"
proof -
  note g' = good_indexD [OF g]
  obtain M' where s: "spec_Insert (pn_cfg mp) A zero (entries SL mp) ctx t = (M', r)" and M': "PN_repr SL cmpf X zero mp' M'" "pn_cfg mp' = pn_cfg mp"
    using PN_Insert_repr [OF g'(1,2) PN_wf_repr [OF g'(3)] i] f g'(5) by (auto simp: fits_def)
  have w: "PN_wf SL cmpf X zero mp'" "entries SL mp' = M'" using PN_repr_wf [OF M'(1)] by simp_all
  have M: "M' = entries SL mp \<or> r = Ok () \<and>
      (\<exists>k p. sender_nonce A t = Some k \<and> GetTxPriority P ctx t = Ok p \<and>
         M' = (entries SL mp)(k \<mapsto> spec_entry zero (entries SL mp) k p t))"
    using s g'(5) by (auto simp: spec_Insert_def obind_eq_Ok first_signature_msg split: if_splits outcome.splits)
  have "e_tx (spec_entry zero (entries SL mp) k p t) = t" for k p by (simp add: spec_entry_def)
  with M show h: "held_txs SL mp' = held_txs SL mp \<or> (\<exists>k. sender_nonce A t = Some k \<and> held_txs SL mp' = (held_txs SL mp)(k \<mapsto> t))"
    unfolding held_txs_def w(2) by (metis txs_of_simps(1))
  show "r \<noteq> Ok () \<Longrightarrow> held_txs SL mp' = held_txs SL mp" using M w(2) by (metis held_txs_def)
  have "sender_nonce A u = Some i" if "held_txs SL mp' i = Some u" for i u
    using h g'(4) [of i u] that by (auto split: if_splits)
  moreover have "\<exists>ctx. GetTxPriority P ctx (e_tx e) = Ok (e_prio e)" if "entries SL mp' i = Some e" for i e
  proof (cases "M' = entries SL mp \<or> sender_nonce A t \<noteq> Some i")
    case True
    then have "entries SL mp i = Some e" using that M unfolding w(2) by auto
    then show ?thesis by (rule g'(6))
  next
    case False
    then show ?thesis using that M unfolding w(2) by (intro exI [of _ ctx]) (auto simp: spec_entry_def)
  qed
  ultimately show "good_index SL cmpf X P A zero mp'" using g'(1,2,5) w(1) M'(2) by (simp add: good_index_def)
qed

lemma PN_Remove_held:
  assumes g: "good_index SL cmpf X P A zero mp" and i: "PN_Remove SL A mp t = (mp', r)"
  shows "good_index SL cmpf X P A zero mp'"
    "sender_nonce A t = Some k \<Longrightarrow> held_txs SL mp k \<noteq> None \<Longrightarrow> r = Ok () \<and> held_txs SL mp' = (held_txs SL mp)(k := None)"
    "sender_nonce A t = None \<or> held_txs SL mp (the (sender_nonce A t)) = None \<Longrightarrow> held_txs SL mp' = held_txs SL mp"
proof -
  note g' = good_indexD [OF g]
  obtain M' where s: "spec_Remove A (entries SL mp) t = (M', r)" and M': "PN_repr SL cmpf X zero mp' M'" "pn_cfg mp' = pn_cfg mp"
    using PN_Remove_repr [OF g'(1,2) PN_wf_repr [OF g'(3)] i] by blast
  have w: "PN_wf SL cmpf X zero mp'" "entries SL mp' = M'" using PN_repr_wf [OF M'(1)] by simp_all
  have M: "if \<exists>k. sender_nonce A t = Some k \<and> entries SL mp k \<noteq> None
      then r = Ok () \<and> M' = (entries SL mp)(the (sender_nonce A t) := None) else M' = entries SL mp"
    using s by (auto simp: spec_Remove_def first_signature_msg first_signature_msg [THEN iffD2] split: if_splits outcome.splits)
  show "sender_nonce A t = Some k \<Longrightarrow> held_txs SL mp k \<noteq> None \<Longrightarrow> r = Ok () \<and> held_txs SL mp' = (held_txs SL mp)(k := None)"
    using M unfolding held_txs_def w(2) by (auto split: if_splits)
  show "sender_nonce A t = None \<or> held_txs SL mp (the (sender_nonce A t)) = None \<Longrightarrow> held_txs SL mp' = held_txs SL mp"
    using M unfolding held_txs_def w(2) by (auto split: if_splits)
  have "sender_nonce A u = Some i" if "held_txs SL mp' i = Some u" for i u
    using M g'(4) [of i u] that unfolding held_txs_def w(2) by (auto split: if_splits)
  moreover have "\<exists>ctx. GetTxPriority P ctx (e_tx e) = Ok (e_prio e)" if "entries SL mp' i = Some e" for i e
    using that M g'(6) [of i e] unfolding w(2) by (auto split: if_splits)
  ultimately show "good_index SL cmpf X P A zero mp'" using g'(1,2,5) w(1) M'(2) by (simp add: good_index_def)
qed

lemma PN_txs_held:
  assumes g: "good_index SL cmpf X P A zero mp" and i: "PN_txs SL zero mp = (mp', r)"
  shows "good_index SL cmpf X P A zero mp' \<and> held_txs SL mp' = held_txs SL mp \<and> is_Ok r"
proof -
  note g' = good_indexD [OF g]
  obtain M' where M': "PN_repr SL cmpf X zero mp' M'" "content M' = content (entries SL mp)" "pn_cfg mp' = pn_cfg mp" "is_Ok r"
    using PN_txs_repr [OF g'(1,2) PN_wf_repr [OF g'(3)] i] by auto
  have w: "PN_wf SL cmpf X zero mp'" "entries SL mp' = M'" using PN_repr_wf [OF M'(1)] by simp_all
  have "held_txs SL mp' = held_txs SL mp" by (rule content_held) (simp add: w(2) M'(2))
  moreover have "\<exists>ctx. GetTxPriority P ctx (e_tx e) = Ok (e_prio e)" if "entries SL mp' i = Some e" for i e
    using content_eqD(3) [OF M'(2) [symmetric], of i e] that g'(6) [of i] unfolding w(2) by fastforce
  ultimately show ?thesis using g' w(1) M'(3,4) by (simp add: good_index_def)
qed

interpretation pn: tx_index "PN_index SL A zero" "sender_nonce A" "held_txs SL" "good_index SL cmpf X P A zero" "fits P X"
  for SL :: "('s, 'p) txlists" and cmpf X and P :: "('p, 'b) TxPriority" and A zero
proof unfold_locales
  fix mp mp' :: "('s, 'p, 'b) PriorityNonceMempool" and ctx :: "'b Context" and t r ts k
  assume g: "good_index SL cmpf X P A zero mp"
  note ins = PN_Insert_held [OF g] and rem = PN_Remove_held [OF g]
  show "fits P X ctx t \<Longrightarrow> idx_Insert (PN_index SL A zero) mp ctx t = (mp', r) \<Longrightarrow> good_index SL cmpf X P A zero mp'"
    "fits P X ctx t \<Longrightarrow> idx_Insert (PN_index SL A zero) mp ctx t = (mp', Ok ()) \<Longrightarrow>
       held_txs SL mp' = held_txs SL mp \<or> (\<exists>k. sender_nonce A t = Some k \<and> held_txs SL mp' = (held_txs SL mp)(k \<mapsto> t))"
    "fits P X ctx t \<Longrightarrow> idx_Insert (PN_index SL A zero) mp ctx t = (mp', r) \<Longrightarrow> r \<noteq> Ok () \<Longrightarrow> held_txs SL mp' = held_txs SL mp"
    using ins by (simp_all add: PN_index_def)
  show "idx_Remove (PN_index SL A zero) mp t = (mp', r) \<Longrightarrow> good_index SL cmpf X P A zero mp'"
    "sender_nonce A t = Some k \<Longrightarrow> held_txs SL mp k \<noteq> None \<Longrightarrow> idx_Remove (PN_index SL A zero) mp t = (mp', r) \<Longrightarrow>
       r = Ok () \<and> held_txs SL mp' = (held_txs SL mp)(k := None)"
    "sender_nonce A t = None \<or> held_txs SL mp (the (sender_nonce A t)) = None \<Longrightarrow>
       idx_Remove (PN_index SL A zero) mp t = (mp', r) \<Longrightarrow> held_txs SL mp' = held_txs SL mp"
    using rem by (simp_all add: PN_index_def)
  show "idx_Select (PN_index SL A zero) mp = (mp', ts) \<Longrightarrow> good_index SL cmpf X P A zero mp' \<and> held_txs SL mp' = held_txs SL mp"
    using PN_txs_held [OF g] by (auto simp: PN_index_def split: prod.splits outcome.splits)
  show "held_txs SL mp k = Some t \<Longrightarrow> sender_nonce A t = Some k"
    by (rule good_indexD(4) [OF g])
qed

section \<open>Reachable lane mempools\<close>

text \<open>
  The states that the operations make of a new lane mempool, as long as none of them panics
  (which only a missing encoder or a transaction that is not \<^verbatim>\<open>SigVerifiableTx\<close> can cause).
\<close>

inductive CM_reach ::
  "('s, 'p) txlists \<Rightarrow> addr_ops \<Rightarrow> 'p set \<Rightarrow> 'p \<Rightarrow> (bytes \<Rightarrow> bytes) \<Rightarrow> ('p, 'b) TxPriority \<Rightarrow> tx_encoder option \<Rightarrow> int
   \<Rightarrow> (('s, 'p, 'b) PriorityNonceMempool, 'p, 'b) ConstructorMempool \<Rightarrow> bool"
  for SL :: "('s, 'p) txlists" and A X and zero :: 'p and sha and P :: "('p, 'b) TxPriority" and enc and maxTx where
  new: "CM_reach SL A X zero sha P enc maxTx (NewConstructorMempool (new_lane_index SL) P enc maxTx)"
| ins: "CM_reach SL A X zero sha P enc maxTx cm \<Longrightarrow> fits P X ctx t \<Longrightarrow> CM_Insert (PN_index SL A zero) sha cm ctx t = (cm', r) \<Longrightarrow>
    (\<And>s. r \<noteq> Panic s) \<Longrightarrow> CM_reach SL A X zero sha P enc maxTx cm'"
| rem: "CM_reach SL A X zero sha P enc maxTx cm \<Longrightarrow> CM_Remove (PN_index SL A zero) sha cm t = (cm', r) \<Longrightarrow>
    CM_reach SL A X zero sha P enc maxTx cm'"
| sel: "CM_reach SL A X zero sha P enc maxTx cm \<Longrightarrow> CM_Select (PN_index SL A zero) cm = (cm', ts) \<Longrightarrow>
    CM_reach SL A X zero sha P enc maxTx cm'"

lemma CM_reach_encoder: "CM_reach SL A X zero sha P enc maxTx cm \<Longrightarrow> cm_txEncoder cm = enc"
proof (induction rule: CM_reach.induct)
  case new
  then show ?case by (simp add: NewConstructorMempool_def)
next
  case (ins cm ctx t cm' r)
  then show ?case
    by (auto simp: CM_Insert_def CM_Remove_def Let_def split: prod.splits outcome.splits if_splits)
next
  case (rem cm t cm' r)
  then show ?case using CM_Remove_effect(2) [OF rem.hyps(2)] by (metis surj_pair)
next
  case (sel cm cm' ts)
  then show ?case by (auto simp: CM_Select_def split: prod.splits)
qed

text \<open>Two transactions with the same hash have the same first signer and nonce.\<close>

definition hash_identifies :: "(bytes \<Rightarrow> bytes) \<Rightarrow> tx_encoder option \<Rightarrow> addr_ops \<Rightarrow> bool" where
  "hash_identifies sha enc A \<longleftrightarrow>
     (\<forall>e t u bz bz' h. enc = Some e \<and> GetTxHashStr sha e t = Ok (bz, h) \<and> GetTxHashStr sha e u = Ok (bz', h) \<longrightarrow>
        sender_nonce A t = sender_nonce A u)"

lemma new_index_good:
  assumes "skiplist_laws SL cmpf" "linear_on X (ComparePriority P)" "zero \<in> X"
  shows "good_index SL cmpf X P A zero (new_lane_index SL P maxTx)" "held_txs SL (new_lane_index SL P maxTx) = Map.empty"
proof -
  have r: "PN_repr SL cmpf X zero (new_lane_index SL P maxTx) Map.empty"
    unfolding new_lane_index_def by (rule PN_New_repr [OF assms(1,3)])
  have "PN_wf SL cmpf X zero (new_lane_index SL P maxTx)" "entries SL (new_lane_index SL P maxTx) = Map.empty"
    using PN_repr_wf [OF r] by simp_all
  moreover have "pc_TxPriority (pn_cfg (new_lane_index SL P maxTx)) = P" by (simp add: new_lane_index_def NewPriorityMempool_def)
  ultimately show "good_index SL cmpf X P A zero (new_lane_index SL P maxTx)" "held_txs SL (new_lane_index SL P maxTx) = Map.empty"
    using assms by (simp_all add: good_index_def held_txs_def txs_of_def fun_eq_iff [of "txs_of _"])
qed

lemma CM_reach_covered:
  assumes laws: "skiplist_laws SL cmpf" and lin: "linear_on X (ComparePriority P)" "zero \<in> X" and hash: "hash_identifies sha enc A"
    and reach: "CM_reach SL A X zero sha P enc maxTx cm"
  shows "pn.covered SL cmpf X P A zero sha cm"
  using reach
proof induction
  case new
  have "good_index SL cmpf X P A zero (new_lane_index SL P maxTx)" "held_txs SL (new_lane_index SL P maxTx) = Map.empty"
    by (rule new_index_good [OF laws lin])+
  then show ?case unfolding pn.covered_def by (simp add: NewConstructorMempool_def)
next
  case (ins cm ctx t cm' r)
  show ?case by (rule pn.CM_Insert_covered [OF ins.IH ins.hyps(3,4,2)])
next
  case (rem cm t cm' r)
  have "sender_nonce A u = sender_nonce A t" if hs: "cm_hash sha cm t = Ok (bz, h)" "cm_hash sha cm u = Ok (bz', h)" for u bz bz' h
  proof -
    obtain e where e: "enc = Some e" "GetTxHashStr sha e t = Ok (bz, h)" "GetTxHashStr sha e u = Ok (bz', h)"
      using hs CM_reach_encoder [OF rem.hyps(1)] by (auto simp: cm_hash_def split: option.splits)
    then show ?thesis using hash unfolding hash_identifies_def by blast
  qed
  then show ?case by (rule pn.CM_Remove_covered [OF rem.IH rem.hyps(2)])
next
  case (sel cm cm' ts)
  show ?case by (rule pn.CM_Select_covered [OF sel.IH sel.hyps(2)])
qed

lemma CM_reach_priority: "CM_reach SL A X zero sha P enc maxTx cm \<Longrightarrow> cm_txPriority cm = P"
proof (induction rule: CM_reach.induct)
  case new
  then show ?case by (simp add: NewConstructorMempool_def)
next
  case (ins cm ctx t cm' r)
  then show ?case
    by (auto simp: CM_Insert_def CM_Remove_def Let_def split: prod.splits outcome.splits if_splits)
next
  case (rem cm t cm' r)
  then show ?case by (auto simp: CM_Remove_def Let_def split: prod.splits outcome.splits if_splits)
next
  case (sel cm cm' ts)
  then show ?case by (auto simp: CM_Select_def split: prod.splits)
qed

text \<open>The index of a reachable lane mempool is good, whatever the hash function does.\<close>

lemma CM_reach_good:
  assumes laws: "skiplist_laws SL cmpf" and lin: "linear_on X (ComparePriority P)" "zero \<in> X"
    and reach: "CM_reach SL A X zero sha P enc maxTx cm"
  shows "good_index SL cmpf X P A zero (cm_index cm)"
  using reach
proof induction
  case new
  then show ?case using new_index_good(1) [OF laws lin] by (simp add: NewConstructorMempool_def)
next
  case (ins cm ctx t cm' r)
  obtain i' r' where i: "idx_Insert (PN_index SL A zero) (cm_index cm) ctx t = (i', r')" by fastforce
  have g: "good_index SL cmpf X P A zero i'" by (rule pn.ins_good [OF ins.IH ins.hyps(2) i])
  obtain i2 r2 where i2: "idx_Remove (PN_index SL A zero) i' t = (i2, r2)" by fastforce
  have g2: "good_index SL cmpf X P A zero i2" by (rule pn.rem_good [OF g i2])
  from CM_Insert_effect [OF ins.hyps(3) i ins.hyps(4)] show ?case
    using g g2 CM_Remove_effect(1) [where cm = "cm\<lparr>cm_index := i'\<rparr>"] i2 by auto
next
  case (rem cm t cm' r)
  obtain i' r' where i: "idx_Remove (PN_index SL A zero) (cm_index cm) t = (i', r')" by fastforce
  then show ?case using pn.rem_good [OF rem.IH i] CM_Remove_effect(1) [OF rem.hyps(2) i] by simp
next
  case (sel cm cm' ts)
  obtain i' us where i: "idx_Select (PN_index SL A zero) (cm_index cm) = (i', us)" by fastforce
  then show ?case using pn.sel_good [OF sel.IH i] sel.hyps(2) by (auto simp: CM_Select_def)
qed

section \<open>A concrete lane mempool\<close>

text \<open>The encoding of a signed transaction: nonce and length of the address in unary, the address, the rest.\<close>

definition signed_encoder :: tx_encoder where
  "signed_encoder t =
     (case SigVerifiable t of
        Some (_, Ok (sig # _)) \<Rightarrow>
          Ok (replicate (Sequence sig) 0 @ 1 # replicate (length (PubKey_Address sig)) 0 @ 1 # PubKey_Address sig @ tx_raw t)
      | _ \<Rightarrow> Err (ErrMsg ''encode''))"

type_synonym demo_lane_mempool = "((demo_list, int, unit) PriorityNonceMempool, int, unit) ConstructorMempool"

definition demo_priority :: "(int, unit) TxPriority" where
  "demo_priority = NewDefaultTxPriority list_skiplist"

definition cm_new :: demo_lane_mempool where
  "cm_new = NewConstructorMempool (new_lane_index list_skiplist) demo_priority (Some signed_encoder) 0"

definition cm_insert :: "demo_lane_mempool \<Rightarrow> int \<Rightarrow> tx \<Rightarrow> demo_lane_mempool" where
  "cm_insert cm p t = fst (CM_Insert (PN_index list_skiplist hex_addr_ops 0) (\<lambda>bz. bz) cm (demo_ctx\<lparr>Priority := p\<rparr>) t)"

text \<open>The second transaction replaces the first.\<close>

definition cm_replaced :: demo_lane_mempool where
  "cm_replaced = cm_insert (cm_insert cm_new 5 (signed_tx [1] 0 [10])) 5 (signed_tx [1] 0 [11])"

lemma unary_inj: "replicate m 0 @ (1 :: byte) # xs = replicate n 0 @ 1 # ys \<longleftrightarrow> m = n \<and> xs = ys"
proof (induction m arbitrary: n)
  case 0
  then show ?case by (cases n) auto
next
  case (Suc m)
  then show ?case by (cases n) auto
qed

lemma signed_encoder_inj:
  assumes "signed_encoder t = Ok bz" "signed_encoder u = Ok bz"
  shows "sender_nonce A t = sender_nonce A u"
  using assms
  by (auto simp: signed_encoder_def sender_nonce_def first_signature_def unary_inj
      split: option.splits prod.splits outcome.splits list.splits)

lemma signed_hash_identifies: "hash_identifies (\<lambda>bz. bz) (Some signed_encoder) A"
  by (auto simp: hash_identifies_def GetTxHashStr_eq_Ok hash_str_def intro: signed_encoder_inj)

text \<open>A replaced transaction stays in the cache: it is reported although the index holds only the new one.\<close>

lemma replaced_tx_still_contained:
  "CM_Contains (\<lambda>bz. bz) cm_replaced (signed_tx [1] 0 [10]) \<and> CM_CountTx (PN_index list_skiplist hex_addr_ops 0) cm_replaced = 1 \<and>
   held_txs list_skiplist (cm_index cm_replaced) (''01'', 0) = Some (signed_tx [1] 0 [11])"
proof (intro conjI)
  show "CM_Contains (\<lambda>bz. bz) cm_replaced (signed_tx [1] 0 [10])" by code_simp
  show "CM_CountTx (PN_index list_skiplist hex_addr_ops 0) cm_replaced = 1" by code_simp
  show "held_txs list_skiplist (cm_index cm_replaced) (''01'', 0) = Some (signed_tx [1] 0 [11])" by code_simp
qed

section \<open>Properties\<close>

text \<open>
  C17: In every state that the operations of a lane mempool reach, its cache covers its index:
  \<open>Contains\<close> is true of every transaction that the priority nonce mempool behind it holds.
\<close>

theorem lane_mempool_contains_held:
  assumes "skiplist_laws SL cmpf" "linear_on X (ComparePriority P)" "zero \<in> X" "hash_identifies sha enc A"
    "CM_reach SL A X zero sha P enc maxTx cm" "entries SL (cm_index cm) i = Some e"
  shows "CM_Contains sha cm (e_tx e)"
proof -
  have "held_txs SL (cm_index cm) i = Some (e_tx e)" using assms(6) by (simp add: held_txs_def txs_of_def)
  then show ?thesis using CM_reach_covered [OF assms(1-5)] unfolding pn.covered_def by blast
qed

theorem lane_mempool_contains_held_witness:
  "\<exists>e. entries list_skiplist (cm_index cm_replaced) (''01'', 0) = Some e \<and> CM_Contains (\<lambda>bz. bz) cm_replaced (e_tx e)"
proof -
  have l: "linear_cmp (ComparePriority demo_priority)"
    using demo_linear by (simp add: demo_priority_def DefaultPriorityNonceMempoolConfig_def)
  have step: "CM_reach list_skiplist hex_addr_ops UNIV 0 (\<lambda>bz. bz) demo_priority (Some signed_encoder) 0 (cm_insert cm p t)"
    if "CM_reach list_skiplist hex_addr_ops UNIV 0 (\<lambda>bz. bz) demo_priority (Some signed_encoder) 0 cm"
      "snd (CM_Insert (PN_index list_skiplist hex_addr_ops 0) (\<lambda>bz. bz) cm (demo_ctx\<lparr>Priority := p\<rparr>) t) = Ok ()" for cm p t
    unfolding cm_insert_def by (rule CM_reach.ins [OF that(1) fits_UNIV prod.collapse [symmetric]]) (simp add: that(2))
  have "CM_reach list_skiplist hex_addr_ops UNIV 0 (\<lambda>bz. bz) demo_priority (Some signed_encoder) 0 cm_new"
    unfolding cm_new_def by (rule CM_reach.new)
  then have "CM_reach list_skiplist hex_addr_ops UNIV 0 (\<lambda>bz. bz) demo_priority (Some signed_encoder) 0
      (cm_insert cm_new 5 (signed_tx [1] 0 [10]))" by (rule step) code_simp
  then have r: "CM_reach list_skiplist hex_addr_ops UNIV 0 (\<lambda>bz. bz) demo_priority (Some signed_encoder) 0 cm_replaced"
    unfolding cm_replaced_def by (rule step) code_simp
  have "\<not> Option.is_none (entries list_skiplist (cm_index cm_replaced) (''01'', 0))" by code_simp
  then obtain e where "entries list_skiplist (cm_index cm_replaced) (''01'', 0) = Some e" by (auto simp: Option.is_none_def)
  then show ?thesis using lane_mempool_contains_held [OF list_skiplist_laws l UNIV_I signed_hash_identifies r] by blast
qed

end
