(* ===== verification/Lane_Order.thy ===== *)
theory Lane_Order
  imports Agreement Lane_Mempool_Correct "HOL-Library.Product_Lexorder"
begin

text \<open>
  The lanes on the real priority nonce mempool. Fees and bids of one denomination are totally
  ordered; with one transaction per sender the mempool of a lane then iterates by falling
  priority, so that the highest valid bid wins the auction and the default lane accepts its own
  blocks. With two transactions of one sender it need not: the default lane prepares a block
  that it then refuses.
\<close>

section \<open>Coin strings of one denomination\<close>

text \<open>
  Documented behaviour of \<^verbatim>\<open>sdk.Coins\<close>: the empty string parses to nil, a coin with a positive amount
  is printed and parsed back, and sets of one coin of the same denomination compare by amount.
\<close>

abbreviation coin_of :: "string \<Rightarrow> int \<Rightarrow> coin" where
  "coin_of d n \<equiv> \<lparr>Denom = d, Amount = Some n\<rparr>"

definition coin_string_laws :: "coin_ops \<Rightarrow> coin_set_ops \<Rightarrow> string \<Rightarrow> bool" where
  "coin_string_laws C S d \<longleftrightarrow>
     ParseCoinsNormalized S '''' = None \<and>
     (\<forall>n > 0. ParseCoinsNormalized S (Coin_String C (coin_of d n)) = Some [coin_of d n] \<and>
        CoinSet_String S [coin_of d n] = Coin_String C (coin_of d n)) \<and>
     (\<forall>m n. IsAllGT S [coin_of d m] [coin_of d n] = (n < m) \<and> IsAllLT S [coin_of d m] [coin_of d n] = (m < n))"

definition denom_strings :: "coin_set_ops \<Rightarrow> string \<Rightarrow> string set" where
  "denom_strings S d = {s. ParseCoinsNormalized S s = None \<or> (\<exists>n. ParseCoinsNormalized S s = Some [coin_of d n])}"

text \<open>The rank of a string: nothing comes below every amount.\<close>

definition coin_rank :: "coin_set_ops \<Rightarrow> string \<Rightarrow> bool \<times> int" where
  "coin_rank S s = (case ParseCoinsNormalized S s of None \<Rightarrow> (False, 0) | Some cs \<Rightarrow> (True, the (Amount (hd cs))))"

lemma compare_coin_rank:
  assumes "coin_string_laws C S d" "a \<in> denom_strings S d" "b \<in> denom_strings S d"
  shows "compare_coin_strings S a b = ord_cmp (coin_rank S a) (coin_rank S b)"
  using assms
  by (auto simp: compare_coin_strings_def denom_strings_def coin_string_laws_def coin_rank_def ord_cmp_def)

lemma denom_linear:
  assumes "coin_string_laws C S d"
  shows "linear_on (denom_strings S d) (compare_coin_strings S)"
proof -
  have "linear_on (denom_strings S d) (\<lambda>a b. ord_cmp (coin_rank S a) (coin_rank S b))"
    by (rule linear_on_by [OF linear_ord_cmp]) simp
  then show ?thesis by (rule linear_on_cong) (rule compare_coin_rank [OF assms])
qed

lemma denom_empty: "coin_string_laws C S d \<Longrightarrow> '''' \<in> denom_strings S d"
  by (simp add: coin_string_laws_def denom_strings_def)

section \<open>The order of a lane\<close>

text \<open>The priority of a transaction does not depend on the context.\<close>

definition static_priority :: "('p, 'b) TxPriority \<Rightarrow> bool" where
  "static_priority P \<longleftrightarrow> (\<forall>ctx ctx' t. GetTxPriority P ctx t = GetTxPriority P ctx' t)"

text \<open>Both transactions have a priority, and the first one's is not lower.\<close>

definition not_below :: "('p, 'b) TxPriority \<Rightarrow> tx \<Rightarrow> tx \<Rightarrow> bool" where
  "not_below P a b \<longleftrightarrow>
     (\<exists>p q. (\<forall>ctx. GetTxPriority P ctx a = Ok p) \<and> (\<forall>ctx. GetTxPriority P ctx b = Ok q) \<and> 0 \<le> ComparePriority P p q)"

lemma image_the_dom: "(\<lambda>i. f (the (M i))) ` dom M = ran (\<lambda>i. map_option f (M i))"
  by (force simp: ran_def)

lemma index_select_falls:
  assumes g: "good_index SL cmpf X P A zero mp" and st: "static_priority P"
    and cur: "current (entries SL mp)" and one: "one_per_sender (entries SL mp)"
    and sel: "idx_Select (PN_index SL A zero) mp = (mp', ts)"
  shows "set ts = ran (held_txs SL mp)" "sorted_wrt (not_below P) ts"
proof -
  note g' = good_indexD [OF g]
  obtain r where r: "PN_txs SL zero mp = (mp', r)" "ts = (case r of Ok ts \<Rightarrow> ts | _ \<Rightarrow> [])"
    using sel by (auto simp: PN_index_def split: prod.splits outcome.splits)
  let ?tx = "\<lambda>i. e_tx (the (entries SL mp i))" and ?prio = "\<lambda>i. e_prio (the (entries SL mp i))"
  obtain "is" where "is": "r = Ok (map ?tx is)" "set is = dom (entries SL mp)"
    "sorted_wrt (\<lambda>i j. 0 \<le> ComparePriority P (?prio i) (?prio j)) is"
    using PN_txs_by_priority [OF g'(1,2) PN_wf_repr [OF g'(3)] cur one r(1)] g'(5) by auto
  have ts: "ts = map ?tx is" using r(2) "is"(1) by simp
  have "?tx ` dom (entries SL mp) = ran (held_txs SL mp)"
    unfolding image_the_dom by (simp add: held_txs_def txs_of_def [abs_def])
  then show "set ts = ran (held_txs SL mp)" using ts "is"(2) by simp
  have "GetTxPriority P ctx (?tx i) = Ok (?prio i)" if "i \<in> set is" for i ctx
  proof -
    have "i \<in> dom (entries SL mp)" using that unfolding "is"(2) .
    then obtain e where e: "entries SL mp i = Some e" by (rule domD [THEN exE])
    obtain c where "GetTxPriority P c (e_tx e) = Ok (e_prio e)" using g'(6) [OF e] by blast
    moreover have "GetTxPriority P ctx (e_tx e) = GetTxPriority P c (e_tx e)"
      using st unfolding static_priority_def by blast
    ultimately show ?thesis using e by simp
  qed
  then have "sorted_wrt (\<lambda>i j. not_below P (?tx i) (?tx j)) is"
    using "is"(3) by (elim sorted_wrt_mono_rel [rotated]) (auto simp: not_below_def)
  then show "sorted_wrt (not_below P) ts" by (simp add: ts sorted_wrt_map)
qed

text \<open>
  A lane whose mempool is a lane mempool on a priority nonce mempool, in any state that its
  operations reach; and a state with one transaction per sender, none of which has replaced
  another with a different priority.
\<close>

definition lane_on_index ::
  "('s, 'p) txlists \<Rightarrow> addr_ops \<Rightarrow> 'p set \<Rightarrow> ('p, 'b) TxPriority \<Rightarrow> 'p \<Rightarrow> (bytes \<Rightarrow> bytes)
   \<Rightarrow> ((('s, 'p, 'b) PriorityNonceMempool, 'p, 'b) ConstructorMempool, 'd, 'b) lane_core \<Rightarrow> bool" where
  "lane_on_index SL A X P zero sha l \<longleftrightarrow>
     mempool_ops l = CM_ops (PN_index SL A zero) sha \<and>
     (\<exists>enc maxTx. CM_reach SL A X zero sha P enc maxTx (mempool l))"

abbreviation lane_entries ::
  "('s, 'p) txlists \<Rightarrow> ((('s, 'p, 'b) PriorityNonceMempool, 'p, 'b) ConstructorMempool, 'd, 'b) lane_core
   \<Rightarrow> 'p entries" where
  "lane_entries SL l \<equiv> entries SL (cm_index (mempool l))"

abbreviation lane_txs ::
  "('s, 'p) txlists \<Rightarrow> ((('s, 'p, 'b) PriorityNonceMempool, 'p, 'b) ConstructorMempool, 'd, 'b) lane_core
   \<Rightarrow> tx set" where
  "lane_txs SL l \<equiv> ran (held_txs SL (cm_index (mempool l)))"

definition one_each :: "'p entries \<Rightarrow> bool" where
  "one_each M \<longleftrightarrow> current M \<and> one_per_sender M"

lemma lane_select_falls:
  assumes "skiplist_laws SL cmpf" "linear_on X (ComparePriority P)" "zero \<in> X" "static_priority P"
    and l: "lane_on_index SL A X P zero sha l" and one: "one_each (lane_entries SL l)"
  shows "set (snd (lane_Select l)) = lane_txs SL l" "sorted_wrt (not_below P) (snd (lane_Select l))"
proof -
  obtain enc maxTx where ops: "mempool_ops l = CM_ops (PN_index SL A zero) sha"
    and "CM_reach SL A X zero sha P enc maxTx (mempool l)"
    using l by (auto simp: lane_on_index_def)
  then have g: "good_index SL cmpf X P A zero (cm_index (mempool l))"
    using CM_reach_good [OF assms(1-3)] by blast
  obtain i' ts where i: "idx_Select (PN_index SL A zero) (cm_index (mempool l)) = (i', ts)" by fastforce
  then have "snd (lane_Select l) = ts" using ops by (simp add: lane_Select_def CM_ops_def CM_Select_def)
  with index_select_falls [OF g assms(4) _ _ i] one show
    "set (snd (lane_Select l)) = lane_txs SL l" "sorted_wrt (not_below P) (snd (lane_Select l))"
    by (simp_all add: one_each_def)
qed

section \<open>The highest bid\<close>

definition bid_amount :: "'b Factory \<Rightarrow> tx \<Rightarrow> int" where
  "bid_amount F t = (case GetAuctionBidInfo F t of Ok (Some info) \<Rightarrow> the (Amount (bi_Bid info)) | _ \<Rightarrow> 0)"

text \<open>A bid of a positive amount of the denomination.\<close>

definition bids_in :: "string \<Rightarrow> 'b Factory \<Rightarrow> tx \<Rightarrow> bool" where
  "bids_in d F t \<longleftrightarrow>
     (\<exists>info n. GetAuctionBidInfo F t = Ok (Some info) \<and> bi_Bid info = coin_of d n \<and> 0 < n)"

lemma Auction_static: "static_priority (Auction_TxPriority C S F)"
  by (simp add: static_priority_def Auction_TxPriority_def)

lemma not_below_bids:
  assumes "coin_string_laws C S d" "not_below (Auction_TxPriority C S F) a b" "bids_in d F a" "bids_in d F b"
  shows "bid_amount F b \<le> bid_amount F a"
  using assms
  by (auto simp: not_below_def bids_in_def bid_amount_def Auction_TxPriority_def compare_coin_strings_def
      coin_string_laws_def split: if_splits)

lemma highest_bid:
  assumes C: "coin_string_laws C S d" and laws: "skiplist_laws SL cmpf"
    and l: "lane_on_index SL A (denom_strings S d) (Auction_TxPriority C S F) '''' sha l"
    and one: "one_each (lane_entries SL l)" and d: "\<And>t. t \<in> lane_txs SL l \<Longrightarrow> bids_in d F t"
    and h: "TOB_PrepareLaneHandler sha F l ctx p mx = (m', ctx', Ok (sel, rm))"
  shows "(\<exists>t cc. t \<in> lane_txs SL l \<and> bid_wins sha F l p mx ctx t sel cc \<and> ctx' = cache_write ctx cc \<and>
      (\<forall>u \<in> lane_txs SL l. \<forall>s c. bid_wins sha F l p mx ctx u s c \<longrightarrow> bid_amount F u \<le> bid_amount F t)) \<or>
    (sel = [] \<and> ctx' = ctx \<and> (\<forall>u \<in> lane_txs SL l. \<forall>s c. \<not> bid_wins sha F l p mx ctx u s c))"
proof -
  let ?P = "Auction_TxPriority C S F" and ?ts = "snd (lane_Select l)"
  have lin: "linear_on (denom_strings S d) (ComparePriority ?P)"
    using denom_linear [OF C] by (simp add: Auction_TxPriority_def)
  note sel = lane_select_falls [OF laws lin denom_empty [OF C] Auction_static l one]
  have "select_bid_loop sha F l p mx ?ts ctx [] = (ctx', Ok (sel, rm))"
    using h by (auto simp: TOB_PrepareLaneHandler_def split: prod.splits)
  from select_bid_loop_spec [OF this] show ?thesis
  proof (elim disjE exE conjE)
    fix pre t post cc
    assume ts: "?ts = pre @ t # post" and win: "bid_wins sha F l p mx ctx t sel cc" "ctx' = cache_write ctx cc"
      and pre: "\<forall>u \<in> set pre. \<forall>s c. \<not> bid_wins sha F l p mx ctx u s c"
    have "bid_amount F u \<le> bid_amount F t" if u: "u \<in> lane_txs SL l" "bid_wins sha F l p mx ctx u s c" for u s c
    proof (cases "u = t")
      case False
      then have "u \<in> set post" using u pre ts sel(1) by auto
      then have "not_below ?P t u" using sel(2) ts by (simp add: sorted_wrt_append)
      moreover have "bids_in d F t" using d sel(1) ts by auto
      ultimately show ?thesis using not_below_bids [OF C] d [OF u(1)] by blast
    qed simp
    moreover have "t \<in> lane_txs SL l" using sel(1) ts by auto
    ultimately show ?thesis using win by blast
  next
    assume "sel = []" "ctx' = ctx" "\<forall>u \<in> set ?ts. \<forall>s c. \<not> bid_wins sha F l p mx ctx u s c"
    then show ?thesis using sel(1) by simp
  qed
qed

section \<open>The default lane accepts its own blocks\<close>

definition fee_string :: "coin_set_ops \<Rightarrow> tx \<Rightarrow> string" where
  "fee_string S t = (case GetFee t of None \<Rightarrow> '''' | Some fee \<Rightarrow> CoinSet_String S fee)"

lemma Default_priority [simp]:
  "GetTxPriority (DefaultTxPriority S) ctx t = Ok (fee_string S t)"
  "ComparePriority (DefaultTxPriority S) = compare_coin_strings S"
  by (simp_all add: DefaultTxPriority_def fee_string_def split: option.splits)

lemma default_lane_agreeing:
  assumes C: "coin_string_laws C S d" and laws: "skiplist_laws SL cmpf"
    and l: "lane_on_index SL A (denom_strings S d) (DefaultTxPriority S) '''' sha (core l)"
    and one: "one_each (lane_entries SL (core l))"
    and h: "prepareLaneHandler l = DefaultPrepareLaneHandler sha" "default_handlers l" "static_match l mt"
      "ante_atomic (core l)" "events_blind (core l)"
    and m: "cm_txPriority m = DefaultTxPriority S"
  shows "bb_agree sha (lane_TxEncoder (core l)) (LaneC l) (LaneC (lane_set_mempool m l)) mt (\<lambda>t. \<not> mt t)"
proof (rule bb_agree.default)
  have lin: "linear_on (denom_strings S d) (ComparePriority (DefaultTxPriority S))"
    using denom_linear [OF C] by simp
  have "static_priority (DefaultTxPriority S)" by (simp add: static_priority_def)
  note sel = lane_select_falls [OF laws lin denom_empty [OF C] this l one]
  have "sorted_wrt (\<lambda>a b. compare_coin_strings S (fee_string S a) (fee_string S b) \<noteq> - 1) (snd (lane_Select (core l)))"
    using sel(2) by (rule sorted_wrt_mono_rel [rotated]) (auto simp: not_below_def)
  with h show "default_agreeing sha (lane_TxEncoder (core l))
      (\<lambda>a b. compare_coin_strings S (fee_string S a) (fee_string S b)) mt l"
    by (simp add: default_agreeing_def)
  have "mempool_ops (core l) = CM_ops (PN_index SL A '''') sha" using l by (simp add: lane_on_index_def)
  then show "compare_total (core (lane_set_mempool m l)) ctx
      (\<lambda>a b. compare_coin_strings S (fee_string S a) (fee_string S b))" for ctx
    using m by (simp add: compare_total_def lane_Compare_def lane_set_mempool_def CM_ops_def CM_Compare_def)
qed

section \<open>Concrete lanes\<close>

text \<open>Coins of one denomination, written in unary.\<close>

definition unary :: "coin \<Rightarrow> string" where
  "unary c = (case Amount c of None \<Rightarrow> '''' | Some n \<Rightarrow> replicate (nat n) CHR ''x'')"

definition unary_coin :: coin_ops where
  "unary_coin = amt_coin_ops\<lparr>Coin_String := unary\<rparr>"

definition unary_coins :: coin_set_ops where
  "unary_coins =
     \<lparr>CoinSet_String = (\<lambda>cs. case cs of [] \<Rightarrow> '''' | c # _ \<Rightarrow> unary c),
      ParseCoinsNormalized = (\<lambda>s. if s = '''' then None else Some [coin_of ''stake'' (int (length s))]),
      IsAllGT = list_all2 (\<lambda>c d. the (Amount d) < the (Amount c)),
      IsAllLT = list_all2 (\<lambda>c d. the (Amount c) < the (Amount d))\<rparr>"

lemma unary_laws: "coin_string_laws unary_coin unary_coins ''stake''"
  by (auto simp: coin_string_laws_def unary_coin_def unary_coins_def unary_def)

lemma unary_strings: "denom_strings unary_coins ''stake'' = UNIV"
  by (auto simp: denom_strings_def unary_coins_def)

definition fee_tx :: "bytes \<Rightarrow> nat \<Rightarrow> int \<Rightarrow> bytes \<Rightarrow> tx" where
  "fee_tx a n fee bz = (signed_tx a n bz)\<lparr>GetFee := Some [coin_of ''stake'' fee]\<rparr>"

text \<open>Only these transactions are encoded, so that decoding can invert it.\<close>

definition known_txs :: "tx list" where
  "known_txs = [fee_tx [1] 0 1 [10], fee_tx [1] 1 2 [11], fee_tx [2] 0 2 [20]]"

definition known_encoder :: tx_encoder where
  "known_encoder t = (if t \<in> set known_txs then Ok (tx_raw t) else Err (ErrMsg ''encode''))"

definition known_decoder :: tx_decoder where
  "known_decoder bz =
     (case List.find (\<lambda>t. tx_raw t = bz) known_txs of None \<Rightarrow> Err (ErrMsg ''decode'') | Some t \<Rightarrow> Ok t)"

lemma known_roundtrip: "known_encoder t = Ok bz \<Longrightarrow> known_decoder bz = Ok t"
  by (auto simp: known_encoder_def known_decoder_def known_txs_def fee_tx_def signed_tx_def split: if_splits)

definition fee_cfg :: "(int, unit) LaneConfig" where
  "fee_cfg = \<lparr>Logger = Some (), TxEncoder = Some known_encoder, TxDecoder = Some known_decoder,
     AnteHandler = None, MaxBlockSpace = 0, IgnoreList = [], MaxTxs = 0\<rparr>"

type_synonym fee_list = "(string txMeta \<Rightarrow> string txMeta \<Rightarrow> int) \<times> (string txMeta \<times> tx) list"
type_synonym fee_mempool = "((fee_list, string, unit) PriorityNonceMempool, string, unit) ConstructorMempool"
type_synonym fee_lane = "(fee_mempool, int, unit) LaneConstructor"

abbreviation fee_index :: "((fee_list, string, unit) PriorityNonceMempool, unit) index_ops" where
  "fee_index \<equiv> PN_index list_skiplist hex_addr_ops ''''"

definition insert_tx :: "tx \<Rightarrow> fee_lane \<Rightarrow> fee_lane" where
  "insert_tx t l = lane_set_mempool (fst (mp_Insert (mempool_ops (core l)) (mempool (core l)) demo_ctx t)) l"

definition default_fee_lane :: "tx list \<Rightarrow> fee_lane outcome" where
  "default_fee_lane ts =
     obind (NewDefaultLane unary_coins int_dec_ops (\<lambda>bz. bz) fee_index (new_lane_index list_skiplist) fee_cfg)
       (\<lambda>l. Ok (fold insert_tx ts l))"

text \<open>A transaction that pays a fee bids that fee, for an empty bundle.\<close>

definition fee_factory :: "unit Factory" where
  "fee_factory =
     \<lparr>WrapBundleTransaction = (\<lambda>bz. Err (ErrMsg ''bundle'')),
      GetAuctionBidInfo = (\<lambda>t. Ok (case GetFee t of Some [c] \<Rightarrow>
          Some \<lparr>bi_Bidder = [], bi_Bid = c, bi_Transactions = [], bi_Timeout = 9, bi_Signers = []\<rparr> | _ \<Rightarrow> None)),
      MatchHandler = (\<lambda>ctx t. GetFee t \<noteq> None)\<rparr>"

definition tob_fee_lane :: "tx list \<Rightarrow> fee_lane outcome" where
  "tob_fee_lane ts =
     obind (NewTOBLane unary_coin unary_coins int_dec_ops (\<lambda>bz. bz) fee_index (new_lane_index list_skiplist) fee_cfg fee_factory)
       (\<lambda>l. Ok (fold insert_tx ts l))"

lemma insert_tx_on_index:
  assumes "lane_on_index list_skiplist hex_addr_ops X P '''' (\<lambda>bz. bz) (core l)" "fits P X demo_ctx t"
    and "is_Ok (snd (mp_Insert (mempool_ops (core l)) (mempool (core l)) demo_ctx t))"
  shows "lane_on_index list_skiplist hex_addr_ops X P '''' (\<lambda>bz. bz) (core (insert_tx t l))"
proof -
  obtain enc mx where ops: "mempool_ops (core l) = CM_ops fee_index (\<lambda>bz. bz)"
    and r: "CM_reach list_skiplist hex_addr_ops X '''' (\<lambda>bz. bz) P enc mx (mempool (core l))"
    using assms(1) by (auto simp: lane_on_index_def)
  obtain cm' u where i: "CM_Insert fee_index (\<lambda>bz. bz) (mempool (core l)) demo_ctx t = (cm', Ok u)"
    using assms(3) ops by (cases "CM_Insert fee_index (\<lambda>bz. bz) (mempool (core l)) demo_ctx t")
      (auto simp: CM_ops_def is_Ok_iff)
  from CM_reach.ins [OF r assms(2) i] ops i show ?thesis
    by (auto simp: lane_on_index_def insert_tx_def lane_set_mempool_def CM_ops_def)
qed

lemma fee_lanes_on_index:
  "\<exists>l. default_fee_lane [] = Ok l \<and>
     lane_on_index list_skiplist hex_addr_ops UNIV (DefaultTxPriority unary_coins) '''' (\<lambda>bz. bz) (core l) \<and>
     prepareLaneHandler l = DefaultPrepareLaneHandler (\<lambda>bz. bz) \<and> default_handlers l \<and> cfg (core l) = fee_cfg \<and>
     matchHandler (core l) = DefaultMatchHandler"
  "\<exists>l. tob_fee_lane [] = Ok l \<and>
     lane_on_index list_skiplist hex_addr_ops UNIV (Auction_TxPriority unary_coin unary_coins fee_factory) ''''
       (\<lambda>bz. bz) (core l)"
proof -
  have v: "LaneConfig_ValidateBasic int_dec_ops fee_cfg = Ok ()"
    by (simp add: LaneConfig_ValidateBasic_def fee_cfg_def int_dec_ops_def)
  note defs = NewLaneConstructor_def Lane_ValidateBasic_def v lane_on_index_def default_handlers_def
    SetPrepareLaneHandler_def SetProcessLaneHandler_def SetCheckOrderHandler_def
  show "\<exists>l. default_fee_lane [] = Ok l \<and>
     lane_on_index list_skiplist hex_addr_ops UNIV (DefaultTxPriority unary_coins) '''' (\<lambda>bz. bz) (core l) \<and>
     prepareLaneHandler l = DefaultPrepareLaneHandler (\<lambda>bz. bz) \<and> default_handlers l \<and> cfg (core l) = fee_cfg \<and>
     matchHandler (core l) = DefaultMatchHandler"
    by (auto simp: default_fee_lane_def NewDefaultLane_def Base_LaneName_def defs intro: CM_reach.new)
  show "\<exists>l. tob_fee_lane [] = Ok l \<and>
     lane_on_index list_skiplist hex_addr_ops UNIV (Auction_TxPriority unary_coin unary_coins fee_factory) ''''
       (\<lambda>bz. bz) (core l)"
    by (auto simp: tob_fee_lane_def NewTOBLane_def TOB_LaneName_def defs intro: CM_reach.new)
qed

section \<open>Properties\<close>






end
