(* ===== verification/Check_Tx.thy ===== *)
theory Check_Tx
  imports Auction_Correct
begin

text \<open>
  \<^verbatim>\<open>blockbuster/lanes/auction/check_tx.go\<close>: the wrapper around the base application's \<open>CheckTx\<close> that
  verifies bids, with their bundles, against the latest committed state before they enter the
  mempool.
\<close>

section \<open>Requests, responses and the base application\<close>

datatype CheckTxType = CheckTxType_New | CheckTxType_Recheck | CheckTxType_Other int

record RequestCheckTx =
  req_Tx :: bytes
  req_Type :: CheckTxType

text \<open>
  A response: the error that \<^verbatim>\<open>sdkerrors.ResponseCheckTxWithEvents\<close> turns into a code (none for
  the code OK) and the gas.
\<close>

record ResponseCheckTx =
  resp_err :: "error option"
  GasWanted :: int
  GasUsed :: int

definition error_response :: "error \<Rightarrow> int \<Rightarrow> int \<Rightarrow> ResponseCheckTx" where
  "error_response e gw gu = \<lparr>resp_err = Some e, GasWanted = i64 gw, GasUsed = i64 gu\<rparr>"

text \<open>
  The interface \<open>BaseApp\<close>: the committed store, the last height, and its own \<open>CheckTx\<close>, which
  returns a response and an error or panics.
\<close>

record 'b BaseApp =
  CommitMultiStore :: "'b multistore"
  LastBlockHeight :: int
  ba_CheckTx :: "RequestCheckTx \<Rightarrow> (ResponseCheckTx \<times> error option) outcome"

record 'b CheckTxHandler =
  baseApp :: "'b BaseApp"
  ct_txDecoder :: tx_decoder
  ct_factory :: "'b Factory"
  ct_anteHandler :: "'b ante_handler"

section \<open>The handler\<close>

definition NewCheckTxHandler ::
  "'b BaseApp \<Rightarrow> tx_decoder \<Rightarrow> 'b Factory \<Rightarrow> 'b ante_handler \<Rightarrow> 'b CheckTxHandler" where
  "NewCheckTxHandler app dec factory ante =
     \<lparr>baseApp = app, ct_txDecoder = dec, ct_factory = factory, ct_anteHandler = ante\<rparr>"

text \<open>
  A new context has an infinite gas meter, whose limit is the largest 64-bit value, and is in
  check mode; setting the recheck mode leaves the check mode on.
\<close>

definition GetContextForBidTx :: "'b CheckTxHandler \<Rightarrow> RequestCheckTx \<Rightarrow> 'b Context outcome" where
  "GetContextForBidTx handler req =
     (let ctx = \<lparr>BlockHeight = LastBlockHeight (baseApp handler), IsCheckTx = True, IsReCheckTx = False,
            Priority = 0, GasLimit = 2 ^ 64 - 1, GasConsumed = 0, TxBytes = [], ctx_events = [],
            ms = CommitMultiStore (baseApp handler)\<rparr>
      in case req_Type req of
           CheckTxType_New \<Rightarrow> Ok (ctx\<lparr>IsCheckTx := True, TxBytes := req_Tx req\<rparr>)
         | CheckTxType_Recheck \<Rightarrow> Ok (ctx\<lparr>IsReCheckTx := True, TxBytes := req_Tx req\<rparr>)
         | CheckTxType_Other n \<Rightarrow> Panic ''unknown check tx type'')"

fun validate_bundle ::
  "'b CheckTxHandler \<Rightarrow> 'b Context \<Rightarrow> bytes list \<Rightarrow> 'b Context \<times> unit outcome" where
  "validate_bundle handler ctx [] = (ctx, Ok ())"
| "validate_bundle handler ctx (bz # rest) =
     (case WrapBundleTransaction (ct_factory handler) bz of
        Err e \<Rightarrow> (ctx, Err (ErrWrap ''invalid bid tx; failed to decode bundled tx'' e))
      | Panic s \<Rightarrow> (ctx, Panic s)
      | Ok bundledTx \<Rightarrow>
          (case GetAuctionBidInfo (ct_factory handler) bundledTx of
             Ok (Some _) \<Rightarrow> (ctx, Err (ErrMsg ''invalid bid tx; bundled tx cannot be a bid tx''))
           | Panic s \<Rightarrow> (ctx, Panic s)
           | _ \<Rightarrow>
               (case ct_anteHandler handler ctx bundledTx False of
                  (ctx', Ok _) \<Rightarrow> validate_bundle handler ctx' rest
                | (ctx', Err e) \<Rightarrow>
                    (ctx', Err (ErrWrap ''invalid bid tx; failed to execute bundled transaction'' e))
                | (ctx', Panic s) \<Rightarrow> (ctx', Panic s))))"

text \<open>The result is the gas of the bid transaction alone (zero if its own check failed).\<close>

definition ValidateBidTx ::
  "'b CheckTxHandler \<Rightarrow> 'b Context \<Rightarrow> tx \<Rightarrow> BidInfo \<Rightarrow> 'b Context \<times> (nat \<times> nat) \<times> unit outcome" where
  "ValidateBidTx handler ctx bidTx bidInfo =
     (case ct_anteHandler handler ctx bidTx False of
        (ctx1, Err e) \<Rightarrow>
          (ctx1, (0, 0), Err (ErrWrap ''invalid bid tx; failed to execute ante handler'' e))
      | (ctx1, Panic s) \<Rightarrow> (ctx1, (0, 0), Panic s)
      | (ctx1, Ok _) \<Rightarrow>
          (case validate_bundle handler ctx1 (bi_Transactions bidInfo) of
             (ctx2, r) \<Rightarrow> (ctx2, (GasLimit ctx1, GasConsumed ctx1), r)))"

text \<open>
  \<open>CheckTx\<close> returns the lane with its new mempool, the response and the error. A panic
  anywhere is recovered into an error; the mempool stays as the panicking call left it.
\<close>

definition panic_result :: "'l \<Rightarrow> string \<Rightarrow> 'l \<times> ResponseCheckTx \<times> error option" where
  "panic_result l s =
     (l, error_response (ErrMsg ''panic in check tx handler'') 0 0,
      Some (ErrMsg ''panic in check tx handler''))"

definition CheckTx_bid ::
  "'b CheckTxHandler \<Rightarrow> ('m, 'd, 'b) lane_core \<Rightarrow> RequestCheckTx \<Rightarrow> tx \<Rightarrow> BidInfo
   \<Rightarrow> ('m, 'd, 'b) lane_core \<times> ResponseCheckTx \<times> error option" where
  "CheckTx_bid handler l req t bidInfo =
     (case GetContextForBidTx handler req of
        Err e \<Rightarrow> (l, error_response e 0 0, Some e)
      | Panic s \<Rightarrow> panic_result l s
      | Ok ctx \<Rightarrow>
          (case ValidateBidTx handler ctx t bidInfo of
             (ctx', (gw, gu), Panic s) \<Rightarrow> panic_result l s
           | (ctx', (gw, gu), Err e) \<Rightarrow>
               (l, error_response (ErrWrap ''invalid bid tx'' e) (int gw) (int gu), Some e)
           | (ctx', (gw, gu), Ok _) \<Rightarrow>
               (case mp_Insert (mempool_ops l) (mempool l) (sync_ctx ctx ctx') t of
                  (m', Panic s) \<Rightarrow> panic_result (l\<lparr>mempool := m'\<rparr>) s
                | (m', Err e) \<Rightarrow>
                    (l\<lparr>mempool := m'\<rparr>,
                     error_response (ErrWrap ''invalid bid tx; failed to insert bid transaction into mempool'' e)
                       (int gw) (int gu), Some e)
                | (m', Ok _) \<Rightarrow>
                    (l\<lparr>mempool := m'\<rparr>,
                     \<lparr>resp_err = None, GasWanted = i64 (int gw), GasUsed = i64 (int gu)\<rparr>, None))))"

definition CheckTx ::
  "'b CheckTxHandler \<Rightarrow> ('m, 'd, 'b) lane_core \<Rightarrow> RequestCheckTx
   \<Rightarrow> ('m, 'd, 'b) lane_core \<times> ResponseCheckTx \<times> error option" where
  "CheckTx handler l req =
     (case ct_txDecoder handler (req_Tx req) of
        Panic s \<Rightarrow> panic_result l s
      | Err e \<Rightarrow> (l, error_response (ErrWrap ''failed to decode tx'' e) 0 0, Some e)
      | Ok t \<Rightarrow>
          (case GetAuctionBidInfo (ct_factory handler) t of
             Panic s \<Rightarrow> panic_result l s
           | Err e \<Rightarrow> (l, error_response (ErrWrap ''failed to get auction bid info'' e) 0 0, Some e)
           | Ok None \<Rightarrow>
               (case ba_CheckTx (baseApp handler) req of
                  Ok (resp, err) \<Rightarrow> (l, resp, err)
                | Err e \<Rightarrow> (l, error_response e 0 0, Some e)
                | Panic s \<Rightarrow> panic_result l s)
           | Ok (Some bidInfo) \<Rightarrow> CheckTx_bid handler l req t bidInfo))"

section \<open>Sequential execution of the ante handler\<close>

fun ante_all :: "'b ante_handler \<Rightarrow> 'b Context \<Rightarrow> tx list \<Rightarrow> 'b Context option" where
  "ante_all ante ctx [] = Some ctx"
| "ante_all ante ctx (t # ts) =
     (case ante ctx t False of (ctx', Ok _) \<Rightarrow> ante_all ante ctx' ts | _ \<Rightarrow> None)"

lemma validate_bundle_Ok:
  "validate_bundle h ctx raws = (ctx', Ok ()) \<Longrightarrow>
   \<exists>us. list_all2 (\<lambda>raw u. WrapBundleTransaction (ct_factory h) raw = Ok u) raws us \<and>
     (\<forall>u \<in> set us. \<not> carries_bid (ct_factory h) u) \<and> ante_all (ct_anteHandler h) ctx us = Some ctx'"
proof (induction raws arbitrary: ctx)
  case (Cons raw raws)
  then obtain u c1 where u: "WrapBundleTransaction (ct_factory h) raw = Ok u"
    "\<not> carries_bid (ct_factory h) u" "ct_anteHandler h ctx u False = (c1, Ok ())"
    "validate_bundle h c1 raws = (ctx', Ok ())"
    by (auto simp: carries_bid_def split: outcome.splits option.splits prod.splits)
  from Cons.IH [OF u(4)] obtain us where
    "list_all2 (\<lambda>raw u. WrapBundleTransaction (ct_factory h) raw = Ok u) raws us"
    "\<forall>u \<in> set us. \<not> carries_bid (ct_factory h) u" "ante_all (ct_anteHandler h) c1 us = Some ctx'" by blast
  with u show ?case by (intro exI [of _ "u # us"]) simp
qed simp

section \<open>Properties\<close>

text \<open>
  C13: A bid transaction that \<open>CheckTx\<close> admits has been executed, followed by every transaction
  of its bundle in order, by the ante handler on the latest committed state in check mode
  without an error; none of the bundled transactions is itself a bid; and the mempool of the
  auction lane is the result of inserting this transaction. A transaction that is not a bid is
  left to the base application and does not touch the lane.
\<close>

theorem CheckTx_admits_verified_bids:
  assumes "CheckTx h l req = (l', resp, err)"
    and "ct_txDecoder h (req_Tx req) = Ok t"
  shows "(\<forall>info. GetAuctionBidInfo (ct_factory h) t = Ok (Some info) \<and> err = None \<longrightarrow>
      (\<exists>us ctx ctx' m'. GetContextForBidTx h req = Ok ctx \<and> IsCheckTx ctx \<and>
         ms ctx = CommitMultiStore (baseApp h) \<and>
         list_all2 (\<lambda>raw u. WrapBundleTransaction (ct_factory h) raw = Ok u) (bi_Transactions info) us \<and>
         (\<forall>u \<in> set us. \<not> carries_bid (ct_factory h) u) \<and>
         ante_all (ct_anteHandler h) ctx (t # us) = Some ctx' \<and>
         mp_Insert (mempool_ops l) (mempool l) (sync_ctx ctx ctx') t = (m', Ok ()) \<and>
         l' = l\<lparr>mempool := m'\<rparr> \<and> resp_err resp = None)) \<and>
   (GetAuctionBidInfo (ct_factory h) t = Ok None \<longrightarrow> l' = l)"
proof (intro conjI allI impI)
  fix info assume a: "GetAuctionBidInfo (ct_factory h) t = Ok (Some info) \<and> err = None"
  then have bid: "CheckTx_bid h l req t info = (l', resp, None)"
    using assms by (simp add: CheckTx_def)
  obtain ctx where c: "GetContextForBidTx h req = Ok ctx"
    using bid by (cases "GetContextForBidTx h req") (auto simp: CheckTx_bid_def panic_result_def)
  obtain ctx' gw gu vr where v: "ValidateBidTx h ctx t info = (ctx', (gw, gu), vr)"
    by (metis prod_cases4 surj_pair)
  have vr: "vr = Ok ()"
    using bid c v by (cases vr) (auto simp: CheckTx_bid_def panic_result_def)
  obtain m' ir where i: "mp_Insert (mempool_ops l) (mempool l) (sync_ctx ctx ctx') t = (m', ir)"
    by fastforce
  have ir: "ir = Ok ()" "l' = l\<lparr>mempool := m'\<rparr>" "resp_err resp = None"
    using bid c v vr i by (cases ir; auto simp: CheckTx_bid_def panic_result_def)+
  obtain c1 where a1: "ct_anteHandler h ctx t False = (c1, Ok ())"
    and vb: "validate_bundle h c1 (bi_Transactions info) = (ctx', Ok ())"
    using v vr by (auto simp: ValidateBidTx_def split: prod.splits outcome.splits)
  have cx: "IsCheckTx ctx" "ms ctx = CommitMultiStore (baseApp h)"
    using c by (auto simp: GetContextForBidTx_def Let_def split: CheckTxType.splits)
  from validate_bundle_Ok [OF vb] obtain us where
    us: "list_all2 (\<lambda>raw u. WrapBundleTransaction (ct_factory h) raw = Ok u) (bi_Transactions info) us"
    "\<forall>u \<in> set us. \<not> carries_bid (ct_factory h) u" "ante_all (ct_anteHandler h) c1 us = Some ctx'" by blast
  show "\<exists>us ctx ctx' m'. GetContextForBidTx h req = Ok ctx \<and> IsCheckTx ctx \<and>
         ms ctx = CommitMultiStore (baseApp h) \<and>
         list_all2 (\<lambda>raw u. WrapBundleTransaction (ct_factory h) raw = Ok u) (bi_Transactions info) us \<and>
         (\<forall>u \<in> set us. \<not> carries_bid (ct_factory h) u) \<and>
         ante_all (ct_anteHandler h) ctx (t # us) = Some ctx' \<and>
         mp_Insert (mempool_ops l) (mempool l) (sync_ctx ctx ctx') t = (m', Ok ()) \<and>
         l' = l\<lparr>mempool := m'\<rparr> \<and> resp_err resp = None"
    by (rule exI [of _ us], rule exI [of _ ctx], rule exI [of _ ctx'], rule exI [of _ m'])
      (simp add: c cx us a1 i ir)
next
  assume "GetAuctionBidInfo (ct_factory h) t = Ok None"
  then show "l' = l"
    using assms by (auto simp: CheckTx_def panic_result_def split: outcome.splits)
qed

definition demo_check_handler :: "unit CheckTxHandler" where
  "demo_check_handler =
     \<lparr>baseApp = \<lparr>CommitMultiStore = ms demo_ctx, LastBlockHeight = 7,
        ba_CheckTx = (\<lambda>req. Ok (\<lparr>resp_err = None, GasWanted = 0, GasUsed = 0\<rparr>, None))\<rparr>,
      ct_txDecoder = (\<lambda>bz. Ok (demo_tx bz)), ct_factory = demo_factory,
      ct_anteHandler = (\<lambda>ctx t sim. (ctx, Ok ()))\<rparr>"

theorem CheckTx_admits_verified_bids_witness:
  "\<exists>m'. fst (CheckTx demo_check_handler (demo_tob []) \<lparr>req_Tx = [0, 1, 2], req_Type = CheckTxType_New\<rparr>)
      = (demo_tob [])\<lparr>mempool := m'\<rparr> \<and> m' = [demo_tx [0, 1, 2]]"
proof -
  let ?req = "\<lparr>req_Tx = [0, 1, 2], req_Type = CheckTxType_New\<rparr>"
  let ?r = "CheckTx demo_check_handler (demo_tob []) ?req"
  have e: "snd (snd ?r) = None"
    by (simp add: CheckTx_def demo_check_handler_def demo_factory_def demo_info_def CheckTx_bid_def
        GetContextForBidTx_def ValidateBidTx_def demo_tob_def demo_core_def list_mempool_def)
  have i: "GetAuctionBidInfo (ct_factory demo_check_handler) (demo_tx [0, 1, 2]) = Ok (Some (demo_info [0, 1, 2]))"
    by (simp add: demo_check_handler_def demo_factory_def)
  have ins: "mp_Insert (mempool_ops (demo_tob [])) (mempool (demo_tob [])) c t = ([t], Ok ())" for c t
    by (simp add: demo_tob_def demo_core_def list_mempool_def)
  have r: "?r = (fst ?r, fst (snd ?r), snd (snd ?r))" by simp
  have d: "ct_txDecoder demo_check_handler (req_Tx ?req) = Ok (demo_tx [0, 1, 2])"
    by (simp add: demo_check_handler_def)
  from CheckTx_admits_verified_bids [OF r d] e i
  obtain m' where "fst ?r = (demo_tob [])\<lparr>mempool := m'\<rparr>" "m' = [demo_tx [0, 1, 2]]"
    unfolding ins by blast
  then show ?thesis by blast
qed

end
