(* ===== verification/Bb_Mempool.thy ===== *)
theory Bb_Mempool
  imports Lane_Mempool Terminator Demo
begin

text \<open>
  \<^verbatim>\<open>blockbuster/mempool.go\<close>: the application mempool, a registry of lanes. It is constructed with
  ignore lists that make the lanes disjoint, and it forwards each operation to the lanes. The
  contract that it relies on, of the mempool inside each lane, is the locale \<open>lane_pool\<close>.
\<close>

section \<open>Methods of a lane\<close>

text \<open>The methods of the interface \<open>Lane\<close> that the mempool calls, on the lanes of the repository.\<close>

fun lane_name :: "('m, 'd, 'b) lane \<Rightarrow> string" where
  "lane_name (LaneC l) = lane_Name (core l)"
| "lane_name TerminatorLane = Terminator_LaneName"

fun lane_Match :: "('m, 'd, 'b) lane \<Rightarrow> 'b match_handler" where
  "lane_Match (LaneC l) = Match (core l)"
| "lane_Match TerminatorLane = Terminator_Match"

fun lane_SetIgnoreList :: "'b match_handler list \<Rightarrow> ('m, 'd, 'b) lane \<Rightarrow> ('m, 'd, 'b) lane" where
  "lane_SetIgnoreList lanes (LaneC l) = LaneC (l\<lparr>core := SetIgnoreList lanes (core l)\<rparr>)"
| "lane_SetIgnoreList lanes TerminatorLane = TerminatorLane"

fun lane_CountTx :: "('m, 'd, 'b) lane \<Rightarrow> int" where
  "lane_CountTx (LaneC l) = mp_CountTx (mempool_ops (core l)) (mempool (core l))"
| "lane_CountTx TerminatorLane = mp_CountTx (Terminator_mempool :: (unit, 'b) LaneMempool_ops) ()"

fun lane_Contains :: "('m, 'd, 'b) lane \<Rightarrow> tx \<Rightarrow> bool" where
  "lane_Contains (LaneC l) t = mp_Contains (mempool_ops (core l)) (mempool (core l)) t"
| "lane_Contains TerminatorLane t = mp_Contains (Terminator_mempool :: (unit, 'b) LaneMempool_ops) () t"

fun lane_Insert :: "('m, 'd, 'b) lane \<Rightarrow> 'b Context \<Rightarrow> tx \<Rightarrow> ('m, 'd, 'b) lane \<times> unit outcome" where
  "lane_Insert (LaneC l) ctx t =
     (case mp_Insert (mempool_ops (core l)) (mempool (core l)) ctx t of
        (m, r) \<Rightarrow> (LaneC (lane_set_mempool m l), r))"
| "lane_Insert TerminatorLane ctx t = (TerminatorLane, snd (mp_Insert (Terminator_mempool :: (unit, 'b) LaneMempool_ops) () ctx t))"

fun lane_Remove :: "('m, 'd, 'b) lane \<Rightarrow> tx \<Rightarrow> ('m, 'd, 'b) lane \<times> unit outcome" where
  "lane_Remove (LaneC l) t =
     (case mp_Remove (mempool_ops (core l)) (mempool (core l)) t of
        (m, r) \<Rightarrow> (LaneC (lane_set_mempool m l), r))"
| "lane_Remove TerminatorLane t = (TerminatorLane, snd (mp_Remove (Terminator_mempool :: (unit, 'b) LaneMempool_ops) () t))"

section \<open>Construction\<close>

text \<open>A \<open>BBMempool\<close> is its registry (the logger has no content).\<close>

type_synonym ('m, 'd, 'b) BBMempool = "('m, 'd, 'b) lane list"

fun space_loop :: "'d dec_ops \<Rightarrow> ('m, 'd, 'b) lane list \<Rightarrow> 'd \<Rightarrow> bool \<Rightarrow> 'd \<times> bool" where
  "space_loop D [] acc seenZero = (acc, seenZero)"
| "space_loop D (lane # lanes) acc seenZero =
     space_loop D lanes (Dec_Add D acc (lane_space D lane))
       (if Dec_IsZero D (lane_space D lane) then True else seenZero)"

definition BB_ValidateBasic :: "'d dec_ops \<Rightarrow> ('m, 'd, 'b) BBMempool \<Rightarrow> unit outcome" where
  "BB_ValidateBasic D m =
     (case space_loop D m (LegacyZeroDec D) False of
        (blockSpace, seenZeroMaxBlockSpace) \<Rightarrow>
          if Dec_GT D blockSpace (LegacyOneDec D) then
            Err (ErrMsg ''sum of lane max block space percentages must be less than or equal to 1'')
          else if Dec_LT D blockSpace (LegacyOneDec D) \<and> \<not> seenZeroMaxBlockSpace then
            Err (ErrMsg ''sum of total block space percentages will be less than 1'')
          else Ok ())"

text \<open>
  The lanes are visited in order; \<open>seen\<close> are the lanes before the current one. An ignore list
  refers to these lanes, whose own ignore lists are already set, through their \<open>Match\<close> methods.
\<close>

fun set_ignore_lists :: "('m, 'd, 'b) lane list \<Rightarrow> ('m, 'd, 'b) lane list \<Rightarrow> ('m, 'd, 'b) lane list" where
  "set_ignore_lists seen [] = seen"
| "set_ignore_lists seen (lane # lanes) =
     set_ignore_lists
       (seen @ [if length seen > 0 then lane_SetIgnoreList (map lane_Match seen) lane else lane]) lanes"

definition NewMempool ::
  "'d dec_ops \<Rightarrow> bool \<Rightarrow> ('m, 'd, 'b) lane list \<Rightarrow> ('m, 'd, 'b) BBMempool outcome" where
  "NewMempool D mutex lanes =
     (case BB_ValidateBasic D lanes of
        Ok _ \<Rightarrow> Ok (if mutex then set_ignore_lists [] lanes else lanes)
      | Err e \<Rightarrow> Panic ''invalid mempool''
      | Panic s \<Rightarrow> Panic s)"

section \<open>Operations\<close>

fun BB_CountTx :: "('m, 'd, 'b) BBMempool \<Rightarrow> int" where
  "BB_CountTx m = foldl (\<lambda>n lane. i64 (n + lane_CountTx lane)) 0 m"

definition GetTxDistribution :: "('m, 'd, 'b) BBMempool \<Rightarrow> string \<rightharpoonup> int" where
  "GetTxDistribution m = foldl (\<lambda>counts lane. counts(lane_name lane \<mapsto> lane_CountTx lane)) Map.empty m"

text \<open>
  The loops of \<open>Insert\<close> and \<open>Remove\<close> collect one message per lane that failed; a panic leaves
  the lanes behind untouched.
\<close>

fun insert_loop ::
  "('m, 'd, 'b) lane list \<Rightarrow> 'b Context \<Rightarrow> tx \<Rightarrow> ('m, 'd, 'b) lane list \<times> string list outcome" where
  "insert_loop [] ctx t = ([], Ok [])"
| "insert_loop (lane # lanes) ctx t =
     (if \<not> lane_Match lane ctx t then
        (case insert_loop lanes ctx t of (lanes', r) \<Rightarrow> (lane # lanes', r))
      else
        (case lane_Insert lane ctx t of
           (lane', Panic s) \<Rightarrow> (lane' # lanes, Panic s)
         | (lane', Ok _) \<Rightarrow> (case insert_loop lanes ctx t of (lanes', r) \<Rightarrow> (lane' # lanes', r))
         | (lane', Err e) \<Rightarrow>
             (case insert_loop lanes ctx t of
                (lanes', r) \<Rightarrow>
                  (lane' # lanes',
                   obind r (\<lambda>errs. Ok ((''failed to insert tx into lane '' @ lane_name lane') # errs))))))"

fun remove_loop ::
  "('m, 'd, 'b) lane list \<Rightarrow> tx \<Rightarrow> ('m, 'd, 'b) lane list \<times> string list outcome" where
  "remove_loop [] t = ([], Ok [])"
| "remove_loop (lane # lanes) t =
     (if \<not> lane_Contains lane t then
        (case remove_loop lanes t of (lanes', r) \<Rightarrow> (lane # lanes', r))
      else
        (case lane_Remove lane t of
           (lane', Panic s) \<Rightarrow> (lane' # lanes, Panic s)
         | (lane', Ok _) \<Rightarrow> (case remove_loop lanes t of (lanes', r) \<Rightarrow> (lane' # lanes', r))
         | (lane', Err e) \<Rightarrow>
             (case remove_loop lanes t of
                (lanes', r) \<Rightarrow>
                  (lane' # lanes',
                   if e \<noteq> ErrTxNotFound then
                     obind r (\<lambda>errs. Ok ((''failed to remove tx from lane '' @ lane_name lane') # errs))
                   else r))))"

fun join_semi :: "string list \<Rightarrow> string" where
  "join_semi [] = ''''"
| "join_semi [s] = s"
| "join_semi (s # ss) = s @ '';'' @ join_semi ss"

definition joined_errors :: "string \<Rightarrow> string list outcome \<Rightarrow> unit outcome" where
  "joined_errors panic_msg r =
     (case r of
        Ok errs \<Rightarrow> if length errs = 0 then Ok () else Err (ErrMsg (join_semi errs))
      | Err e \<Rightarrow> Err e
      | Panic s \<Rightarrow> Err (ErrMsg panic_msg))"

definition BB_Insert ::
  "('m, 'd, 'b) BBMempool \<Rightarrow> 'b Context \<Rightarrow> tx \<Rightarrow> ('m, 'd, 'b) BBMempool \<times> unit outcome" where
  "BB_Insert m ctx t = (case insert_loop m ctx t of (m', r) \<Rightarrow> (m', joined_errors ''panic in Insert'' r))"

definition BB_Select :: "('m, 'd, 'b) BBMempool \<Rightarrow> tx list option" where
  "BB_Select m = None"

definition BB_Remove :: "('m, 'd, 'b) BBMempool \<Rightarrow> tx \<Rightarrow> ('m, 'd, 'b) BBMempool \<times> unit outcome" where
  "BB_Remove m t = (case remove_loop m t of (m', r) \<Rightarrow> (m', joined_errors ''panic in Remove'' r))"

fun BB_Contains :: "('m, 'd, 'b) BBMempool \<Rightarrow> tx \<Rightarrow> bool" where
  "BB_Contains [] t = False"
| "BB_Contains (lane # lanes) t = (if lane_Contains lane t then True else BB_Contains lanes t)"

definition Registry :: "('m, 'd, 'b) BBMempool \<Rightarrow> ('m, 'd, 'b) lane list" where
  "Registry m = m"

fun GetLane :: "('m, 'd, 'b) BBMempool \<Rightarrow> string \<Rightarrow> ('m, 'd, 'b) lane outcome" where
  "GetLane [] name = Err (ErrMsg ''lane not found'')"
| "GetLane (lane # lanes) name = (if lane_name lane = name then Ok lane else GetLane lanes name)"

section \<open>Disjoint lanes\<close>

text \<open>What the lane's own match handler says, whatever its ignore list.\<close>

fun lane_accepts :: "('m, 'd, 'b) lane \<Rightarrow> 'b match_handler" where
  "lane_accepts (LaneC l) = matchHandler (core l)"
| "lane_accepts TerminatorLane = Terminator_Match"

fun lane_ignores :: "('m, 'd, 'b) lane \<Rightarrow> 'b match_handler list" where
  "lane_ignores (LaneC l) = IgnoreList (cfg (core l))"
| "lane_ignores TerminatorLane = []"

lemma lane_Match_iff:
  "lane_Match l ctx t \<longleftrightarrow> lane_accepts l ctx t \<and> (\<forall>m \<in> set (lane_ignores l). \<not> m ctx t)"
  by (cases l) (simp_all add: Match_iff Terminator_Match_def)

lemma lane_Match_SetIgnoreList:
  "lane_Match (lane_SetIgnoreList ig l) ctx t \<longleftrightarrow> lane_accepts l ctx t \<and> (\<forall>m \<in> set ig. \<not> m ctx t)"
  by (cases l) (simp_all add: Match_iff SetIgnoreList_def Terminator_Match_def)

text \<open>Each lane of \<open>seen\<close> takes what its own handler accepts and no handler before it does.\<close>

definition first_takes :: "('m, 'd, 'b) lane list \<Rightarrow> ('m, 'd, 'b) lane list \<Rightarrow> bool" where
  "first_takes lanes seen \<longleftrightarrow> length seen = length lanes \<and>
     (\<forall>i < length seen. \<forall>ctx t. lane_Match (seen ! i) ctx t \<longleftrightarrow>
        lane_accepts (lanes ! i) ctx t \<and> (\<forall>j < i. \<not> lane_accepts (lanes ! j) ctx t))"

lemma first_takes_none:
  assumes "first_takes lanes seen"
  shows "(\<forall>s \<in> set seen. \<not> lane_Match s ctx t) \<longleftrightarrow> (\<forall>l \<in> set lanes. \<not> lane_accepts l ctx t)"
proof
  assume none: "\<forall>s \<in> set seen. \<not> lane_Match s ctx t"
  have "i < length lanes \<Longrightarrow> \<not> lane_accepts (lanes ! i) ctx t" for i
  proof (induction i rule: less_induct)
    case (less i)
    then show ?case using none assms by (auto simp: first_takes_def all_set_conv_all_nth)
  qed
  then show "\<forall>l \<in> set lanes. \<not> lane_accepts l ctx t" by (auto simp: in_set_conv_nth)
next
  assume none: "\<forall>l \<in> set lanes. \<not> lane_accepts l ctx t"
  show "\<forall>s \<in> set seen. \<not> lane_Match s ctx t"
  proof
    fix s assume "s \<in> set seen"
    then obtain i where i: "i < length seen" "s = seen ! i" by (auto simp: in_set_conv_nth)
    then have "lanes ! i \<in> set lanes" using assms by (simp add: first_takes_def)
    with none i assms show "\<not> lane_Match s ctx t" by (simp add: first_takes_def)
  qed
qed

lemma first_takes_snoc:
  assumes "first_takes lanes seen"
    and "\<And>ctx t. lane_Match new ctx t \<longleftrightarrow>
      lane_accepts lane ctx t \<and> (\<forall>l \<in> set lanes. \<not> lane_accepts l ctx t)"
  shows "first_takes (lanes @ [lane]) (seen @ [new])"
  unfolding first_takes_def
proof (intro conjI allI impI)
  show "length (seen @ [new]) = length (lanes @ [lane])" using assms(1) by (simp add: first_takes_def)
  fix i ctx t assume "i < length (seen @ [new])"
  then consider "i < length seen" | "i = length seen" by fastforce
  then show "lane_Match ((seen @ [new]) ! i) ctx t \<longleftrightarrow> lane_accepts ((lanes @ [lane]) ! i) ctx t \<and>
      (\<forall>j < i. \<not> lane_accepts ((lanes @ [lane]) ! j) ctx t)"
  proof cases
    case 1
    then show ?thesis using assms(1) by (simp add: first_takes_def nth_append)
  next
    case 2
    then have "i = length lanes" using assms(1) by (simp add: first_takes_def)
    then show ?thesis using assms(2) [of ctx t] 2 by (simp add: nth_append all_set_conv_all_nth)
  qed
qed

lemma set_ignore_lists_first_takes:
  "first_takes done_lanes seen \<Longrightarrow> (\<forall>l \<in> set lanes. lane_ignores l = []) \<Longrightarrow>
   first_takes (done_lanes @ lanes) (set_ignore_lists seen lanes)"
proof (induction lanes arbitrary: done_lanes seen)
  case (Cons lane lanes)
  let ?new = "if length seen > 0 then lane_SetIgnoreList (map lane_Match seen) lane else lane"
  have m: "lane_Match ?new ctx t \<longleftrightarrow> lane_accepts lane ctx t \<and> (\<forall>l \<in> set done_lanes. \<not> lane_accepts l ctx t)"
    for ctx t
  proof (cases "seen = []")
    case True
    then have "done_lanes = []" using Cons.prems(1) by (simp add: first_takes_def)
    with True Cons.prems(2) show ?thesis by (simp add: lane_Match_iff)
  next
    case False
    have "(\<forall>m \<in> set (map lane_Match seen). \<not> m ctx t) \<longleftrightarrow> (\<forall>s \<in> set seen. \<not> lane_Match s ctx t)" by simp
    then show ?thesis
      using False lane_Match_SetIgnoreList [of "map lane_Match seen" lane ctx t]
      by (simp only: first_takes_none [OF Cons.prems(1)] length_greater_0_conv if_True not_False_eq_True)
  qed
  have "first_takes (done_lanes @ [lane]) (seen @ [?new])"
    by (rule first_takes_snoc [OF Cons.prems(1) m])
  from Cons.IH [OF this] Cons.prems(2) show ?case by simp
qed simp

section \<open>The contract of the mempool of a lane\<close>

text \<open>
  Inserting makes a transaction present and removing makes it absent; a failed removal is never
  reported by the bare sentinel \<open>ErrTxNotFound\<close>, which the caller would take for success.
\<close>

fun pooled :: "('m, 'b) LaneMempool_ops \<Rightarrow> ('m, 'd, 'b) lane \<Rightarrow> bool" where
  "pooled ops (LaneC l) \<longleftrightarrow> mempool_ops (core l) = ops"
| "pooled ops TerminatorLane \<longleftrightarrow> True"

locale lane_pool =
  fixes ops :: "('m, 'b) LaneMempool_ops"
  assumes insert_present: "mp_Insert ops m ctx t = (m', Ok ()) \<Longrightarrow> mp_Contains ops m' t"
    and remove_absent: "mp_Remove ops m t = (m', Ok ()) \<Longrightarrow> \<not> mp_Contains ops m' t"
    and remove_reports: "mp_Remove ops m t \<noteq> (m', Err ErrTxNotFound)"
begin

lemma lane_insert_present:
  "pooled ops l \<Longrightarrow> lane_Match l ctx t \<Longrightarrow> lane_Insert l ctx t = (l', Ok ()) \<Longrightarrow> lane_Contains l' t"
  using insert_present
  by (cases l) (auto simp: lane_set_mempool_def Terminator_Match_def split: prod.splits)

lemma lane_remove_absent:
  "pooled ops l \<Longrightarrow> lane_Remove l t = (l', Ok ()) \<Longrightarrow> \<not> lane_Contains l' t"
  using remove_absent
  by (cases l) (auto simp: lane_set_mempool_def Terminator_mempool_def split: prod.splits)

lemma lane_remove_reports: "pooled ops l \<Longrightarrow> lane_Remove l t \<noteq> (l', Err ErrTxNotFound)"
  using remove_reports
  by (cases l) (auto simp: Terminator_mempool_def split: prod.splits)

lemma insert_loop_present:
  "list_all (pooled ops) lanes \<Longrightarrow> insert_loop lanes ctx t = (lanes', Ok []) \<Longrightarrow>
   \<exists>l \<in> set lanes. lane_Match l ctx t \<Longrightarrow> BB_Contains lanes' t"
proof (induction lanes arbitrary: lanes')
  case (Cons l ls)
  then show ?case
    using lane_insert_present [of l ctx t]
    by (auto split: prod.splits outcome.splits if_splits simp: obind_eq_Ok)
qed simp

lemma remove_loop_absent:
  "list_all (pooled ops) lanes \<Longrightarrow> remove_loop lanes t = (lanes', Ok []) \<Longrightarrow> \<not> BB_Contains lanes' t"
proof (induction lanes arbitrary: lanes')
  case (Cons l ls)
  then show ?case
    using lane_remove_absent [of l t] lane_remove_reports [of l t]
    by (auto split: prod.splits outcome.splits if_splits simp: obind_eq_Ok)
qed simp

end

lemma CM_Remove_reports: "CM_Remove IX sha cm t \<noteq> (cm', Err ErrTxNotFound)"
  by (auto simp: CM_Remove_def Let_def wrap_err_def split: prod.splits outcome.splits if_splits)

interpretation cm_pool: lane_pool "CM_ops IX sha :: (('i, 'p, 'b) ConstructorMempool, 'b) LaneMempool_ops"
  for IX sha
  by unfold_locales
    (auto simp: CM_ops_def CM_Remove_reports intro: CM_Insert_Ok(1) dest: CM_Remove_Ok(1))

section \<open>Properties\<close>

text \<open>
  C18: A mempool created with \<open>mutex\<close> from lanes without ignore lists has disjoint lanes: a
  transaction matches exactly the first lane whose match handler accepts it, and no other.
\<close>

theorem NewMempool_mutex_disjoint:
  assumes "NewMempool D True lanes = Ok m" and "\<forall>l \<in> set lanes. lane_ignores l = []"
  shows "length m = length lanes \<and>
     (\<forall>i < length m. lane_Match (m ! i) ctx t \<longleftrightarrow>
        lane_accepts (lanes ! i) ctx t \<and> (\<forall>j < i. \<not> lane_accepts (lanes ! j) ctx t))"
proof -
  have "m = set_ignore_lists [] lanes"
    using assms(1) by (auto simp: NewMempool_def split: outcome.splits)
  moreover have "first_takes ([] @ lanes) (set_ignore_lists [] lanes)"
    by (rule set_ignore_lists_first_takes) (use assms(2) in \<open>simp_all add: first_takes_def\<close>)
  ultimately show ?thesis by (simp add: first_takes_def)
qed

text \<open>A lane with a share of the block and a match handler.\<close>

definition demo_share_lane :: "int \<Rightarrow> unit match_handler \<Rightarrow> (tx list, int, unit) lane" where
  "demo_share_lane space handler =
     LaneC ((demo_lane (const_handler []) [])\<lparr>core := (demo_core [])\<lparr>
       cfg := demo_cfg\<lparr>MaxBlockSpace := space\<rparr>, matchHandler := handler\<rparr>\<rparr>)"

lemma demo_share_lane_simps [simp]:
  "lane_ignores (demo_share_lane d h) = []"
  "lane_accepts (demo_share_lane d h) = h"
  "lane_space D (demo_share_lane d h) = d"
  by (simp_all add: demo_share_lane_def demo_core_def demo_cfg_def lane_GetMaxBlockSpace_def)

theorem NewMempool_mutex_disjoint_witness:
  "\<exists>m. NewMempool int_dec_ops True
      [demo_share_lane 0 (\<lambda>ctx t. tx_raw t \<noteq> []), demo_share_lane 0 DefaultMatchHandler] = Ok m \<and>
     lane_Match (m ! 0) demo_ctx (demo_tx [1]) \<and> \<not> lane_Match (m ! 1) demo_ctx (demo_tx [1])"
proof -
  let ?lanes = "[demo_share_lane 0 (\<lambda>ctx t. tx_raw t \<noteq> []), demo_share_lane 0 DefaultMatchHandler]"
  have v: "BB_ValidateBasic int_dec_ops ?lanes = Ok ()"
    by (simp add: BB_ValidateBasic_def int_dec_ops_def)
  then obtain m where m: "NewMempool int_dec_ops True ?lanes = Ok m" by (simp add: NewMempool_def)
  from NewMempool_mutex_disjoint [OF m, of demo_ctx "demo_tx [1]"] m show ?thesis by (auto simp: less_Suc_eq)
qed

lemma space_loop_eq:
  assumes "dec_laws D v" and "\<forall>l \<in> set lanes. \<not> Dec_IsNil D (lane_space D l)" and "\<not> Dec_IsNil D acc"
  shows "\<exists>s. space_loop D lanes acc z = (s, z \<or> (\<exists>l \<in> set lanes. v (lane_space D l) = 0)) \<and>
     \<not> Dec_IsNil D s \<and> v s = v acc + sum_list (map (\<lambda>l. v (lane_space D l)) lanes)"
  using assms(2,3)
proof (induction lanes arbitrary: acc z)
  case (Cons l ls)
  note laws = dec_lawsD [OF assms(1)]
  have n: "\<not> Dec_IsNil D (lane_space D l)" using Cons.prems by simp
  from Cons.IH [OF _ laws(10) [OF Cons.prems(2) n], of "if Dec_IsZero D (lane_space D l) then True else z"]
    Cons.prems
  show ?case by (auto simp: laws(5) [OF n] laws(11) [OF Cons.prems(2) n])
qed simp

text \<open>
  C34: A mempool is created exactly if the shares of its lanes sum up to the whole block, or to
  less and some lane has no fixed share (it takes what is left).
\<close>

theorem NewMempool_accepts_iff:
  assumes "dec_laws D v" and "\<forall>l \<in> set lanes. \<not> Dec_IsNil D (lane_space D l)"
  shows "(\<exists>m. NewMempool D mutex lanes = Ok m) \<longleftrightarrow>
     (let total_space = sum_list (map (\<lambda>l. v (lane_space D l)) lanes)
      in total_space = dec_unit \<or>
         (total_space < dec_unit \<and> (\<exists>l \<in> set lanes. v (lane_space D l) = 0)))"
proof -
  note laws = dec_lawsD [OF assms(1)]
  obtain s where s: "space_loop D lanes (LegacyZeroDec D) False
      = (s, \<exists>l \<in> set lanes. v (lane_space D l) = 0)" "\<not> Dec_IsNil D s"
    "v s = sum_list (map (\<lambda>l. v (lane_space D l)) lanes)"
    using space_loop_eq [OF assms laws(1), of False] laws(2) by auto
  have "Dec_GT D s (LegacyOneDec D) \<longleftrightarrow> dec_unit < v s" "Dec_LT D s (LegacyOneDec D) \<longleftrightarrow> v s < dec_unit"
    using laws(8,9) [OF s(2) laws(3)] laws(4) by simp_all
  then show ?thesis
    by (auto simp: NewMempool_def BB_ValidateBasic_def s(1) s(3) [symmetric] Let_def)
qed

theorem NewMempool_accepts_iff_witness:
  "\<not> (\<exists>m. NewMempool int_dec_ops True [demo_share_lane (4 * 10 ^ 17) DefaultMatchHandler] = Ok m)"
  using NewMempool_accepts_iff [OF int_dec_ops_laws, of "[demo_share_lane (4 * 10 ^ 17) DefaultMatchHandler]" True]
  by (simp add: int_dec_ops_def)

lemma joined_errors_Ok_iff: "joined_errors s r = Ok () \<longleftrightarrow> r = Ok []"
  by (cases r) (simp_all add: joined_errors_def)

lemma BB_Insert_Ok_iff: "BB_Insert m ctx t = (m', Ok ()) \<longleftrightarrow> insert_loop m ctx t = (m', Ok [])"
  by (cases "insert_loop m ctx t") (simp add: BB_Insert_def joined_errors_Ok_iff)

lemma BB_Remove_Ok_iff: "BB_Remove m t = (m', Ok ()) \<longleftrightarrow> remove_loop m t = (m', Ok [])"
  by (cases "remove_loop m t") (simp add: BB_Remove_def joined_errors_Ok_iff)

text \<open>
  C33: On lanes with the mempool of the repository, a transaction that is inserted without an
  error and matches some lane is contained in the application mempool, and one that is removed
  without an error is not contained any more.
\<close>

theorem BBMempool_insert_remove:
  assumes "list_all (pooled (CM_ops IX sha)) m"
  shows "(\<forall>m' ctx. BB_Insert m ctx t = (m', Ok ()) \<and> (\<exists>l \<in> set m. lane_Match l ctx t) \<longrightarrow> BB_Contains m' t) \<and>
     (\<forall>m'. BB_Remove m t = (m', Ok ()) \<longrightarrow> \<not> BB_Contains m' t)"
  using cm_pool.insert_loop_present [OF assms] cm_pool.remove_loop_absent [OF assms]
  unfolding BB_Insert_Ok_iff BB_Remove_Ok_iff by blast

definition list_index :: "(tx list, unit) index_ops" where
  "list_index = \<lparr>idx_Insert = (\<lambda>i ctx t. (i @ [t], Ok ())),
     idx_Remove = (\<lambda>i t. if t \<in> set i then (remove1 t i, Ok ()) else (i, Err ErrTxNotFound)),
     idx_Select = (\<lambda>i. (i, i)), idx_CountTx = (\<lambda>i. int (length i))\<rparr>"

definition demo_pool_lane :: "((tx list, string, unit) ConstructorMempool, int, unit) lane" where
  "demo_pool_lane = LaneC
     \<lparr>core = \<lparr>cfg = demo_cfg, laneName = ''pool'', mempool_ops = CM_ops list_index id,
        mempool = \<lparr>cm_index = [], cm_txPriority = \<lparr>GetTxPriority = (\<lambda>ctx t. Ok ''''),
            ComparePriority = (\<lambda>a b. 0), MinValue = ''''\<rparr>,
          cm_txEncoder = Some demo_encoder, cm_txCache = {}\<rparr>,
        matchHandler = DefaultMatchHandler\<rparr>,
      prepareLaneHandler = NoOpPrepareLaneHandler, checkOrderHandler = DefaultCheckOrderHandler,
      processLaneHandler = NoOpProcessLaneHandler\<rparr>"

lemma demo_pool_Insert: "snd (BB_Insert [demo_pool_lane] demo_ctx (demo_tx [7])) = Ok ()"
  by (simp add: BB_Insert_def demo_pool_lane_def Match_iff demo_cfg_def DefaultMatchHandler_def CM_ops_def
      CM_Insert_def list_index_def cm_hash_def GetTxHashStr_def Let_def joined_errors_def)

theorem BBMempool_insert_remove_witness:
  "BB_Contains (fst (BB_Insert [demo_pool_lane] demo_ctx (demo_tx [7]))) (demo_tx [7])"
proof -
  have p: "list_all (pooled (CM_ops list_index id)) [demo_pool_lane]" by (simp add: demo_pool_lane_def)
  have "\<exists>l \<in> set [demo_pool_lane]. lane_Match l demo_ctx (demo_tx [7])"
    by (simp add: demo_pool_lane_def Match_iff demo_cfg_def DefaultMatchHandler_def)
  with BBMempool_insert_remove [OF p, of "demo_tx [7]"] demo_pool_Insert show ?thesis
    by (metis prod.collapse)
qed

end
