(* ===== verification/Proto.thy ===== *)
theory Proto
  imports Sdk
begin

text \<open>
  The vocabulary of the generated protocol buffer code of \<^verbatim>\<open>x/builder/types/*.pb.go\<close>: varints,
  the buffer that \<open>MarshalToSizedBuffer\<close> fills from its end, the loops that decode fields,
  and the routine that skips an unknown field. The generator emits the same helpers into
  each file (\<open>encodeVarintGenesis\<close>, \<open>encodeVarintTx\<close>, \<dots>); they are defined once here.
\<close>

unbundle bit_operations_syntax

section \<open>Varints\<close>

text \<open>\<^verbatim>\<open>math/bits.Len64\<close>, by the number of halvings.\<close>

fun bit_len :: "nat \<Rightarrow> nat" where
  "bit_len n = (if n = 0 then 0 else Suc (bit_len (n div 2)))"

declare bit_len.simps [simp del]

definition Len64 :: "64 word \<Rightarrow> nat" where
  "Len64 x = bit_len (unat x)"

definition sov :: "64 word \<Rightarrow> nat" where
  "sov x = (Len64 (x OR 1) + 6) div 7"

text \<open>The bytes of a varint, least significant group first.\<close>

lemma unat_drop_bit_7: "unat (drop_bit 7 (v :: 64 word)) = unat v div 128"
  by (simp only: unat_drop_bit_eq) (simp add: drop_bit_eq_div)

lemma unat_drop_bit_less: "128 \<le> (v :: 64 word) \<Longrightarrow> unat (drop_bit 7 v) < unat v"
  by (simp only: unat_drop_bit_7) (simp add: word_le_nat_alt)

function varint :: "64 word \<Rightarrow> bytes" where
  "varint v =
     (if 128 \<le> v then ucast (v AND 0x7f OR 0x80) # varint (drop_bit 7 v) else [ucast v])"
  by auto
termination
  by (relation "measure unat") (simp_all add: unat_drop_bit_less)

declare varint.simps [simp del]

lemma bit_len_shift7: "128 \<le> n \<Longrightarrow> bit_len n = 7 + bit_len (n div 128)"
proof -
  assume "128 \<le> n"
  then have "0 < n div 64" "0 < n div 32" "0 < n div 16" "0 < n div 8" "0 < n div 4"
    by (simp_all add: div_greater_zero_iff)
  with \<open>128 \<le> n\<close> show ?thesis
    by (simp add: bit_len.simps [of n] bit_len.simps [of "n div 2"] bit_len.simps [of "n div 4"]
        bit_len.simps [of "n div 8"] bit_len.simps [of "n div 16"] bit_len.simps [of "n div 32"]
        bit_len.simps [of "n div 64"] div_mult2_eq [symmetric])
qed

lemma bit_len_less_128: "0 < n \<Longrightarrow> n < 128 \<Longrightarrow> 0 < bit_len n \<and> bit_len n \<le> 7"
proof -
  assume a: "0 < n" "n < 128"
  have m: "bit_len k \<le> Suc i" if "k < 2 ^ Suc i" "\<And>j. j < 2 ^ i \<Longrightarrow> bit_len j \<le> i" for k i
    using that by (simp add: bit_len.simps [of k])
  have "k < 2 ^ i \<Longrightarrow> bit_len k \<le> i" for k i
    by (induction i arbitrary: k) (auto simp: bit_len.simps [of 0] intro: m)
  from this [of n 7] a show ?thesis by (simp add: bit_len.simps [of n])
qed

lemma bit_len_or_1: "bit_len (unat (v OR 1 :: 64 word)) = bit_len (max 1 (unat v))"
proof (cases "unat v = 0")
  case False
  have "(unat v OR 1) div 2 = unat v div 2" "unat v OR 1 \<noteq> 0"
    using False by (simp_all add: or_Suc_0_eq)
  then have "bit_len (unat v OR 1) = bit_len (unat v)"
    using False by (simp only: bit_len.simps [of "unat v OR 1"] bit_len.simps [of "unat v"] if_False)
  with False show ?thesis by (simp add: unsigned_or_eq max_def)
qed (simp add: unsigned_or_eq)

lemma length_varint: "length (varint v) = sov v"
proof (induction v rule: varint.induct)
  case (1 v)
  show ?case
  proof (cases "128 \<le> v")
    case True
    then have n: "128 \<le> unat v" by (simp add: word_le_nat_alt)
    note d = unat_drop_bit_7 [of v]
    have "1 \<le> unat v div 128" using n by (simp add: less_eq_div_iff_mult_less_eq)
    with True 1 n show ?thesis
      by (subst varint.simps)
        (simp add: sov_def Len64_def bit_len_or_1 d max_def bit_len_shift7 [OF n])
  next
    case False
    then have "unat v < 128" by (simp add: word_le_nat_alt)
    then have "0 < bit_len (max 1 (unat v))" "bit_len (max 1 (unat v)) \<le> 7"
      using bit_len_less_128 [of "max 1 (unat v)"] by simp_all
    then have "(bit_len (max 1 (unat v)) + 6) div 7 = 1" by linarith
    with False show ?thesis
      by (subst varint.simps) (simp add: sov_def Len64_def bit_len_or_1)
  qed
qed

lemma sov_pos [simp]: "0 < sov v"
  by (simp flip: length_varint) (simp add: varint.simps [of v])

section \<open>Strings as bytes\<close>

text \<open>A Go string is a byte sequence; the conversions are the identity on its bytes.\<close>

definition str_bytes :: "string \<Rightarrow> bytes" where
  "str_bytes s = map (\<lambda>c. of_nat (of_char c)) s"

definition bytes_str :: "bytes \<Rightarrow> string" where
  "bytes_str bs = map (\<lambda>b. char_of (unat b)) bs"

lemma length_str_bytes [simp]: "length (str_bytes s) = length s"
  by (simp add: str_bytes_def)

lemma str_bytes_eq_Nil [simp]: "str_bytes s = [] \<longleftrightarrow> s = []"
  by (simp add: str_bytes_def)

lemma bytes_str_str_bytes [simp]: "bytes_str (str_bytes s) = s"
proof -
  have "unat (of_nat (of_char c) :: byte) = of_char c" for c
    using of_char_mod_256 [of c, where 'a = nat] by (simp add: unsigned_of_nat take_bit_eq_mod)
  then show ?thesis by (simp add: bytes_str_def str_bytes_def o_def)
qed

section \<open>The buffer that is filled from its end\<close>

text \<open>
  \<open>MarshalToSizedBuffer\<close> works on a byte slice and an index \<open>i\<close> that moves towards 0. A
  writer maps the slice and the index to the new ones; an index out of range panics.
\<close>

type_synonym buf = "bytes \<times> int"
type_synonym writer = "buf \<Rightarrow> buf outcome"

text \<open>\<^verbatim>\<open>dAtA[i] = b\<close>\<close>

definition put_byte :: "bytes \<Rightarrow> int \<Rightarrow> byte \<Rightarrow> bytes outcome" where
  "put_byte d i b =
     (if 0 \<le> i \<and> i < int (length d) then Ok (d[nat i := b])
      else Panic ''index out of range'')"

text \<open>\<^verbatim>\<open>i--; dAtA[i] = b\<close>\<close>

definition w_byte :: "byte \<Rightarrow> writer" where
  "w_byte b = (\<lambda>(d, i). obind (put_byte d (i - 1) b) (\<lambda>d'. Ok (d', i - 1)))"

function encodeVarint_loop :: "bytes \<Rightarrow> int \<Rightarrow> 64 word \<Rightarrow> bytes outcome" where
  "encodeVarint_loop d offset v =
     (if 128 \<le> v then
        (case put_byte d offset (ucast (v AND 0x7f OR 0x80)) of
           Ok d' \<Rightarrow> encodeVarint_loop d' (offset + 1) (drop_bit 7 v)
         | Err e \<Rightarrow> Err e
         | Panic s \<Rightarrow> Panic s)
      else put_byte d offset (ucast v))"
  by auto
termination
  by (relation "measure (\<lambda>(d, offset, v). unat v)") (simp_all add: unat_drop_bit_less)

declare encodeVarint_loop.simps [simp del]

definition encodeVarint :: "64 word \<Rightarrow> writer" where
  "encodeVarint v = (\<lambda>(d, offset).
     (let base = offset - int (sov v)
      in obind (encodeVarint_loop d base v) (\<lambda>d'. Ok (d', base))))"

text \<open>\<^verbatim>\<open>i -= len(bs); copy(dAtA[i:], bs)\<close>; slicing at a negative index panics.\<close>

definition w_copy :: "bytes \<Rightarrow> writer" where
  "w_copy bs = (\<lambda>(d, i).
     (let j = i - int (length bs)
      in if j < 0 \<or> j > int (length d) then Panic ''slice bounds out of range''
         else (let k = min (length bs) (length d - nat j)
               in Ok (take (nat j) d @ take k bs @ drop (nat j + k) d, j))))"

definition seq_w :: "writer \<Rightarrow> writer \<Rightarrow> writer" where
  "seq_w f g = (\<lambda>s. obind (f s) g)"

definition skip_w :: writer where
  "skip_w = Ok"

text \<open>
  A writer writes the bytes \<open>bs\<close> if it fills the last free bytes of every buffer with them,
  and touches nothing else.
\<close>

definition buf_st :: "bytes \<Rightarrow> bytes \<Rightarrow> buf" where
  "buf_st free out = (free @ out, int (length free))"

definition writes :: "writer \<Rightarrow> bytes \<Rightarrow> bool" where
  "writes f bs \<longleftrightarrow>
     (\<forall>free junk out. length junk = length bs \<longrightarrow>
        f (buf_st (free @ junk) out) = Ok (buf_st free (bs @ out)))"

lemma writesD:
  "writes f bs \<Longrightarrow> length junk = length bs \<Longrightarrow>
   f (buf_st (free @ junk) out) = Ok (buf_st free (bs @ out))"
  by (simp add: writes_def)

named_theorems writes_intros \<open>which bytes a writer writes\<close>

lemma writes_skip [writes_intros]: "writes skip_w []"
  by (simp add: writes_def skip_w_def)

lemma writes_seq:
  assumes f: "writes f a" and g: "writes g b"
  shows "writes (seq_w f g) (b @ a)"
  unfolding writes_def
proof (intro allI impI)
  fix free junk out :: bytes
  assume l: "length junk = length (b @ a)"
  let ?j1 = "take (length b) junk" and ?j2 = "drop (length b) junk"
  have "f (buf_st ((free @ ?j1) @ ?j2) out) = Ok (buf_st (free @ ?j1) (a @ out))"
    by (rule writesD [OF f]) (use l in simp)
  moreover have "g (buf_st (free @ ?j1) (a @ out)) = Ok (buf_st free (b @ a @ out))"
    by (rule writesD [OF g]) (use l in simp)
  ultimately show "seq_w f g (buf_st (free @ junk) out) = Ok (buf_st free ((b @ a) @ out))"
    by (simp add: seq_w_def)
qed

lemma writes_byte [writes_intros]: "writes (w_byte b) [b]"
  unfolding writes_def
proof (intro allI impI)
  fix free junk out :: bytes
  assume "length junk = length [b]"
  then obtain x where "junk = [x]" by (cases junk) auto
  then show "w_byte b (buf_st (free @ junk) out) = Ok (buf_st free ([b] @ out))"
    by (simp add: w_byte_def buf_st_def put_byte_def nat_add_distrib)
qed

lemma writes_copy [writes_intros]: "writes (w_copy bs) bs"
  by (auto simp: writes_def w_copy_def buf_st_def Let_def nat_diff_distrib min_def)

lemma encodeVarint_loop_eq:
  "length junk = length (varint v) \<Longrightarrow>
   encodeVarint_loop (free @ junk @ out) (int (length free)) v = Ok (free @ varint v @ out)"
proof (induction v arbitrary: free junk rule: varint.induct)
  case (1 v)
  have "varint v \<noteq> []" by (simp add: varint.simps [of v])
  with 1(2) obtain x xs where j: "junk = x # xs" by (cases junk) auto
  show ?case
  proof (cases "128 \<le> v")
    case True
    let ?b = "ucast (v AND 0x7f OR 0x80) :: byte"
    have "length xs = length (varint (drop_bit 7 v))"
      using 1(2) True j by (simp add: varint.simps [of v])
    from 1(1) [OF True this, of "free @ [?b]"] True j show ?thesis
      by (subst encodeVarint_loop.simps, subst varint.simps)
        (simp add: put_byte_def nat_add_distrib algebra_simps)
  next
    case False
    with 1(2) j have "xs = []" by (simp add: varint.simps [of v])
    with False j show ?thesis
      by (subst encodeVarint_loop.simps, subst varint.simps) (simp add: put_byte_def)
  qed
qed

lemma writes_varint [writes_intros]: "writes (encodeVarint v) (varint v)"
  by (auto simp: writes_def encodeVarint_def buf_st_def Let_def length_varint
      encodeVarint_loop_eq simp flip: length_varint)

section \<open>Decoding\<close>

abbreviation "ErrIntOverflow \<equiv> ErrMsg ''proto: integer overflow''"
abbreviation "ErrInvalidLength \<equiv> ErrMsg ''proto: negative length found during unmarshaling''"
abbreviation "ErrUnexpectedEndOfGroup \<equiv> ErrMsg ''proto: unexpected end of group''"
abbreviation "ErrUnexpectedEOF \<equiv> ErrMsg ''unexpected EOF''"

text \<open>
  The decoding loops run over an index into the slice; the model passes the rest of the
  slice, so that \<^verbatim>\<open>iNdEx >= l\<close> is its emptiness. The accumulator has the width of the variable
  that the code shifts into.
\<close>

fun decode_varint :: "nat \<Rightarrow> 'a::len word \<Rightarrow> bytes \<Rightarrow> ('a word \<times> bytes) outcome" where
  "decode_varint shift acc bs =
     (if 64 \<le> shift then Err ErrIntOverflow
      else case bs of
        [] \<Rightarrow> Err ErrUnexpectedEOF
      | b # rest \<Rightarrow>
          (let acc' = acc OR push_bit shift (ucast (b AND 0x7F))
           in if b < 0x80 then Ok (acc', rest) else decode_varint (shift + 7) acc' rest))"

declare decode_varint.simps [simp del]

lemma decode_varint_shrinks:
  "decode_varint shift acc bs = Ok (v, rest) \<Longrightarrow> length rest < length bs"
proof (induction bs arbitrary: shift acc)
  case Nil
  then show ?case by (subst (asm) decode_varint.simps) (auto split: if_splits)
next
  case (Cons b bs)
  then show ?case
    by (subst (asm) decode_varint.simps) (fastforce simp: Let_def split: if_splits)
qed

lemma bit_128: "bit (128 :: 'c::semiring_bit_operations) k \<Longrightarrow> k = 7"
proof -
  have "(128 :: 'c) = 2 ^ 7" by simp
  then show "bit (128 :: 'c) k \<Longrightarrow> k = 7" by (simp only: bit_exp_iff)
qed

lemma group_bits:
  fixes w :: "64 word"
  shows "(acc :: 'a::len word) OR push_bit shift (ucast ((ucast (w AND 0x7f OR 0x80) :: byte) AND 0x7F))
      OR push_bit (shift + 7) (ucast (drop_bit 7 w))
    = acc OR push_bit shift (ucast w)"
proof (rule bit_word_eqI)
  have m: "(127 :: 64 word) = mask 7" "(127 :: byte) = mask 7" by (simp_all add: mask_eq_exp_minus_1)
  note h = bit_128
  fix n assume "n < LENGTH('a)"
  then show "bit (acc OR push_bit shift (ucast ((ucast (w AND 0x7f OR 0x80) :: byte) AND 0x7F))
      OR push_bit (shift + 7) (ucast (drop_bit 7 w))) n
    = bit (acc OR push_bit shift (ucast w)) n"
    unfolding m by (cases "shift + 7 \<le> n") (auto simp: bit_simps not_le not_less dest: h)
qed

lemma group_head:
  fixes w :: "64 word"
  shows "\<not> (ucast (w AND 0x7f OR 0x80) :: byte) < 0x80"
proof
  let ?b = "ucast (w AND 0x7f OR 0x80) :: byte"
  have "(128 :: 64 word) = 2 ^ 7" by simp
  then have "bit (128 :: 64 word) 7" by (simp only: bit_exp_iff) auto
  then have "bit ?b 7" by (simp add: bit_simps)
  then have "bit (unat ?b) 7" by (simp add: bit_simps)
  moreover assume "?b < 0x80"
  then have "unat ?b < 128" by (simp add: word_less_nat_alt)
  then have "\<not> bit (unat ?b) 7" by (simp add: bit_iff_odd)
  ultimately show False by simp
qed

lemma ucast_32_64 [simp]: "ucast (ucast (x :: 32 word) :: 64 word) = x"
  by (rule bit_word_eqI) (auto simp: bit_simps)

lemma ucast_byte_small:
  fixes w :: "64 word"
  assumes "\<not> 128 \<le> w"
  shows "(ucast w :: byte) < 128" "(ucast w :: byte) AND 127 = ucast w"
    "ucast (ucast w :: byte) = (ucast w :: 'a::len word)"
proof -
  have w: "unat w < 128" using assms by (simp add: word_le_nat_alt)
  have k: "k < 7" if "bit w k" for k
  proof (rule ccontr)
    assume "\<not> k < 7"
    then have "(2 :: nat) ^ 7 \<le> 2 ^ k" by (intro power_increasing) simp_all
    with w have "unat w div 2 ^ k = 0" by simp
    moreover have "bit (unat w) k" using that by (simp add: bit_unsigned_iff)
    ultimately show False by (simp add: bit_iff_odd)
  qed
  have "unat (ucast w :: byte) = unat w" using w by (simp add: unsigned_ucast_eq take_bit_eq_mod)
  with w show "(ucast w :: byte) < 128" by (simp add: word_less_nat_alt)
  have m: "(127 :: byte) = mask 7" by (simp add: mask_eq_exp_minus_1)
  show "(ucast w :: byte) AND 127 = ucast w"
    unfolding m by (rule bit_word_eqI) (auto simp: bit_simps dest: k)
  show "ucast (ucast w :: byte) = (ucast w :: 'a::len word)"
    by (rule bit_word_eqI) (auto simp: bit_simps dest: k)
qed

lemma decode_varint_varint:
  fixes w :: "64 word" and acc :: "'a::len word"
  shows "shift < 64 \<Longrightarrow> unat w < 2 ^ (64 - shift) \<Longrightarrow>
   decode_varint shift acc (varint w @ rest) = Ok (acc OR push_bit shift (ucast w), rest)"
proof (induction w arbitrary: shift acc rule: varint.induct)
  case (1 w)
  show ?case
  proof (cases "128 \<le> w")
    case True
    then have n: "128 \<le> unat w" by (simp add: word_le_nat_alt)
    have s7: "shift + 7 < 64"
    proof (rule ccontr)
      assume "\<not> ?thesis"
      then have "(2 :: nat) ^ (64 - shift) \<le> 2 ^ 7" by (intro power_increasing) simp_all
      with 1(3) n show False by simp
    qed
    have "64 - shift = (64 - (shift + 7)) + 7" using s7 by simp
    then have "(2 :: nat) ^ (64 - shift) = 2 ^ (64 - (shift + 7)) * 128" by (simp only: power_add) simp
    with 1(3) have "unat w < 2 ^ (64 - (shift + 7)) * 128" by simp
    then have "unat (drop_bit 7 w) < 2 ^ (64 - (shift + 7))"
      by (simp only: unat_drop_bit_7)
    note IH = 1(1) [OF True s7 this]
    show ?thesis
      using True 1(2) group_head [of w] group_bits [of acc shift w]
      by (subst varint.simps, subst decode_varint.simps) (simp add: Let_def IH or.assoc)
  next
    case False
    with False 1(2) ucast_byte_small(1,2) [of w] ucast_byte_small(3) [of w, where 'a = 'a]
    show ?thesis
      by (subst varint.simps, subst decode_varint.simps) (simp add: Let_def)
  qed
qed

lemma decode_varint_0 [simp]:
  "decode_varint 0 (0 :: 'a::len word) (varint w @ rest) = Ok (ucast w, rest)"
proof -
  have "unat w < 2 ^ (64 - 0)" using unsigned_less [of w, where 'a = nat] by simp
  from decode_varint_varint [OF _ this, of 0 rest] show ?thesis by simp
qed

text \<open>A tag below 128 is one byte.\<close>

lemma decode_varint_small:
  "b < 0x80 \<Longrightarrow> decode_varint 0 (0 :: 64 word) (b # rest) = Ok (ucast (b AND 0x7F), rest)"
  by (subst decode_varint.simps) simp

text \<open>The field number and the wire type of a tag, and the checks on them.\<close>

definition decode_tag :: "bytes \<Rightarrow> (int \<times> nat \<times> bytes) outcome" where
  "decode_tag bs = obind (decode_varint 0 (0 :: 64 word) bs) (\<lambda>(wire, rest).
     (let fieldNum = sint (ucast (drop_bit 3 wire) :: 32 word); wireType = unat (wire AND 7)
      in if wireType = 4 then Err (ErrMsg ''proto: wiretype end group for non-group'')
         else if fieldNum \<le> 0 then Err (ErrMsg ''proto: illegal tag'')
         else Ok (fieldNum, wireType, rest)))"

text \<open>
  A length-delimited value: the length is read into a signed integer, and the end of the
  value is checked against overflow and against the length \<open>l\<close> of the whole slice.
\<close>

definition read_chunk :: "nat \<Rightarrow> bytes \<Rightarrow> (bytes \<times> bytes) outcome" where
  "read_chunk l bs = obind (decode_varint 0 (0 :: 64 word) bs) (\<lambda>(n, rest).
     (let len = sint n; iNdEx = int l - int (length rest); postIndex = i64 (iNdEx + len)
      in if len < 0 then Err ErrInvalidLength
         else if postIndex < 0 then Err ErrInvalidLength
         else if postIndex > int l then Err ErrUnexpectedEOF
         else Ok (take (nat len) rest, drop (nat len) rest)))"

fun skip_varint :: "nat \<Rightarrow> bytes \<Rightarrow> bytes outcome" where
  "skip_varint shift [] = (if 64 \<le> shift then Err ErrIntOverflow else Err ErrUnexpectedEOF)"
| "skip_varint shift (b # rest) =
     (if 64 \<le> shift then Err ErrIntOverflow
      else if b < 0x80 then Ok rest else skip_varint (shift + 7) rest)"

text \<open>One round of the skip loop after its tag: the new index and group depth.\<close>

definition skip_field :: "nat \<Rightarrow> nat \<Rightarrow> nat \<Rightarrow> bytes \<Rightarrow> (int \<times> nat) outcome" where
  "skip_field l wireType depth rest =
     (let iNdEx = int l - int (length rest)
      in if wireType = 0 then
           obind (skip_varint 0 rest) (\<lambda>rest'. Ok (int l - int (length rest'), depth))
         else if wireType = 1 then Ok (i64 (iNdEx + 8), depth)
         else if wireType = 2 then
           obind (decode_varint 0 (0 :: 64 word) rest) (\<lambda>(n, rest').
             if sint n < 0 then Err ErrInvalidLength
             else Ok (i64 (int l - int (length rest') + sint n), depth))
         else if wireType = 3 then Ok (iNdEx, depth + 1)
         else if wireType = 4 then
           (if depth = 0 then Err ErrUnexpectedEndOfGroup else Ok (iNdEx, depth - 1))
         else if wireType = 5 then Ok (i64 (iNdEx + 4), depth)
         else Err (ErrMsg ''proto: illegal wireType''))"

fun skip_loop :: "nat \<Rightarrow> bytes \<Rightarrow> int \<Rightarrow> nat \<Rightarrow> int outcome" where
  "skip_loop 0 d iNdEx depth = Panic ''out of fuel''"
| "skip_loop (Suc n) d iNdEx depth =
     (if int (length d) \<le> iNdEx then Err ErrUnexpectedEOF
      else obind (decode_varint 0 (0 :: 64 word) (drop (nat iNdEx) d)) (\<lambda>(wire, rest).
        obind (skip_field (length d) (unat (wire AND 7)) depth rest) (\<lambda>(i', depth').
          if i' < 0 then Err ErrInvalidLength
          else if depth' = 0 then Ok i' else skip_loop n d i' depth')))"

text \<open>Every round consumes at least its tag, so the length of the slice bounds the rounds.\<close>

definition skip_proto :: "bytes \<Rightarrow> int outcome" where
  "skip_proto d = skip_loop (Suc (length d)) d 0 0"

text \<open>The default case of a decoding loop; \<open>bs\<close> is the slice from the start of the tag.\<close>

definition skip_unknown :: "nat \<Rightarrow> bytes \<Rightarrow> bytes outcome" where
  "skip_unknown l bs = obind (skip_proto bs) (\<lambda>skippy.
     (let iNdEx = int l - int (length bs)
      in if skippy < 0 \<or> i64 (iNdEx + skippy) < 0 then Err ErrInvalidLength
         else if i64 (iNdEx + skippy) > int l then Err ErrUnexpectedEOF
         else Ok (drop (nat skippy) bs)))"

section \<open>Progress of the decoders\<close>

lemma decode_tag_shrinks: "decode_tag bs = Ok (f, w, rest) \<Longrightarrow> length rest < length bs"
  by (auto simp: decode_tag_def obind_eq_Ok Let_def split: if_splits dest: decode_varint_shrinks)

lemma read_chunk_shrinks: "read_chunk l bs = Ok (c, rest) \<Longrightarrow> length rest < length bs"
  by (auto simp: read_chunk_def obind_eq_Ok Let_def split: if_splits dest!: decode_varint_shrinks)

lemma skip_varint_shrinks: "skip_varint shift bs = Ok rest \<Longrightarrow> length rest < length bs"
  by (induction shift bs rule: skip_varint.induct) (auto split: if_splits simp: less_Suc_eq)

lemma sint_64_range: "sint (n :: 64 word) < 2 ^ 63"
  using sint_less [of n] by simp

lemma i64_advance:
  assumes "0 \<le> i" "i < 2 ^ 62" "0 \<le> n" "n < 2 ^ 63" "0 \<le> i64 (i + n)"
  shows "i64 (i + n) = i + n"
proof (cases "i + n < 2 ^ 63")
  case True
  with assms show ?thesis by (intro i64_nonneg) simp_all
next
  case False
  with assms have "i64 (i + n) = i + n - 2 ^ 64" by (intro i64_of_high_u64) simp_all
  with assms show ?thesis by simp
qed

lemma skip_field_advances:
  assumes "skip_field l w depth rest = Ok (i', depth')" "length rest \<le> l" "l < 2 ^ 62" "0 \<le> i'"
  shows "int l - int (length rest) \<le> i'"
proof -
  have r: "int (length rest) \<le> int l" "int l < 2 ^ 62" using assms(2,3) by simp_all
  { fix n assume n: "i' = i64 (int l - int (length rest) + n)" "0 \<le> n" "n < 2 ^ 63"
    have "i' = int l - int (length rest) + n"
      unfolding n(1) by (rule i64_advance) (use r n assms(4) in simp_all)
    then have ?thesis using n(2) by simp }
  note adv = this
  consider "w = 0" | "w = 1" | "w = 2" | "w = 3" | "w = 4" | "w = 5" | "5 < w" by linarith
  then show ?thesis
  proof cases
    case 1
    with assms(1) show ?thesis
      by (auto simp: skip_field_def obind_eq_Ok dest!: skip_varint_shrinks)
  next
    case 2
    with assms(1) adv [of 8] show ?thesis by (simp add: skip_field_def)
  next
    case 3
    then obtain n rest' where d: "decode_varint 0 (0 :: 64 word) rest = Ok (n, rest')" "0 \<le> sint n"
      "i' = i64 (int l - int (length rest') + sint n)"
      using assms(1) by (auto simp: skip_field_def obind_eq_Ok split: if_splits)
    have l: "length rest' < length rest" using d(1) by (rule decode_varint_shrinks)
    have "i' = int l - int (length rest') + sint n"
      unfolding d(3) by (rule i64_advance) (use r l d assms(4) sint_64_range [of n] in simp_all)
    with l d(2) show ?thesis by simp
  next
    case 6
    with assms(1) adv [of 4] show ?thesis by (simp add: skip_field_def)
  qed (use assms(1) in \<open>auto simp: skip_field_def split: if_splits\<close>)
qed

lemma decode_varint_no_Panic: "decode_varint sh a bs \<noteq> Panic s"
  by (induction bs arbitrary: sh a; subst decode_varint.simps) (auto simp: Let_def)

lemma skip_field_no_Panic: "skip_field l w depth rest \<noteq> Panic s"
proof -
  have k: "skip_varint sh bs \<noteq> Panic s" for sh bs
    by (induction sh bs rule: skip_varint.induct) auto
  show ?thesis
    using decode_varint_no_Panic [of 0 "0 :: 64 word" rest] k [of 0 rest]
    by (auto simp: skip_field_def obind_def Let_def split: outcome.splits)
qed

lemma skip_loop_round:
  assumes "decode_varint 0 (0 :: 64 word) (drop (nat i) d) = Ok (wire, rest)"
    and "skip_field (length d) w depth rest = Ok (i', depth')"
    and "0 \<le> i" "i < int (length d)" "length d < 2 ^ 62" "0 \<le> i'"
  shows "i < i'"
proof -
  from decode_varint_shrinks [OF assms(1)] have l: "length rest < length d - nat i" by simp
  then have "int (length d) - int (length rest) \<le> i'"
    using assms by (intro skip_field_advances [OF assms(2)]) simp_all
  with l assms(3,4) show ?thesis by linarith
qed

text \<open>Enough fuel: the loop never runs out, and what it skips is not empty.\<close>

lemma skip_loop_fuel:
  "0 \<le> i \<Longrightarrow> length d < 2 ^ 62 \<Longrightarrow> int (length d) - i < int fuel \<Longrightarrow> 0 < fuel \<Longrightarrow>
   skip_loop fuel d i depth \<noteq> Panic s"
proof (induction fuel arbitrary: i depth)
  case 0
  then show ?case by simp
next
  case (Suc n)
  show ?case
  proof (cases "int (length d) \<le> i")
    case False
    show ?thesis
    proof
      assume P: "skip_loop (Suc n) d i depth = Panic s"
      obtain wire rest where w: "decode_varint 0 (0 :: 64 word) (drop (nat i) d) = Ok (wire, rest)"
        using P False decode_varint_no_Panic [of 0 0 "drop (nat i) d" s]
        by (cases "decode_varint 0 (0 :: 64 word) (drop (nat i) d)") auto
      obtain i' depth' where f: "skip_field (length d) (unat (wire AND 7)) depth rest = Ok (i', depth')"
        using P False w skip_field_no_Panic [of "length d" "unat (wire AND 7)" depth rest s]
        by (cases "skip_field (length d) (unat (wire AND 7)) depth rest") auto
      from P False w f have r: "0 \<le> i'" "skip_loop n d i' depth' = Panic s"
        by (auto split: if_splits)
      have "i < i'" by (rule skip_loop_round [OF w f]) (use Suc.prems False r in simp_all)
      with Suc.prems False have "int (length d) - i' < int n" "0 < n" by simp_all
      from Suc.IH [OF r(1) Suc.prems(2) this] r(2) show False by blast
    qed
  qed simp
qed

lemma skip_loop_positive:
  "skip_loop fuel d i depth = Ok k \<Longrightarrow> 0 \<le> i \<Longrightarrow> length d < 2 ^ 62 \<Longrightarrow> i < k"
proof (induction fuel arbitrary: i depth)
  case (Suc n)
  then obtain wire rest i' depth' where
    w: "decode_varint 0 (0 :: 64 word) (drop (nat i) d) = Ok (wire, rest)" and
    f: "skip_field (length d) (unat (wire AND 7)) depth rest = Ok (i', depth')" and
    r: "0 \<le> i'" "i < int (length d)" "depth' = 0 \<and> k = i' \<or> skip_loop n d i' depth' = Ok k"
    by (auto simp: obind_eq_Ok split: if_splits)
  have "i < i'" by (rule skip_loop_round [OF w f]) (use Suc.prems r in simp_all)
  with Suc.IH [of i' depth'] r Suc.prems show ?case by auto
qed simp

lemma skip_unknown_shrinks:
  assumes "skip_unknown l bs = Ok rest" "length bs \<le> l" "l < 2 ^ 62" "bs \<noteq> []"
  shows "length rest < length bs"
proof -
  from assms(1) obtain k where "skip_proto bs = Ok k" "rest = drop (nat k) bs"
    by (auto simp: skip_unknown_def obind_eq_Ok Let_def split: if_splits)
  moreover from this(1) have "0 < k"
    using assms(2,3) skip_loop_positive [of "Suc (length bs)" bs 0 0 k] by (simp add: skip_proto_def)
  ultimately show ?thesis using assms(4) by simp
qed

lemma decode_tag_no_Panic: "decode_tag bs \<noteq> Panic s"
  using decode_varint_no_Panic [of 0 "0 :: 64 word" bs]
  by (auto simp: decode_tag_def obind_def Let_def split: outcome.splits)

lemma read_chunk_no_Panic: "read_chunk l bs \<noteq> Panic s"
  using decode_varint_no_Panic [of 0 "0 :: 64 word" bs]
  by (auto simp: read_chunk_def obind_def Let_def split: outcome.splits)

lemma skip_proto_no_Panic: "length bs < 2 ^ 62 \<Longrightarrow> skip_proto bs \<noteq> Panic s"
  unfolding skip_proto_def by (rule skip_loop_fuel) simp_all

lemma skip_unknown_no_Panic: "length bs < 2 ^ 62 \<Longrightarrow> skip_unknown l bs \<noteq> Panic s"
  using skip_proto_no_Panic [of bs]
  by (auto simp: skip_unknown_def obind_def Let_def split: outcome.splits)

lemmas decoders_no_Panic =
  decode_varint_no_Panic decode_tag_no_Panic read_chunk_no_Panic skip_unknown_no_Panic

lemma obind_eq_Panic: "obind m f = Panic s \<longleftrightarrow> m = Panic s \<or> (\<exists>x. m = Ok x \<and> f x = Panic s)"
  by (cases m) auto

lemma obind_no_Panic:
  "m \<noteq> Panic s \<Longrightarrow> (\<And>x. m = Ok x \<Longrightarrow> f x \<noteq> Panic s) \<Longrightarrow> obind m f \<noteq> Panic s"
  by (cases m) auto

section \<open>Decoding loops\<close>

text \<open>
  The loop over the fields of a message: \<open>step\<close> decodes one field into the message and
  returns the rest of the slice. The fuel is the number of bytes left.
\<close>

fun unmarshal_loop ::
  "(nat \<Rightarrow> 'm \<Rightarrow> bytes \<Rightarrow> ('m \<times> bytes) outcome) \<Rightarrow> nat \<Rightarrow> nat \<Rightarrow> 'm \<Rightarrow> bytes \<Rightarrow> 'm outcome" where
  "unmarshal_loop step l n m [] = Ok m"
| "unmarshal_loop step l 0 m (b # bs) = Panic ''out of fuel''"
| "unmarshal_loop step l (Suc n) m (b # bs) =
     obind (step l m (b # bs)) (\<lambda>(m', rest). unmarshal_loop step l n m' rest)"

definition unmarshal ::
  "(nat \<Rightarrow> 'm \<Rightarrow> bytes \<Rightarrow> ('m \<times> bytes) outcome) \<Rightarrow> 'm \<Rightarrow> bytes \<Rightarrow> 'm outcome" where
  "unmarshal step m dAtA = unmarshal_loop step (length dAtA) (length dAtA) m dAtA"

text \<open>
  The contract of a field decoder: it consumes something. Then the fuel does not matter, and
  the fields of a slice can be decoded one after the other.
\<close>

locale field_decoder =
  fixes step :: "nat \<Rightarrow> 'm \<Rightarrow> bytes \<Rightarrow> ('m \<times> bytes) outcome"
  assumes step_shrinks:
    "\<lbrakk> step l m bs = Ok (m', rest); bs \<noteq> []; length bs \<le> l; l < 2 ^ 62 \<rbrakk>
     \<Longrightarrow> length rest < length bs"
begin

lemma loop_fuel:
  "length bs \<le> n \<Longrightarrow> length bs \<le> l \<Longrightarrow> l < 2 ^ 62 \<Longrightarrow>
   unmarshal_loop step l n m bs = unmarshal_loop step l (length bs) m bs"
proof (induction n arbitrary: m bs rule: less_induct)
  case (less n)
  show ?case
  proof (cases bs)
    case (Cons b bs')
    with less.prems obtain n' where n: "n = Suc n'" "length bs' \<le> n'" by (cases n) auto
    have "unmarshal_loop step l n' m' rest = unmarshal_loop step l (length bs') m' rest"
      if "step l m bs = Ok (m', rest)" for m' rest
    proof -
      have r: "length rest \<le> length bs'"
        using step_shrinks [OF that] Cons less.prems by simp
      with less.IH [of n' rest m'] less.IH [of "length bs'" rest m'] n less.prems Cons show ?thesis
        by simp
    qed
    then show ?thesis using n Cons by (cases "step l m bs") auto
  qed simp
qed

text \<open>The fields of a slice, one after the other.\<close>

lemma loop_step:
  assumes "step l m (f @ rest) = Ok (m', rest)" "f \<noteq> []" "length (f @ rest) \<le> l" "l < 2 ^ 62"
  shows "unmarshal_loop step l (length (f @ rest)) m (f @ rest) =
     unmarshal_loop step l (length rest) m' rest"
proof -
  obtain b f' where f: "f = b # f'" using assms(2) by (cases f) auto
  then have "unmarshal_loop step l (length (f @ rest)) m (f @ rest) =
     unmarshal_loop step l (length (f' @ rest)) m' rest"
    using assms(1) by simp
  also have "\<dots> = unmarshal_loop step l (length rest) m' rest"
    by (rule loop_fuel) (use assms f in simp_all)
  finally show ?thesis .
qed

text \<open>The loop ends on every input: it does not run out of fuel, and only \<open>step\<close> can panic.\<close>

lemma loop_no_Panic:
  assumes "\<And>m bs s. bs \<noteq> [] \<Longrightarrow> length bs \<le> l \<Longrightarrow> step l m bs \<noteq> Panic s" and l: "l < 2 ^ 62"
  shows "length bs \<le> n \<Longrightarrow> length bs \<le> l \<Longrightarrow> unmarshal_loop step l n m bs \<noteq> Panic s"
proof (induction n arbitrary: m bs)
  case (Suc n)
  show ?case
  proof (cases bs)
    case (Cons b bs')
    have "length rest \<le> n \<and> length rest \<le> l" if "step l m bs = Ok (m', rest)" for m' rest
      using step_shrinks [OF that _ Suc.prems(2) l] Cons Suc.prems by simp
    then have "obind (step l m bs) (\<lambda>(m', rest). unmarshal_loop step l n m' rest) \<noteq> Panic s"
      using Suc.IH assms(1) [of bs m] Suc.prems Cons by (intro obind_no_Panic) auto
    then show ?thesis using Cons by simp
  qed simp
qed simp

lemma unmarshal_no_Panic:
  assumes "\<And>m bs s. bs \<noteq> [] \<Longrightarrow> length bs \<le> length d \<Longrightarrow> step (length d) m bs \<noteq> Panic s"
    and "length d < 2 ^ 62"
  shows "unmarshal step m d \<noteq> Panic s"
  unfolding unmarshal_def by (rule loop_no_Panic [OF assms]) simp_all

lemma loop_field:
  assumes "f \<noteq> [] \<Longrightarrow> step l m (f @ rest) = Ok (m', rest)" "f = [] \<Longrightarrow> m' = m"
    and "length (f @ rest) \<le> l" "l < 2 ^ 62"
  shows "unmarshal_loop step l (length (f @ rest)) m (f @ rest) =
     unmarshal_loop step l (length rest) m' rest"
  using loop_step [OF assms(1)] assms by (cases "f = []") simp_all

end

section \<open>Message codecs\<close>

text \<open>
  The generated methods of a message type, as a caller sees them. \<open>Unmarshal\<close> decodes into an
  existing value.
\<close>

record 'a codec =
  c_Size :: "'a \<Rightarrow> int"
  c_MarshalToSizedBuffer :: "'a \<Rightarrow> bytes \<Rightarrow> (bytes \<times> int) outcome"
  c_Unmarshal :: "'a \<Rightarrow> bytes \<Rightarrow> 'a outcome"

text \<open>\<^verbatim>\<open>Marshal\<close>: a buffer of the computed size, filled from its end.\<close>

definition c_Marshal :: "'a codec \<Rightarrow> 'a \<Rightarrow> bytes outcome" where
  "c_Marshal c m =
     (let size = c_Size c m
      in obind (c_MarshalToSizedBuffer c m (replicate (nat size) 0)) (\<lambda>(dAtA, n).
           Ok (take (nat n) dAtA)))"

text \<open>\<^verbatim>\<open>MarshalTo\<close> fills the first \<open>Size\<close> bytes of the caller's buffer.\<close>

definition c_MarshalTo :: "'a codec \<Rightarrow> 'a \<Rightarrow> bytes \<Rightarrow> (bytes \<times> int) outcome" where
  "c_MarshalTo c m dAtA =
     (let size = c_Size c m
      in if int (length dAtA) < size then Panic ''slice bounds out of range''
         else obind (c_MarshalToSizedBuffer c m (take (nat size) dAtA)) (\<lambda>(d', n).
                Ok (d' @ drop (nat size) dAtA, n)))"

text \<open>
  A codec is lawful for the values \<open>ok\<close> if \<open>enc\<close> is the encoding that all its methods agree
  on: its length is the computed size, marshalling fills the end of the buffer with it, and
  decoding it into the zero value gives the value back.
\<close>

definition codec_laws :: "'a codec \<Rightarrow> 'a \<Rightarrow> ('a \<Rightarrow> bool) \<Rightarrow> ('a \<Rightarrow> bytes) \<Rightarrow> bool" where
  "codec_laws c zero ok enc \<longleftrightarrow>
     (\<forall>x. ok x \<longrightarrow> length (enc x) < 2 ^ 60 \<and> c_Size c x = int (length (enc x)) \<and>
        (\<forall>free junk. length junk = length (enc x) \<longrightarrow>
           c_MarshalToSizedBuffer c x (free @ junk) = Ok (free @ enc x, int (length (enc x)))) \<and>
        c_Unmarshal c zero (enc x) = Ok x)"

lemma codec_lawsD:
  assumes "codec_laws c zero ok enc" "ok x"
  shows "length (enc x) < 2 ^ 60" "c_Size c x = int (length (enc x))"
    "length junk = length (enc x) \<Longrightarrow>
       c_MarshalToSizedBuffer c x (free @ junk) = Ok (free @ enc x, int (length (enc x)))"
    "c_Unmarshal c zero (enc x) = Ok x"
  using assms unfolding codec_laws_def by blast+

lemma c_Marshal_eq:
  assumes "codec_laws c zero ok enc" "ok x"
  shows "c_Marshal c x = Ok (enc x)"
  using codec_lawsD(2) [OF assms] codec_lawsD(3) [OF assms, of "replicate (length (enc x)) 0" "[]"]
  by (simp add: c_Marshal_def)

text \<open>
  The frame of \<open>MarshalToSizedBuffer\<close>: the index starts at the end of the slice, and the
  number of bytes written is returned.
\<close>

definition sized_buffer :: "writer \<Rightarrow> bytes \<Rightarrow> (bytes \<times> int) outcome" where
  "sized_buffer w dAtA =
     obind (w (dAtA, int (length dAtA))) (\<lambda>(d, i). Ok (d, int (length dAtA) - i))"

lemma sized_buffer_writes:
  assumes "writes w bs" "length junk = length bs"
  shows "sized_buffer w (free @ junk) = Ok (free @ bs, int (length bs))"
  using writesD [OF assms, of free "[]"] assms(2) by (simp add: sized_buffer_def buf_st_def)

text \<open>An embedded message: the slice up to the index is passed to the message's own method.\<close>

definition w_message :: "'a codec \<Rightarrow> 'a \<Rightarrow> writer" where
  "w_message c x = (\<lambda>(d, i).
     if i < 0 \<or> int (length d) < i then Panic ''slice bounds out of range''
     else obind (c_MarshalToSizedBuffer c x (take (nat i) d)) (\<lambda>(d', size).
            encodeVarint (word_of_int size) (d' @ drop (nat i) d, i - size)))"

text \<open>A length-delimited byte string.\<close>

definition w_bytes :: "bytes \<Rightarrow> writer" where
  "w_bytes bs = seq_w (w_copy bs) (encodeVarint (of_nat (length bs)))"

definition chunk :: "bytes \<Rightarrow> bytes" where
  "chunk bs = varint (of_nat (length bs)) @ bs"

lemma chunk_not_Nil [simp]: "chunk bs \<noteq> []"
  by (simp add: chunk_def varint.simps [of "of_nat (length bs)"])

lemma length_chunk: "length (chunk bs) = sov (of_nat (length bs)) + length bs"
  by (simp add: chunk_def length_varint)

lemma writes_bytes [writes_intros]: "writes (w_bytes bs) (chunk bs)"
  unfolding w_bytes_def chunk_def by (intro writes_seq writes_copy writes_varint)

lemma writes_messageI:
  assumes m: "\<And>free junk. length junk = length e \<Longrightarrow>
      c_MarshalToSizedBuffer c x (free @ junk) = Ok (free @ e, int (length e))"
  shows "writes (w_message c x) (chunk e)"
  unfolding writes_def
proof (intro allI impI)
  fix free junk out :: bytes
  assume l: "length junk = length (chunk e)"
  let ?v = "varint (of_nat (length e))"
  define j1 j2 where "j1 = take (length ?v) junk" and "j2 = drop (length ?v) junk"
  have j: "junk = j1 @ j2" "length j1 = length ?v" "length j2 = length e"
    using l by (simp_all add: j1_def j2_def chunk_def)
  have "encodeVarint (of_nat (length e)) (buf_st (free @ j1) (e @ out)) = Ok (buf_st free (?v @ e @ out))"
    by (rule writesD [OF writes_varint j(2)])
  then show "w_message c x (buf_st (free @ junk) out) = Ok (buf_st free (chunk e @ out))"
    using m [OF j(3), of "free @ j1"] j by (simp add: w_message_def buf_st_def chunk_def)
qed

lemma writes_message:
  assumes "codec_laws c zero ok enc" "ok x"
  shows "writes (w_message c x) (chunk (enc x))"
  by (rule writes_messageI) (rule codec_lawsD(3) [OF assms])

lemma read_chunk_chunk:
  assumes "length (chunk bs @ rest) \<le> l" "l < 2 ^ 62"
  shows "read_chunk l (chunk bs @ rest) = Ok (bs, rest)"
proof -
  let ?n = "of_nat (length bs) :: 64 word"
  have l: "length bs + length rest \<le> l" using assms(1) by (simp add: chunk_def)
  have s: "sint ?n = int (length bs)"
    using l assms(2) by (simp add: signed_of_nat signed_take_bit_int_eq_self)
  have "i64 (int l - int (length (bs @ rest)) + int (length bs)) = int l - int (length rest)"
    using l assms(2) by (subst i64_nonneg) simp_all
  moreover have "decode_varint 0 (0 :: 64 word) (chunk bs @ rest) = Ok (?n, bs @ rest)"
    by (simp add: chunk_def)
  ultimately show ?thesis using l by (simp add: read_chunk_def Let_def s)
qed

text \<open>The tags of the messages at hand are single bytes, decoded by evaluation.\<close>

lemma decode_tag_byte:
  "b < 0x80 \<Longrightarrow> decode_tag (b # rest) =
     (let wire = ucast (b AND 0x7F) :: 64 word; fieldNum = sint (ucast (drop_bit 3 wire) :: 32 word);
          wireType = unat (wire AND 7)
      in if wireType = 4 then Err (ErrMsg ''proto: wiretype end group for non-group'')
         else if fieldNum \<le> 0 then Err (ErrMsg ''proto: illegal tag'')
         else Ok (fieldNum, wireType, rest))"
  by (simp add: decode_tag_def decode_varint_small Let_def)

lemma decode_tags [simp]:
  "decode_tag (0x08 # rest) = Ok (1, 0, rest)"
  "decode_tag (0x0a # rest) = Ok (1, 2, rest)"
  "decode_tag (0x12 # rest) = Ok (2, 2, rest)"
  "decode_tag (0x1a # rest) = Ok (3, 2, rest)"
  "decode_tag (0x22 # rest) = Ok (4, 2, rest)"
  "decode_tag (0x28 # rest) = Ok (5, 0, rest)"
  "decode_tag (0x32 # rest) = Ok (6, 2, rest)"
  by (simp_all add: decode_tag_byte Let_def)

end
