(* ===== verification/Genesis_Pb.thy ===== *)
theory Genesis_Pb
  imports Proto Builder_Types
begin

text \<open>
  \<^verbatim>\<open>x/builder/types/genesis.pb.go\<close>: the generated codec of the module's parameters and of the
  genesis state. The encodings of the embedded \<^verbatim>\<open>sdk.Coin\<close> and \<^verbatim>\<open>math.LegacyDec\<close> are not part
  of the repository: their methods are the fields of \<open>pb_ops\<close>.
\<close>

section \<open>Embedded types\<close>

record 'd pb_ops =
  pb_coin :: "coin codec"
  pb_dec_nil :: 'd
  pb_dec_Size :: "'d \<Rightarrow> int"
  pb_dec_MarshalTo :: "'d \<Rightarrow> bytes \<Rightarrow> bytes outcome"
  pb_dec_Unmarshal :: "'d \<Rightarrow> bytes \<Rightarrow> 'd outcome"

text \<open>
  What the program relies on, for the coins \<open>cok\<close> and decimals \<open>dok\<close> at hand: the methods
  agree on one encoding. \<^verbatim>\<open>MarshalTo\<close> of a decimal writes to the start of the slice.
\<close>

definition pb_laws ::
  "'d pb_ops \<Rightarrow> (coin \<Rightarrow> bool) \<Rightarrow> (coin \<Rightarrow> bytes) \<Rightarrow> ('d \<Rightarrow> bool) \<Rightarrow> ('d \<Rightarrow> bytes) \<Rightarrow> bool" where
  "pb_laws P cok cenc dok denc \<longleftrightarrow>
     codec_laws (pb_coin P) zero_coin cok cenc \<and>
     (\<forall>x. dok x \<longrightarrow> length (denc x) < 2 ^ 60 \<and> pb_dec_Size P x = int (length (denc x)) \<and>
        (\<forall>junk tail. length junk = length (denc x) \<longrightarrow>
           pb_dec_MarshalTo P x (junk @ tail) = Ok (denc x @ tail)) \<and>
        pb_dec_Unmarshal P (pb_dec_nil P) (denc x) = Ok x)"

lemma pb_lawsD:
  assumes "pb_laws P cok cenc dok denc"
  shows "codec_laws (pb_coin P) zero_coin cok cenc"
    "dok x \<Longrightarrow> length (denc x) < 2 ^ 60"
    "dok x \<Longrightarrow> pb_dec_Size P x = int (length (denc x))"
    "dok x \<Longrightarrow> length junk = length (denc x) \<Longrightarrow>
       pb_dec_MarshalTo P x (junk @ tail) = Ok (denc x @ tail)"
    "dok x \<Longrightarrow> pb_dec_Unmarshal P (pb_dec_nil P) (denc x) = Ok x"
  using assms unfolding pb_laws_def by blast+

section \<open>Params\<close>

definition empty_params :: "'d pb_ops \<Rightarrow> 'd Params" where
  "empty_params P = \<lparr>MaxBundleSize = 0, EscrowAccountAddress = None, ReserveFee = zero_coin,
     MinBidIncrement = zero_coin, FrontRunningProtection = False, ProposerFee = pb_dec_nil P\<rparr>"

abbreviation escrow_bytes :: "'d Params \<Rightarrow> bytes" where
  "escrow_bytes m \<equiv> (case EscrowAccountAddress m of None \<Rightarrow> [] | Some a \<Rightarrow> a)"

definition chunk_size :: "int \<Rightarrow> int" where
  "chunk_size l = 1 + l + int (sov (word_of_int l))"

definition Params_Size :: "'d pb_ops \<Rightarrow> 'd Params \<Rightarrow> int" where
  "Params_Size P m =
     (if MaxBundleSize m \<noteq> 0 then 1 + int (sov (ucast (MaxBundleSize m))) else 0) +
     (let l = int (length (escrow_bytes m)) in if l > 0 then chunk_size l else 0) +
     chunk_size (c_Size (pb_coin P) (ReserveFee m)) +
     chunk_size (c_Size (pb_coin P) (MinBidIncrement m)) +
     (if FrontRunningProtection m then 2 else 0) +
     chunk_size (pb_dec_Size P (ProposerFee m))"

text \<open>The custom type: \<^verbatim>\<open>i -= size; ProposerFee.MarshalTo(dAtA[i:])\<close>, then the length.\<close>

definition w_dec :: "'d pb_ops \<Rightarrow> 'd \<Rightarrow> writer" where
  "w_dec P x = (\<lambda>(d, i).
     (let size = pb_dec_Size P x; j = i - size
      in if j < 0 \<or> int (length d) < j then Panic ''slice bounds out of range''
         else obind (pb_dec_MarshalTo P x (drop (nat j) d)) (\<lambda>tail.
                encodeVarint (word_of_int size) (take (nat j) d @ tail, j))))"

definition Params_writer :: "'d pb_ops \<Rightarrow> 'd Params \<Rightarrow> writer" where
  "Params_writer P m =
     seq_w (w_dec P (ProposerFee m)) (
     seq_w (w_byte 0x32) (
     seq_w (if FrontRunningProtection m
            then seq_w (w_byte (if FrontRunningProtection m then 1 else 0)) (w_byte 0x28)
            else skip_w) (
     seq_w (w_message (pb_coin P) (MinBidIncrement m)) (
     seq_w (w_byte 0x22) (
     seq_w (w_message (pb_coin P) (ReserveFee m)) (
     seq_w (w_byte 0x1a) (
     seq_w (if length (escrow_bytes m) > 0
            then seq_w (w_bytes (escrow_bytes m)) (w_byte 0x12) else skip_w)
           (if MaxBundleSize m \<noteq> 0
            then seq_w (encodeVarint (ucast (MaxBundleSize m))) (w_byte 0x08) else skip_w))))))))"

definition Params_MarshalToSizedBuffer ::
  "'d pb_ops \<Rightarrow> 'd Params \<Rightarrow> bytes \<Rightarrow> (bytes \<times> int) outcome" where
  "Params_MarshalToSizedBuffer P m dAtA = sized_buffer (Params_writer P m) dAtA"

text \<open>The cases of the decoding loop, one per field, after the tag.\<close>

definition wrong_wireType :: "'a outcome" where
  "wrong_wireType = Err (ErrMsg ''proto: wrong wireType'')"

definition Params_field_1 :: "nat \<Rightarrow> 'd Params \<Rightarrow> bytes \<Rightarrow> ('d Params \<times> bytes) outcome" where
  "Params_field_1 wireType m rest =
     (if wireType \<noteq> 0 then wrong_wireType
      else obind (decode_varint 0 (0 :: 32 word) rest) (\<lambda>(v, rest').
             Ok (m\<lparr>MaxBundleSize := v\<rparr>, rest')))"

definition Params_field_2 ::
  "nat \<Rightarrow> nat \<Rightarrow> 'd Params \<Rightarrow> bytes \<Rightarrow> ('d Params \<times> bytes) outcome" where
  "Params_field_2 l wireType m rest =
     (if wireType \<noteq> 2 then wrong_wireType
      else obind (read_chunk l rest) (\<lambda>(bz, rest').
             Ok (m\<lparr>EscrowAccountAddress := Some bz\<rparr>, rest')))"

definition Params_field_3 ::
  "'d pb_ops \<Rightarrow> nat \<Rightarrow> nat \<Rightarrow> 'd Params \<Rightarrow> bytes \<Rightarrow> ('d Params \<times> bytes) outcome" where
  "Params_field_3 P l wireType m rest =
     (if wireType \<noteq> 2 then wrong_wireType
      else obind (read_chunk l rest) (\<lambda>(bz, rest').
           obind (c_Unmarshal (pb_coin P) (ReserveFee m) bz) (\<lambda>c.
             Ok (m\<lparr>ReserveFee := c\<rparr>, rest'))))"

definition Params_field_4 ::
  "'d pb_ops \<Rightarrow> nat \<Rightarrow> nat \<Rightarrow> 'd Params \<Rightarrow> bytes \<Rightarrow> ('d Params \<times> bytes) outcome" where
  "Params_field_4 P l wireType m rest =
     (if wireType \<noteq> 2 then wrong_wireType
      else obind (read_chunk l rest) (\<lambda>(bz, rest').
           obind (c_Unmarshal (pb_coin P) (MinBidIncrement m) bz) (\<lambda>c.
             Ok (m\<lparr>MinBidIncrement := c\<rparr>, rest'))))"

definition Params_field_5 :: "nat \<Rightarrow> 'd Params \<Rightarrow> bytes \<Rightarrow> ('d Params \<times> bytes) outcome" where
  "Params_field_5 wireType m rest =
     (if wireType \<noteq> 0 then wrong_wireType
      else obind (decode_varint 0 (0 :: 64 word) rest) (\<lambda>(v, rest').
             Ok (m\<lparr>FrontRunningProtection := (v \<noteq> 0)\<rparr>, rest')))"

definition Params_field_6 ::
  "'d pb_ops \<Rightarrow> nat \<Rightarrow> nat \<Rightarrow> 'd Params \<Rightarrow> bytes \<Rightarrow> ('d Params \<times> bytes) outcome" where
  "Params_field_6 P l wireType m rest =
     (if wireType \<noteq> 2 then wrong_wireType
      else obind (read_chunk l rest) (\<lambda>(bz, rest').
           obind (pb_dec_Unmarshal P (ProposerFee m) bz) (\<lambda>d.
             Ok (m\<lparr>ProposerFee := d\<rparr>, rest'))))"

definition Params_field ::
  "'d pb_ops \<Rightarrow> nat \<Rightarrow> 'd Params \<Rightarrow> bytes \<Rightarrow> ('d Params \<times> bytes) outcome" where
  "Params_field P l m bs = obind (decode_tag bs) (\<lambda>(fieldNum, wireType, rest).
     if fieldNum = 1 then Params_field_1 wireType m rest
     else if fieldNum = 2 then Params_field_2 l wireType m rest
     else if fieldNum = 3 then Params_field_3 P l wireType m rest
     else if fieldNum = 4 then Params_field_4 P l wireType m rest
     else if fieldNum = 5 then Params_field_5 wireType m rest
     else if fieldNum = 6 then Params_field_6 P l wireType m rest
     else obind (skip_unknown l bs) (\<lambda>rest'. Ok (m, rest')))"

definition Params_Unmarshal :: "'d pb_ops \<Rightarrow> 'd Params \<Rightarrow> bytes \<Rightarrow> 'd Params outcome" where
  "Params_Unmarshal P m dAtA = unmarshal (Params_field P) m dAtA"

definition Params_codec :: "'d pb_ops \<Rightarrow> 'd Params codec" where
  "Params_codec P = \<lparr>c_Size = Params_Size P,
     c_MarshalToSizedBuffer = Params_MarshalToSizedBuffer P, c_Unmarshal = Params_Unmarshal P\<rparr>"

definition Params_Marshal :: "'d pb_ops \<Rightarrow> 'd Params \<Rightarrow> bytes outcome" where
  "Params_Marshal P m = c_Marshal (Params_codec P) m"

section \<open>GenesisState\<close>

definition GenesisState_Size :: "'d pb_ops \<Rightarrow> 'd GenesisState \<Rightarrow> int" where
  "GenesisState_Size P m = chunk_size (Params_Size P (gs_Params m))"

definition GenesisState_MarshalToSizedBuffer ::
  "'d pb_ops \<Rightarrow> 'd GenesisState \<Rightarrow> bytes \<Rightarrow> (bytes \<times> int) outcome" where
  "GenesisState_MarshalToSizedBuffer P m dAtA =
     sized_buffer (seq_w (w_message (Params_codec P) (gs_Params m)) (w_byte 0x0a)) dAtA"

definition GenesisState_field ::
  "'d pb_ops \<Rightarrow> nat \<Rightarrow> 'd GenesisState \<Rightarrow> bytes \<Rightarrow> ('d GenesisState \<times> bytes) outcome" where
  "GenesisState_field P l m bs = obind (decode_tag bs) (\<lambda>(fieldNum, wireType, rest).
     if fieldNum = 1 then
       (if wireType \<noteq> 2 then wrong_wireType
        else obind (read_chunk l rest) (\<lambda>(bz, rest').
             obind (Params_Unmarshal P (gs_Params m) bz) (\<lambda>p.
               Ok (m\<lparr>gs_Params := p\<rparr>, rest'))))
     else obind (skip_unknown l bs) (\<lambda>rest'. Ok (m, rest')))"

definition GenesisState_Unmarshal ::
  "'d pb_ops \<Rightarrow> 'd GenesisState \<Rightarrow> bytes \<Rightarrow> 'd GenesisState outcome" where
  "GenesisState_Unmarshal P m dAtA = unmarshal (GenesisState_field P) m dAtA"

definition GenesisState_codec :: "'d pb_ops \<Rightarrow> 'd GenesisState codec" where
  "GenesisState_codec P = \<lparr>c_Size = GenesisState_Size P,
     c_MarshalToSizedBuffer = GenesisState_MarshalToSizedBuffer P,
     c_Unmarshal = GenesisState_Unmarshal P\<rparr>"

definition GenesisState_Marshal :: "'d pb_ops \<Rightarrow> 'd GenesisState \<Rightarrow> bytes outcome" where
  "GenesisState_Marshal P m = c_Marshal (GenesisState_codec P) m"

end
