(* ===== verification/Builder_Keeper.thy ===== *)
theory Builder_Keeper
  imports Genesis_Pb
begin

text \<open>
  \<^verbatim>\<open>x/builder/keeper\<close>: the keeper with its parameter store (\<^verbatim>\<open>keeper.go\<close>), genesis import and
  export (\<^verbatim>\<open>genesis.go\<close>), the query server (\<^verbatim>\<open>grpc_query.go\<close>), the validation of bids and
  bundles (\<^verbatim>\<open>auction.go\<close>), and the rewards address providers of \<^verbatim>\<open>x/builder/rewards\<close>.
\<close>

section \<open>The keeper\<close>

text \<open>
  The bank module (interface \<open>BankKeeper\<close>): \<open>SendCoins\<close> returns the context with the store it
  wrote to.
\<close>

record 'b bank_ops =
  SendCoins :: "'b Context \<Rightarrow> bytes \<Rightarrow> bytes \<Rightarrow> coins \<Rightarrow> 'b Context \<times> unit outcome"
  GetBalance :: "'b Context \<Rightarrow> bytes \<Rightarrow> string \<Rightarrow> coin"

text \<open>\<open>cdc\<close> stands for the generated codec; the store key selects \<open>builder_store\<close>.\<close>

record ('d, 'b) Keeper =
  cdc :: "'d pb_ops"
  bankKeeper :: "'b bank_ops"
  rewardsAddressProvider :: "'b Context \<Rightarrow> bytes outcome"
  authority :: string

text \<open>\<open>moduleAddress\<close> is the result of \<^verbatim>\<open>accountKeeper.GetModuleAddress\<close>, nil if not registered.\<close>

definition NewKeeperWithRewardsAddressProvider ::
  "addr_ops \<Rightarrow> 'd pb_ops \<Rightarrow> bytes option \<Rightarrow> 'b bank_ops \<Rightarrow> ('b Context \<Rightarrow> bytes outcome) \<Rightarrow> string
   \<Rightarrow> ('d, 'b) Keeper outcome" where
  "NewKeeperWithRewardsAddressProvider A cdc_ops moduleAddress bank provider auth =
     (if \<not> is_Ok (AccAddressFromBech32 A auth) then Panic ''invalid authority''
      else if moduleAddress = None then Panic ''builder module account has not been set''
      else Ok \<lparr>cdc = cdc_ops, bankKeeper = bank, rewardsAddressProvider = provider,
               authority = auth\<rparr>)"

subsection \<open>Rewards address providers\<close>

definition Fixed_GetRewardsAddress :: "bytes \<Rightarrow> 'b Context \<Rightarrow> bytes outcome" where
  "Fixed_GetRewardsAddress rewardsAddress ctx =
     (if rewardsAddress = [] then Err (ErrMsg ''rewards address is empty'')
      else Ok rewardsAddress)"

text \<open>
  \<open>prevProposer\<close> and \<open>validatorOperator\<close> are the calls to the distribution and the staking
  keeper; the latter gives the operator address of the validator found.
\<close>

definition Proposer_GetRewardsAddress ::
  "('b Context \<Rightarrow> bytes outcome) \<Rightarrow> ('b Context \<Rightarrow> bytes \<Rightarrow> bytes outcome) \<Rightarrow> 'b Context \<Rightarrow> bytes outcome"
where
  "Proposer_GetRewardsAddress prevProposer validatorOperator ctx =
     obind (prevProposer ctx) (\<lambda>prevPropConsAddr.
     obind (validatorOperator ctx prevPropConsAddr) (\<lambda>operator. Ok operator))"

definition NewKeeper ::
  "addr_ops \<Rightarrow> 'd pb_ops \<Rightarrow> bytes option \<Rightarrow> 'b bank_ops \<Rightarrow> ('b Context \<Rightarrow> bytes outcome)
   \<Rightarrow> ('b Context \<Rightarrow> bytes \<Rightarrow> bytes outcome) \<Rightarrow> string \<Rightarrow> ('d, 'b) Keeper outcome" where
  "NewKeeper A cdc_ops moduleAddress bank prevProposer validatorOperator auth =
     NewKeeperWithRewardsAddressProvider A cdc_ops moduleAddress bank
       (Proposer_GetRewardsAddress prevProposer validatorOperator) auth"

section \<open>Parameters in the store\<close>

definition KeyParams :: bytes where
  "KeyParams = [1]"

definition GetAuthority :: "('d, 'b) Keeper \<Rightarrow> string" where
  "GetAuthority k = authority k"

definition GetParams :: "('d, 'b) Keeper \<Rightarrow> 'b Context \<Rightarrow> 'd Params outcome" where
  "GetParams k ctx =
     (let bz = (case builder_store (ms ctx) KeyParams of None \<Rightarrow> [] | Some b \<Rightarrow> b)
      in if length bz = 0 then Err (ErrMsg ''no params found for the builder module'')
         else Params_Unmarshal (cdc k) (empty_params (cdc k)) bz)"

definition SetParams ::
  "('d, 'b) Keeper \<Rightarrow> 'b Context \<Rightarrow> 'd Params \<Rightarrow> 'b Context \<times> unit outcome" where
  "SetParams k ctx params =
     (case Params_Marshal (cdc k) params of
        Err e \<Rightarrow> (ctx, Err e)
      | Panic s \<Rightarrow> (ctx, Panic s)
      | Ok bz \<Rightarrow>
          (ctx\<lparr>ms := (ms ctx)\<lparr>builder_store := (builder_store (ms ctx))(KeyParams \<mapsto> bz)\<rparr>\<rparr>, Ok ()))"

definition GetMaxBundleSize :: "('d, 'b) Keeper \<Rightarrow> 'b Context \<Rightarrow> 32 word outcome" where
  "GetMaxBundleSize k ctx = obind (GetParams k ctx) (\<lambda>params. Ok (MaxBundleSize params))"

definition GetEscrowAccount :: "('d, 'b) Keeper \<Rightarrow> 'b Context \<Rightarrow> bytes option outcome" where
  "GetEscrowAccount k ctx = obind (GetParams k ctx) (\<lambda>params. Ok (EscrowAccountAddress params))"

definition GetReserveFee :: "('d, 'b) Keeper \<Rightarrow> 'b Context \<Rightarrow> coin outcome" where
  "GetReserveFee k ctx = obind (GetParams k ctx) (\<lambda>params. Ok (ReserveFee params))"

definition GetMinBidIncrement :: "('d, 'b) Keeper \<Rightarrow> 'b Context \<Rightarrow> coin outcome" where
  "GetMinBidIncrement k ctx = obind (GetParams k ctx) (\<lambda>params. Ok (MinBidIncrement params))"

definition GetProposerFee :: "('d, 'b) Keeper \<Rightarrow> 'b Context \<Rightarrow> 'd outcome" where
  "GetProposerFee k ctx = obind (GetParams k ctx) (\<lambda>params. Ok (ProposerFee params))"

definition FrontRunningProtectionEnabled :: "('d, 'b) Keeper \<Rightarrow> 'b Context \<Rightarrow> bool outcome" where
  "FrontRunningProtectionEnabled k ctx =
     obind (GetParams k ctx) (\<lambda>params. Ok (FrontRunningProtection params))"

definition InitGenesis ::
  "('d, 'b) Keeper \<Rightarrow> 'b Context \<Rightarrow> 'd GenesisState \<Rightarrow> 'b Context \<times> unit outcome" where
  "InitGenesis k ctx gs =
     (case SetParams k ctx (gs_Params gs) of
        (ctx', Err e) \<Rightarrow> (ctx', Panic ''init genesis'')
      | r \<Rightarrow> r)"

definition ExportGenesis :: "('d, 'b) Keeper \<Rightarrow> 'b Context \<Rightarrow> 'd GenesisState outcome" where
  "ExportGenesis k ctx =
     (case GetParams k ctx of
        Ok params \<Rightarrow> Ok (NewGenesisState params)
      | Err e \<Rightarrow> Panic ''export genesis''
      | Panic s \<Rightarrow> Panic s)"

text \<open>The response of the query server is its field \<open>Params\<close>.\<close>

definition QueryServer_Params :: "('d, 'b) Keeper \<Rightarrow> 'b Context \<Rightarrow> 'd Params outcome" where
  "QueryServer_Params k ctx = obind (GetParams k ctx) (\<lambda>params. Ok params)"

section \<open>Validation of bids\<close>

definition ValidateAuctionBid ::
  "coin_ops \<Rightarrow> ('d, 'b) Keeper \<Rightarrow> 'b Context \<Rightarrow> bytes \<Rightarrow> coin \<Rightarrow> coin \<Rightarrow> unit outcome" where
  "ValidateAuctionBid C k ctx bidder bid highestBid =
     (if Coin_IsNil C bid then Err (ErrMsg ''bid amount cannot be nil'')
      else
        obind (GetReserveFee k ctx) (\<lambda>reserveFee.
        if Denom bid \<noteq> Denom reserveFee then
          Err (ErrMsg ''bid denom does not match the reserve fee denom'')
        else
          obind (Coin_IsGTE C bid reserveFee) (\<lambda>gte.
          if \<not> gte then Err (ErrMsg ''bid amount is less than the reserve fee'')
          else
            obind
              (if Coin_IsNil C highestBid then Ok ()
               else
                 obind (GetMinBidIncrement k ctx) (\<lambda>minBidIncrement.
                 if Denom minBidIncrement \<noteq> Denom bid then
                   Err (ErrMsg ''min bid increment denom does not match the bid denom'')
                 else
                   obind (Coin_Add C highestBid minBidIncrement) (\<lambda>minBid.
                   obind (Coin_IsGTE C bid minBid) (\<lambda>gte.
                     if \<not> gte then
                       Err (ErrMsg ''bid amount is less than the highest bid + min bid increment'')
                     else Ok ()))))
              (\<lambda>_.
                obind (Coin_IsGTE C (GetBalance (bankKeeper k) ctx bidder (Denom bid)) bid) (\<lambda>gte.
                  if \<not> gte then Err (ErrMsg ''insufficient funds to bid'') else Ok ())))))"

text \<open>
  \<open>filterSigners\<close> deletes from the map \<open>currentSigners\<close> what is not in \<open>txSigners\<close>.
\<close>

definition filterSigners :: "string set \<Rightarrow> string set \<Rightarrow> string set" where
  "filterSigners currentSigners txSigners = {signer \<in> currentSigners. signer \<in> txSigners}"

text \<open>
  The loop of \<open>ValidateAuctionBundle\<close>. At first \<open>prevSigners\<close> is the same map as the entry of
  the first transaction (\<open>aliased\<close>), so the deletions also change that entry, \<open>first\<close>, which
  the caller sees.
\<close>

fun bundle_loop ::
  "string \<Rightarrow> string set list \<Rightarrow> string set \<Rightarrow> bool \<Rightarrow> string set \<Rightarrow> bool
   \<Rightarrow> string set \<times> unit outcome" where
  "bundle_loop bidder [] prevSigners aliased first seenBidder = (first, Ok ())"
| "bundle_loop bidder (txSigners # rest) prevSigners aliased first seenBidder =
     (let prev1 = filterSigners prevSigners txSigners;
          first1 = (if aliased then prev1 else first)
      in if prev1 = {} then
           (if seenBidder then (first1, Err FrontRunningError)
            else
              (let prev2 = filterSigners {bidder} txSigners
               in if prev2 = {} then (first1, Err FrontRunningError)
                  else bundle_loop bidder rest prev2 False first1 True))
         else bundle_loop bidder rest prev1 aliased first1 seenBidder)"

definition ValidateAuctionBundle ::
  "addr_ops \<Rightarrow> bytes \<Rightarrow> string set list \<Rightarrow> string set list \<times> unit outcome" where
  "ValidateAuctionBundle A bidder bundleSigners =
     (case bundleSigners of
        s0 # s1 # rest \<Rightarrow>
          (case bundle_loop (AccAddress_String A bidder) (s1 # rest) s0 True s0
                  (AccAddress_String A bidder \<in> s0) of
             (first, r) \<Rightarrow> (first # s1 # rest, r))
      | _ \<Rightarrow> (bundleSigners, Ok ()))"

text \<open>The bid information is passed by pointer: its signers come back as the bundle check left them.\<close>

definition ValidateBidInfo ::
  "addr_ops \<Rightarrow> coin_ops \<Rightarrow> ('d, 'b) Keeper \<Rightarrow> 'b Context \<Rightarrow> coin \<Rightarrow> BidInfo \<Rightarrow> BidInfo \<times> unit outcome"
where
  "ValidateBidInfo A C k ctx highestBid bidInfo =
     (case obind (GetMaxBundleSize k ctx) (\<lambda>maxBundleSize.
             if of_nat (length (bi_Transactions bidInfo)) > maxBundleSize then
               Err (ErrMsg ''bundle size exceeds max bundle size'')
             else
               obind (ValidateAuctionBid C k ctx (bi_Bidder bidInfo) (bi_Bid bidInfo) highestBid)
                 (\<lambda>_. FrontRunningProtectionEnabled k ctx)) of
        Err e \<Rightarrow> (bidInfo, Err e)
      | Panic s \<Rightarrow> (bidInfo, Panic s)
      | Ok protectionEnabled \<Rightarrow>
          if protectionEnabled then
            (case ValidateAuctionBundle A (bi_Bidder bidInfo) (bi_Signers bidInfo) of
               (signers, r) \<Rightarrow> (bidInfo\<lparr>bi_Signers := signers\<rparr>, r))
          else (bidInfo, Ok ()))"

end
