(* ===== verification/Genesis_Pb_Correct.thy ===== *)
theory Genesis_Pb_Correct
  imports Genesis_Pb
begin

text \<open>
  Correctness of the codec of \<^verbatim>\<open>genesis.pb.go\<close>: the marshalling code, which computes a size and
  fills a buffer from its end, produces the field-by-field encoding \<open>Params_enc\<close>; decoding
  that encoding gives the parameters back; and no input makes a decoding loop run forever.
\<close>

section \<open>What the marshalling code writes\<close>

definition Params_enc :: "(coin \<Rightarrow> bytes) \<Rightarrow> ('d \<Rightarrow> bytes) \<Rightarrow> 'd Params \<Rightarrow> bytes" where
  "Params_enc cenc denc m =
     (if MaxBundleSize m \<noteq> 0 then 0x08 # varint (ucast (MaxBundleSize m)) else []) @
     (if escrow_bytes m \<noteq> [] then 0x12 # chunk (escrow_bytes m) else []) @
     (0x1a # chunk (cenc (ReserveFee m))) @
     (0x22 # chunk (cenc (MinBidIncrement m))) @
     (if FrontRunningProtection m then [0x28, 1] else []) @
     (0x32 # chunk (denc (ProposerFee m)))"

definition Params_ok ::
  "(coin \<Rightarrow> bool) \<Rightarrow> (coin \<Rightarrow> bytes) \<Rightarrow> ('d \<Rightarrow> bool) \<Rightarrow> ('d \<Rightarrow> bytes) \<Rightarrow> 'd Params \<Rightarrow> bool" where
  "Params_ok cok cenc dok denc m \<longleftrightarrow>
     cok (ReserveFee m) \<and> cok (MinBidIncrement m) \<and> dok (ProposerFee m) \<and>
     length (Params_enc cenc denc m) < 2 ^ 60"

lemma writes_if:
  "(c \<Longrightarrow> writes f a) \<Longrightarrow> (\<not> c \<Longrightarrow> writes g b) \<Longrightarrow>
   writes (if c then f else g) (if c then a else b)"
  by simp

lemma writes_cong: "writes w bs \<Longrightarrow> bs = bs' \<Longrightarrow> writes w bs'"
  by simp

lemma writes_dec:
  assumes L: "pb_laws P cok cenc dok denc" and "dok x"
  shows "writes (w_dec P x) (chunk (denc x))"
  unfolding writes_def
proof (intro allI impI)
  fix free junk out :: bytes
  assume l: "length junk = length (chunk (denc x))"
  let ?n = "length (denc x)" and ?v = "varint (of_nat (length (denc x)))"
  define j1 j2 where "j1 = take (length ?v) junk" and "j2 = drop (length ?v) junk"
  have j: "junk = j1 @ j2" "length j1 = length ?v" "length j2 = ?n"
    using l by (simp_all add: j1_def j2_def chunk_def)
  have m: "pb_dec_MarshalTo P x (j2 @ out) = Ok (denc x @ out)"
    by (rule pb_lawsD(4) [OF L assms(2) j(3)])
  have "encodeVarint (of_nat ?n) (buf_st (free @ j1) (denc x @ out)) = Ok (buf_st free (?v @ denc x @ out))"
    by (rule writesD [OF writes_varint j(2)])
  then show "w_dec P x (buf_st (free @ junk) out) = Ok (buf_st free (chunk (denc x) @ out))"
    using m j pb_lawsD(3) [OF L assms(2)]
    by (simp add: w_dec_def buf_st_def chunk_def nat_add_distrib Let_def)
qed

lemma writes_Params:
  assumes L: "pb_laws P cok cenc dok denc" and ok: "Params_ok cok cenc dok denc m"
  shows "writes (Params_writer P m) (Params_enc cenc denc m)"
proof (rule writes_cong)
  note c = pb_lawsD(1) [OF L]
  show "writes (Params_writer P m)
     (((((((((if MaxBundleSize m \<noteq> 0 then [0x08] @ varint (ucast (MaxBundleSize m)) else []) @
      (if length (escrow_bytes m) > 0 then [0x12] @ chunk (escrow_bytes m) else [])) @
      [0x1a]) @ chunk (cenc (ReserveFee m))) @ [0x22]) @ chunk (cenc (MinBidIncrement m))) @
      (if FrontRunningProtection m
       then [0x28] @ [if FrontRunningProtection m then 1 else 0] else [])) @ [0x32]) @
      chunk (denc (ProposerFee m)))"
    unfolding Params_writer_def
    by (intro writes_seq writes_if writes_intros writes_dec [OF L] writes_message [OF c])
      (use ok in \<open>simp_all add: Params_ok_def\<close>)
qed (simp add: Params_enc_def)

lemma chunk_size_eq: "chunk_size (int (length bs)) = 1 + int (length (chunk bs))"
  by (simp add: chunk_size_def length_chunk)

lemma Params_Size_eq:
  assumes L: "pb_laws P cok cenc dok denc" and "Params_ok cok cenc dok denc m"
  shows "Params_Size P m = int (length (Params_enc cenc denc m))"
proof -
  have "c_Size (pb_coin P) (ReserveFee m) = int (length (cenc (ReserveFee m)))"
    "c_Size (pb_coin P) (MinBidIncrement m) = int (length (cenc (MinBidIncrement m)))"
    "pb_dec_Size P (ProposerFee m) = int (length (denc (ProposerFee m)))"
    using assms(2) codec_lawsD(2) [OF pb_lawsD(1) [OF L]] pb_lawsD(3) [OF L]
    by (simp_all add: Params_ok_def)
  then show ?thesis
    by (simp add: Params_Size_def Params_enc_def Let_def chunk_size_eq length_varint)
qed

section \<open>Decoding\<close>

lemmas params_fields = Params_field_1_def Params_field_2_def Params_field_3_def Params_field_4_def
  Params_field_5_def Params_field_6_def wrong_wireType_def

lemmas decoder_shrinks = decode_tag_shrinks decode_varint_shrinks read_chunk_shrinks

interpretation params_decoder: field_decoder "Params_field P" for P :: "'d pb_ops"
proof unfold_locales
  fix l m bs m' rest
  assume s: "Params_field P l m bs = Ok (m', rest)" and b: "bs \<noteq> []" "length bs \<le> l" "l < 2 ^ 62"
  show "length rest < length bs"
  proof (cases "skip_unknown l bs = Ok rest")
    case True
    then show ?thesis using b by (intro skip_unknown_shrinks)
  next
    case False
    with s obtain f w r where "decode_tag bs = Ok (f, w, r)"
      and "Params_field_1 w m r = Ok (m', rest) \<or> Params_field_2 l w m r = Ok (m', rest) \<or>
        Params_field_3 P l w m r = Ok (m', rest) \<or> Params_field_4 P l w m r = Ok (m', rest) \<or>
        Params_field_5 w m r = Ok (m', rest) \<or> Params_field_6 P l w m r = Ok (m', rest)"
      by (auto simp: Params_field_def obind_eq_Ok split: if_splits)
    then show ?thesis
      by (auto simp: params_fields obind_eq_Ok split: if_splits dest!: decoder_shrinks)
  qed
qed

text \<open>Decoding drops the difference between a nil and an empty address.\<close>

definition norm_escrow :: "'d Params \<Rightarrow> 'd Params" where
  "norm_escrow m = (if EscrowAccountAddress m = Some [] then m\<lparr>EscrowAccountAddress := None\<rparr> else m)"

lemma varint_1: "[1] = varint 1"
  by (simp add: varint.simps [of 1] word_le_nat_alt)

text \<open>One encoded field, by its tag.\<close>

lemma Params_field_enc:
  assumes l: "l < 2 ^ 60"
  shows "Params_field P l m (0x08 # varint (ucast v) @ rest) = Ok (m\<lparr>MaxBundleSize := v\<rparr>, rest)"
    and "length (chunk bs @ rest) \<le> l \<Longrightarrow>
      Params_field P l m (0x12 # chunk bs @ rest) = Ok (m\<lparr>EscrowAccountAddress := Some bs\<rparr>, rest)"
    and "length (chunk bs @ rest) \<le> l \<Longrightarrow> c_Unmarshal (pb_coin P) (ReserveFee m) bs = Ok c \<Longrightarrow>
      Params_field P l m (0x1a # chunk bs @ rest) = Ok (m\<lparr>ReserveFee := c\<rparr>, rest)"
    and "length (chunk bs @ rest) \<le> l \<Longrightarrow> c_Unmarshal (pb_coin P) (MinBidIncrement m) bs = Ok c \<Longrightarrow>
      Params_field P l m (0x22 # chunk bs @ rest) = Ok (m\<lparr>MinBidIncrement := c\<rparr>, rest)"
    and "Params_field P l m (0x28 # 1 # rest) = Ok (m\<lparr>FrontRunningProtection := True\<rparr>, rest)"
    and "length (chunk bs @ rest) \<le> l \<Longrightarrow> pb_dec_Unmarshal P (ProposerFee m) bs = Ok d \<Longrightarrow>
      Params_field P l m (0x32 # chunk bs @ rest) = Ok (m\<lparr>ProposerFee := d\<rparr>, rest)"
proof -
  have one: "decode_varint 0 (0 :: 64 word) (1 # rest) = Ok (1, rest)"
    using decode_varint_0 [of 1 rest, where 'a = 64] by (simp flip: varint_1)
  note d = Params_field_def params_fields
  show "Params_field P l m (0x08 # varint (ucast v) @ rest) = Ok (m\<lparr>MaxBundleSize := v\<rparr>, rest)"
    and "Params_field P l m (0x28 # 1 # rest) = Ok (m\<lparr>FrontRunningProtection := True\<rparr>, rest)"
    by (simp_all add: d one)
qed (use l in \<open>simp_all add: Params_field_def params_fields read_chunk_chunk\<close>)

text \<open>The decoded message after each of the six fields.\<close>

lemma Params_Unmarshal_enc:
  fixes m :: "'d Params"
  assumes L: "pb_laws P cok cenc dok denc" and ok: "Params_ok cok cenc dok denc m"
  shows "Params_Unmarshal P (empty_params P) (Params_enc cenc denc m) = Ok (norm_escrow m)"
proof -
  let ?l = "length (Params_enc cenc denc m)"
  let ?run = "\<lambda>m bs. unmarshal_loop (Params_field P) ?l (length bs) m bs"
  define f1 where "f1 = (if MaxBundleSize m \<noteq> 0 then 0x08 # varint (ucast (MaxBundleSize m)) else [])"
  define f2 where "f2 = (if escrow_bytes m \<noteq> [] then 0x12 # chunk (escrow_bytes m) else [])"
  define f3 where "f3 = 0x1a # chunk (cenc (ReserveFee m))"
  define f4 where "f4 = 0x22 # chunk (cenc (MinBidIncrement m))"
  define f5 where "f5 = (if FrontRunningProtection m then [0x28, 1 :: byte] else [])"
  define f6 where "f6 = 0x32 # chunk (denc (ProposerFee m))"
  have enc: "Params_enc cenc denc m = f1 @ f2 @ f3 @ f4 @ f5 @ f6 @ []"
    by (simp add: Params_enc_def f1_def f2_def f3_def f4_def f5_def f6_def)
  have l: "?l < 2 ^ 60" "length (f1 @ f2 @ f3 @ f4 @ f5 @ f6 @ []) = ?l"
    using ok by (simp_all add: Params_ok_def enc)
  have coins: "c_Unmarshal (pb_coin P) zero_coin (cenc (ReserveFee m)) = Ok (ReserveFee m)"
    "c_Unmarshal (pb_coin P) zero_coin (cenc (MinBidIncrement m)) = Ok (MinBidIncrement m)"
    "pb_dec_Unmarshal P (pb_dec_nil P) (denc (ProposerFee m)) = Ok (ProposerFee m)"
    using ok codec_lawsD(4) [OF pb_lawsD(1) [OF L]] pb_lawsD(5) [OF L] by (simp_all add: Params_ok_def)
  define m1 where "m1 = (empty_params P)\<lparr>MaxBundleSize := MaxBundleSize m\<rparr>"
  define m2 where "m2 = m1\<lparr>EscrowAccountAddress := EscrowAccountAddress (norm_escrow m)\<rparr>"
  define m3 where "m3 = m2\<lparr>ReserveFee := ReserveFee m\<rparr>"
  define m4 where "m4 = m3\<lparr>MinBidIncrement := MinBidIncrement m\<rparr>"
  define m5 where "m5 = m4\<lparr>FrontRunningProtection := FrontRunningProtection m\<rparr>"
  define m6 where "m6 = m5\<lparr>ProposerFee := ProposerFee m\<rparr>"
  note ms = m1_def m2_def m3_def m4_def m5_def m6_def empty_params_def
  note field = params_decoder.loop_field and fe = Params_field_enc [OF l(1)]
  have "?run (empty_params P) (f1 @ f2 @ f3 @ f4 @ f5 @ f6 @ []) = ?run m1 (f2 @ f3 @ f4 @ f5 @ f6 @ [])"
    by (rule field) (use l in \<open>auto simp: f1_def ms fe split: if_splits\<close>)
  also have "\<dots> = ?run m2 (f3 @ f4 @ f5 @ f6 @ [])"
    by (rule field) (use l in
        \<open>auto simp: f2_def ms fe norm_escrow_def split: if_splits option.splits\<close>)
  also have "\<dots> = ?run m3 (f4 @ f5 @ f6 @ [])"
    by (rule field) (use l coins in \<open>auto simp: f3_def ms fe\<close>)
  also have "\<dots> = ?run m4 (f5 @ f6 @ [])"
    by (rule field) (use l coins in \<open>auto simp: f4_def ms fe\<close>)
  also have "\<dots> = ?run m5 (f6 @ [])"
    by (rule field) (use l in \<open>auto simp: f5_def ms fe split: if_splits\<close>)
  also have "\<dots> = ?run m6 []"
    by (rule field) (use l coins in \<open>auto simp: f6_def ms fe(6) [where rest = "[]", simplified]\<close>)
  finally show ?thesis by (simp add: Params_Unmarshal_def unmarshal_def enc ms norm_escrow_def)
qed

text \<open>The codec of the parameters is lawful on parameters with a nil or non-empty address.\<close>

lemma Params_MarshalToSizedBuffer_eq:
  assumes "pb_laws P cok cenc dok denc" "Params_ok cok cenc dok denc m"
    and "length junk = length (Params_enc cenc denc m)"
  shows "Params_MarshalToSizedBuffer P m (free @ junk) =
     Ok (free @ Params_enc cenc denc m, int (length (Params_enc cenc denc m)))"
  unfolding Params_MarshalToSizedBuffer_def
  by (rule sized_buffer_writes [OF writes_Params [OF assms(1,2)] assms(3)])

lemma Params_codec_laws:
  assumes L: "pb_laws P cok cenc dok denc"
  shows "codec_laws (Params_codec P) (empty_params P)
     (\<lambda>m. Params_ok cok cenc dok denc m \<and> EscrowAccountAddress m \<noteq> Some []) (Params_enc cenc denc)"
  using Params_Size_eq [OF L] Params_MarshalToSizedBuffer_eq [OF L] Params_Unmarshal_enc [OF L]
  by (auto simp: codec_laws_def Params_codec_def norm_escrow_def Params_ok_def)

lemma Params_Marshal_eq:
  assumes L: "pb_laws P cok cenc dok denc" and ok: "Params_ok cok cenc dok denc m"
  shows "Params_Marshal P m = Ok (Params_enc cenc denc m)"
  using Params_Size_eq [OF assms]
    Params_MarshalToSizedBuffer_eq [OF assms, of "replicate (length (Params_enc cenc denc m)) 0" "[]"]
  by (simp add: Params_Marshal_def c_Marshal_def Params_codec_def)

section \<open>Genesis state\<close>

definition GenesisState_enc ::
  "(coin \<Rightarrow> bytes) \<Rightarrow> ('d \<Rightarrow> bytes) \<Rightarrow> 'd GenesisState \<Rightarrow> bytes" where
  "GenesisState_enc cenc denc gs = 0x0a # chunk (Params_enc cenc denc (gs_Params gs))"

definition empty_genesis :: "'d pb_ops \<Rightarrow> 'd GenesisState" where
  "empty_genesis P = \<lparr>gs_Params = empty_params P\<rparr>"

interpretation genesis_decoder: field_decoder "GenesisState_field P" for P :: "'d pb_ops"
proof unfold_locales
  fix l m bs m' rest
  assume s: "GenesisState_field P l m bs = Ok (m', rest)"
    and b: "bs \<noteq> []" "length bs \<le> l" "l < 2 ^ 62"
  show "length rest < length bs"
  proof (cases "skip_unknown l bs = Ok rest")
    case True
    then show ?thesis using b by (intro skip_unknown_shrinks)
  next
    case False
    with s show ?thesis
      by (auto simp: GenesisState_field_def obind_eq_Ok wrong_wireType_def
          split: if_splits dest!: decoder_shrinks)
  qed
qed

lemma GenesisState_enc_field:
  assumes L: "pb_laws P cok cenc dok denc" and ok: "Params_ok cok cenc dok denc (gs_Params gs)"
    and l: "length (GenesisState_enc cenc denc gs) = l" "l < 2 ^ 60"
  shows "GenesisState_field P l (empty_genesis P) (GenesisState_enc cenc denc gs) =
     Ok (\<lparr>gs_Params = norm_escrow (gs_Params gs)\<rparr>, [])"
proof -
  let ?c = "chunk (Params_enc cenc denc (gs_Params gs))"
  have "read_chunk l (?c @ []) = Ok (Params_enc cenc denc (gs_Params gs), [])"
    by (rule read_chunk_chunk) (use l in \<open>auto simp: GenesisState_enc_def\<close>)
  then show ?thesis
    using Params_Unmarshal_enc [OF L ok]
    by (simp add: GenesisState_field_def GenesisState_enc_def empty_genesis_def)
qed

lemma GenesisState_Unmarshal_enc:
  assumes L: "pb_laws P cok cenc dok denc" and ok: "Params_ok cok cenc dok denc (gs_Params gs)"
    and l: "length (GenesisState_enc cenc denc gs) < 2 ^ 60"
  shows "GenesisState_Unmarshal P (empty_genesis P) (GenesisState_enc cenc denc gs) =
     Ok \<lparr>gs_Params = norm_escrow (gs_Params gs)\<rparr>"
  using genesis_decoder.loop_step [of P _ "empty_genesis P" "GenesisState_enc cenc denc gs" "[]"]
    GenesisState_enc_field [OF L ok refl l] l
  by (simp add: GenesisState_Unmarshal_def unmarshal_def) (simp add: GenesisState_enc_def)

lemma GenesisState_Marshal_eq:
  assumes L: "pb_laws P cok cenc dok denc" and ok: "Params_ok cok cenc dok denc (gs_Params gs)"
  shows "GenesisState_Marshal P gs = Ok (GenesisState_enc cenc denc gs)"
proof -
  let ?e = "GenesisState_enc cenc denc gs" and ?p = "gs_Params gs"
  have "writes (w_message (Params_codec P) ?p) (chunk (Params_enc cenc denc ?p))"
    by (rule writes_messageI) (simp add: Params_codec_def Params_MarshalToSizedBuffer_eq [OF L ok])
  then have "writes (seq_w (w_message (Params_codec P) ?p) (w_byte 0x0a)) ([0x0a] @ chunk (Params_enc cenc denc ?p))"
    by (rule writes_seq [OF _ writes_byte])
  then have "GenesisState_MarshalToSizedBuffer P gs ([] @ replicate (length ?e) 0) = Ok ([] @ ?e, int (length ?e))"
    unfolding GenesisState_MarshalToSizedBuffer_def
    by (intro sized_buffer_writes) (simp_all add: GenesisState_enc_def)
  moreover have "GenesisState_Size P gs = int (length ?e)"
    using Params_Size_eq [OF L ok] by (simp add: GenesisState_Size_def chunk_size_eq GenesisState_enc_def)
  ultimately show ?thesis
    by (simp add: GenesisState_Marshal_def c_Marshal_def GenesisState_codec_def)
qed

section \<open>Robustness\<close>

lemma Params_field_no_Panic:
  assumes "\<And>c bz s. c_Unmarshal (pb_coin P) c bz \<noteq> Panic s" "\<And>d bz s. pb_dec_Unmarshal P d bz \<noteq> Panic s"
    and "length bs < 2 ^ 62"
  shows "Params_field P l m bs \<noteq> Panic s"
  unfolding Params_field_def
proof (rule obind_no_Panic)
  fix x :: "int \<times> nat \<times> bytes"
  obtain f w r where x: "x = (f, w, r)" using prod_cases3 by blast
  note no = decoders_no_Panic assms
  have "Params_field_1 w m r \<noteq> Panic s" "Params_field_2 l w m r \<noteq> Panic s"
    "Params_field_3 P l w m r \<noteq> Panic s" "Params_field_4 P l w m r \<noteq> Panic s"
    "Params_field_5 w m r \<noteq> Panic s" "Params_field_6 P l w m r \<noteq> Panic s"
    unfolding params_fields by (auto simp: obind_eq_Panic no)
  moreover have "obind (skip_unknown l bs) (\<lambda>rest'. Ok (m, rest')) \<noteq> Panic s"
    by (rule obind_no_Panic) (simp_all only: skip_unknown_no_Panic [OF assms(3)] outcome.distinct
        not_False_eq_True)
  ultimately show "(case x of (fieldNum, wireType, rest) \<Rightarrow>
     if fieldNum = 1 then Params_field_1 wireType m rest
     else if fieldNum = 2 then Params_field_2 l wireType m rest
     else if fieldNum = 3 then Params_field_3 P l wireType m rest
     else if fieldNum = 4 then Params_field_4 P l wireType m rest
     else if fieldNum = 5 then Params_field_5 wireType m rest
     else if fieldNum = 6 then Params_field_6 P l wireType m rest
     else obind (skip_unknown l bs) (\<lambda>rest'. Ok (m, rest'))) \<noteq> Panic s"
    by (simp add: x)
qed (rule decode_tag_no_Panic)

section \<open>A concrete codec\<close>

text \<open>
  An encoding of the embedded types on which the theorems are applied: a coin of at most 255
  units is its amount followed by its denomination, a decimal is its number of hundredths.
\<close>

definition demo_coin_enc :: "coin \<Rightarrow> bytes" where
  "demo_coin_enc c = (case Amount c of Some n \<Rightarrow> of_int n | None \<Rightarrow> 0) # str_bytes (Denom c)"

definition demo_coin_dec :: "bytes \<Rightarrow> coin outcome" where
  "demo_coin_dec bs = (case bs of [] \<Rightarrow> Err ErrUnexpectedEOF
     | b # d \<Rightarrow> Ok \<lparr>Denom = bytes_str d, Amount = Some (uint b)\<rparr>)"

definition demo_coin_ok :: "coin \<Rightarrow> bool" where
  "demo_coin_ok c \<longleftrightarrow> (\<exists>n \<in> {0..<256}. Amount c = Some n) \<and> length (Denom c) < 1000"

definition demo_dec_ok :: "int \<Rightarrow> bool" where
  "demo_dec_ok d \<longleftrightarrow> (\<exists>h \<in> {0..<256}. d = h * 10 ^ 16)"

definition demo_dec_enc :: "int \<Rightarrow> bytes" where
  "demo_dec_enc d = [of_int (d div 10 ^ 16)]"

definition demo_pb :: "int pb_ops" where
  "demo_pb = \<lparr>pb_coin = \<lparr>c_Size = (\<lambda>c. int (length (demo_coin_enc c))),
       c_MarshalToSizedBuffer = (\<lambda>c d. sized_buffer (w_copy (demo_coin_enc c)) d),
       c_Unmarshal = (\<lambda>_ bs. demo_coin_dec bs)\<rparr>,
     pb_dec_nil = 0, pb_dec_Size = (\<lambda>d. 1),
     pb_dec_MarshalTo = (\<lambda>d buf. if buf = [] then Panic ''index out of range''
        else Ok (of_int (d div 10 ^ 16) # tl buf)),
     pb_dec_Unmarshal = (\<lambda>_ bs. case bs of [] \<Rightarrow> Err ErrUnexpectedEOF | b # _ \<Rightarrow> Ok (uint b * 10 ^ 16))\<rparr>"

lemma demo_coin_roundtrip: "demo_coin_ok c \<Longrightarrow> demo_coin_dec (demo_coin_enc c) = Ok c"
  by (cases c) (auto simp: demo_coin_ok_def demo_coin_dec_def demo_coin_enc_def
      unsigned_of_int take_bit_int_eq_self)

lemma demo_pb_laws: "pb_laws demo_pb demo_coin_ok demo_coin_enc demo_dec_ok demo_dec_enc"
proof -
  have "length (demo_coin_enc c) < 2 ^ 60" if "demo_coin_ok c" for c
    using that by (auto simp: demo_coin_ok_def demo_coin_enc_def)
  then have "codec_laws (pb_coin demo_pb) zero_coin demo_coin_ok demo_coin_enc"
    using sized_buffer_writes [OF writes_copy] demo_coin_roundtrip
    by (auto simp: codec_laws_def demo_pb_def)
  then show ?thesis
    by (auto simp: pb_laws_def demo_pb_def demo_dec_ok_def demo_dec_enc_def length_Suc_conv
        unsigned_of_int take_bit_int_eq_self)
qed

section \<open>An instance\<close>

definition demo_params :: "int Params" where
  "demo_params = \<lparr>MaxBundleSize = 300, EscrowAccountAddress = Some [7, 8, 9],
     ReserveFee = \<lparr>Denom = ''stake'', Amount = Some 5\<rparr>,
     MinBidIncrement = \<lparr>Denom = ''stake'', Amount = Some 1\<rparr>,
     FrontRunningProtection = True, ProposerFee = 50 * 10 ^ 16\<rparr>"

lemma sov_small: "v < 128 \<Longrightarrow> sov v = 1"
proof -
  assume "v < 128"
  then have "varint v = [ucast v]" by (subst varint.simps) (simp add: not_le [symmetric])
  then show ?thesis by (simp flip: length_varint)
qed

lemma demo_params_length: "length (Params_enc demo_coin_enc demo_dec_enc demo_params) = 29"
proof -
  have "sov 300 = 2"
    by (simp flip: length_varint) (simp add: varint.simps [of 300] varint.simps [of 2] word_le_nat_alt)
  then show ?thesis
    by (simp add: demo_params_def Params_enc_def length_chunk length_varint demo_coin_enc_def
        demo_dec_enc_def sov_small word_less_nat_alt)
qed

lemma demo_params_ok: "Params_ok demo_coin_ok demo_coin_enc demo_dec_ok demo_dec_enc demo_params"
proof -
  have "demo_dec_ok (ProposerFee demo_params)"
    unfolding demo_dec_ok_def by (rule bexI [of _ 50]) (simp_all add: demo_params_def)
  moreover have "demo_coin_ok (ReserveFee demo_params)" "demo_coin_ok (MinBidIncrement demo_params)"
    by (simp_all add: demo_params_def demo_coin_ok_def)
  ultimately show ?thesis by (simp add: Params_ok_def demo_params_length)
qed

lemma Params_Unmarshal_no_Panic:
  assumes "\<And>c bz s. c_Unmarshal (pb_coin P) c bz \<noteq> Panic s"
    and "\<And>d bz s. pb_dec_Unmarshal P d bz \<noteq> Panic s"
    and "length dAtA < 2 ^ 62"
  shows "Params_Unmarshal P m dAtA \<noteq> Panic s"
  unfolding Params_Unmarshal_def
  by (rule params_decoder.unmarshal_no_Panic [OF Params_field_no_Panic])
    (use assms in \<open>auto intro: order.strict_trans1\<close>)

end
