(* ===== verification/Builder_Keeper_Correct.thy ===== *)
theory Builder_Keeper_Correct
  imports Builder_Keeper Genesis_Pb_Correct
begin

text \<open>
  Correctness of the keeper: the parameters written are the parameters read, through the
  store's bytes (interface \<open>param_store\<close>); which bids are accepted; and exactly which bundles
  the front-running protection lets through.
\<close>

section \<open>The parameter store\<close>

text \<open>
  The contract of a store with one value: reading after a successful write gives the written
  value up to \<open>norm\<close>, and a write keeps everything outside (\<open>obs\<close>).
\<close>

locale param_store =
  fixes get :: "'s \<Rightarrow> 'p outcome"
    and put :: "'s \<Rightarrow> 'p \<Rightarrow> 's \<times> unit outcome"
    and ok :: "'p \<Rightarrow> bool"
    and norm :: "'p \<Rightarrow> 'p"
    and obs :: "'s \<Rightarrow> 'o"
  assumes put_Ok: "ok p \<Longrightarrow> snd (put s p) = Ok ()"
    and get_put: "ok p \<Longrightarrow> get (fst (put s p)) = Ok (norm p)"
    and put_frame: "obs (fst (put s p)) = obs s"
begin

lemma read_after_write: "ok p \<Longrightarrow> obind (get (fst (put s p))) f = f (norm p)"
  by (simp add: get_put)

lemma last_write_wins: "ok q \<Longrightarrow> get (fst (put (fst (put s p)) q)) = Ok (norm q)"
  by (simp add: get_put)

lemma put_eq: "ok p \<Longrightarrow> put s p = (fst (put s p), Ok ())"
  using put_Ok [of p s] by (metis prod.collapse)

end

text \<open>What \<open>SetParams\<close> must leave alone: everything but the module's own entry.\<close>

definition outside_params :: "'b Context \<Rightarrow> 'b Context" where
  "outside_params ctx =
     ctx\<lparr>ms := (ms ctx)\<lparr>builder_store := (builder_store (ms ctx))(KeyParams := None)\<rparr>\<rparr>"

lemma Params_enc_not_Nil [simp]: "Params_enc cenc denc m \<noteq> []"
  by (simp add: Params_enc_def)

interpretation keeper_store: param_store "GetParams k" "SetParams k"
    "\<lambda>p. pb_laws (cdc k) cok cenc dok denc \<and> Params_ok cok cenc dok denc p" norm_escrow outside_params
  for k :: "('d, 'b) Keeper" and cok cenc dok denc
proof unfold_locales
  fix p and s :: "'b Context"
  assume ok: "pb_laws (cdc k) cok cenc dok denc \<and> Params_ok cok cenc dok denc p"
  then have m: "Params_Marshal (cdc k) p = Ok (Params_enc cenc denc p)"
    by (blast intro: Params_Marshal_eq)
  show "snd (SetParams k s p) = Ok ()" by (simp add: SetParams_def m)
  show "GetParams k (fst (SetParams k s p)) = Ok (norm_escrow p)"
    using ok Params_Unmarshal_enc [of "cdc k" cok cenc dok denc p]
    by (simp add: SetParams_def GetParams_def m)
next
  show "outside_params (fst (SetParams k s p)) = outside_params s" for p and s :: "'b Context"
    by (cases "Params_Marshal (cdc k) p")
      (simp_all add: SetParams_def outside_params_def)
qed

section \<open>Bundles\<close>

lemma filterSigners_eq: "filterSigners a b = a \<inter> b"
  by (auto simp: filterSigners_def)

lemma bundle_loop_seen:
  "snd (bundle_loop b rest prev al f True) = Ok () \<longleftrightarrow> rest = [] \<or> prev \<inter> \<Inter> (set rest) \<noteq> {}"
proof (induction rest arbitrary: prev al f)
  case (Cons t ts)
  show ?case
  proof (cases "prev \<inter> t = {}")
    case True
    then show ?thesis by (auto simp: filterSigners_eq Let_def)
  next
    case False
    with Cons [of "prev \<inter> t"] show ?thesis
      by (cases "ts = []") (simp_all add: filterSigners_eq Let_def Int_assoc)
  qed
qed simp

text \<open>A split of the remaining transactions: a shared signer, then only the bidder.\<close>

definition hand_over :: "string \<Rightarrow> string set \<Rightarrow> string set list \<Rightarrow> bool" where
  "hand_over b prev rest \<longleftrightarrow>
     (\<exists>front late. rest = front @ late \<and> late \<noteq> [] \<and>
        (front = [] \<or> prev \<inter> \<Inter> (set front) \<noteq> {}) \<and> (\<forall>s \<in> set late. b \<in> s))"

lemma hand_over_Cons:
  "hand_over b prev (t # ts) \<longleftrightarrow>
     (\<forall>s \<in> set (t # ts). b \<in> s) \<or> (prev \<inter> t \<noteq> {} \<and> hand_over b (prev \<inter> t) ts)"
proof
  assume "hand_over b prev (t # ts)"
  then obtain front late where s: "t # ts = front @ late" "late \<noteq> []"
    "front = [] \<or> prev \<inter> \<Inter> (set front) \<noteq> {}" "\<forall>s \<in> set late. b \<in> s"
    by (auto simp: hand_over_def)
  show "(\<forall>s \<in> set (t # ts). b \<in> s) \<or> (prev \<inter> t \<noteq> {} \<and> hand_over b (prev \<inter> t) ts)"
  proof (cases front)
    case Nil
    with s show ?thesis by simp
  next
    case (Cons x front')
    with s have "prev \<inter> t \<noteq> {}" "ts = front' @ late" "front' = [] \<or> prev \<inter> t \<inter> \<Inter> (set front') \<noteq> {}"
      by auto
    with s(2,4) show ?thesis unfolding hand_over_def by blast
  qed
next
  assume "(\<forall>s \<in> set (t # ts). b \<in> s) \<or> (prev \<inter> t \<noteq> {} \<and> hand_over b (prev \<inter> t) ts)"
  then show "hand_over b prev (t # ts)"
  proof
    assume "\<forall>s \<in> set (t # ts). b \<in> s"
    then show ?thesis unfolding hand_over_def by (intro exI [of _ "[]"] exI [of _ "t # ts"]) simp
  next
    assume h: "prev \<inter> t \<noteq> {} \<and> hand_over b (prev \<inter> t) ts"
    then obtain front late where s: "ts = front @ late" "late \<noteq> []"
      "front = [] \<or> prev \<inter> t \<inter> \<Inter> (set front) \<noteq> {}" "\<forall>s \<in> set late. b \<in> s"
      by (auto simp: hand_over_def)
    have "prev \<inter> \<Inter> (set (t # front)) \<noteq> {}" using s(3) h by (cases front) auto
    with s show ?thesis unfolding hand_over_def
      by (intro exI [of _ "t # front"] exI [of _ late]) simp
  qed
qed

lemma bundle_loop_unseen:
  "snd (bundle_loop b rest prev al f False) = Ok () \<longleftrightarrow>
     rest = [] \<or> prev \<inter> \<Inter> (set rest) \<noteq> {} \<or> hand_over b prev rest"
proof (induction rest arbitrary: prev al f)
  case (Cons t ts)
  show ?case
  proof (cases "prev \<inter> t = {}")
    case True
    then have "snd (bundle_loop b (t # ts) prev al f False) = Ok () \<longleftrightarrow> (\<forall>s \<in> set (t # ts). b \<in> s)"
      by (auto simp: filterSigners_eq Let_def bundle_loop_seen)
    with True show ?thesis by (auto simp: hand_over_Cons)
  next
    case False
    have e: "snd (bundle_loop b (t # ts) prev al f False) = Ok () \<longleftrightarrow>
        ts = [] \<or> (prev \<inter> t) \<inter> \<Inter> (set ts) \<noteq> {} \<or> hand_over b (prev \<inter> t) ts"
      using False Cons [of "prev \<inter> t"] by (simp add: filterSigners_eq Let_def)
    have all: "hand_over b (prev \<inter> t) ts" if "\<forall>s \<in> set (t # ts). b \<in> s" "ts \<noteq> []"
      using that unfolding hand_over_def by (intro exI [of _ "[]"] exI [of _ ts]) simp
    show ?thesis
      unfolding e hand_over_Cons using False all by (cases "ts = []") (auto simp: Int_assoc)
  qed
qed simp

lemma bundle_loop_result:
  "snd (bundle_loop b rest prev al f seen) \<in> {Ok (), Err FrontRunningError}"
  by (induction b rest prev al f seen rule: bundle_loop.induct) (auto simp: Let_def)

section \<open>Bids\<close>

lemma ValidateAuctionBid_Ok_iff:
  assumes C: "coin_laws C" and p: "GetParams k ctx = Ok p"
    and fees: "Amount (ReserveFee p) = Some reserve" "Amount (MinBidIncrement p) = Some inc"
      "Denom (MinBidIncrement p) = Denom (ReserveFee p)"
    and hb: "Amount highest \<noteq> None \<Longrightarrow> Denom highest = Denom (ReserveFee p)"
    and bal: "GetBalance (bankKeeper k) ctx bidder (Denom bid) = \<lparr>Denom = Denom bid, Amount = Some bal\<rparr>"
  shows "ValidateAuctionBid C k ctx bidder bid highest = Ok () \<longleftrightarrow>
     (\<exists>n. Amount bid = Some n \<and> Denom bid = Denom (ReserveFee p) \<and> reserve \<le> n \<and> n \<le> bal \<and>
        (case Amount highest of None \<Rightarrow> True | Some h \<Rightarrow> h + inc \<le> n))"
proof (cases "\<exists>n. Amount bid = Some n \<and> Denom bid = Denom (ReserveFee p)")
  case False
  then show ?thesis using coin_lawsD(1) [OF C]
    by (auto simp: ValidateAuctionBid_def GetReserveFee_def p)
next
  case True
  then obtain n where n: "Amount bid = Some n" and d: "Denom bid = Denom (ReserveFee p)" by auto
  note laws = coin_lawsD [OF C]
  have gte: "Coin_IsGTE C bid (ReserveFee p) = Ok (reserve \<le> n)"
    by (rule laws(2) [OF n fees(1) d])
  have b: "Coin_IsGTE C \<lparr>Denom = Denom bid, Amount = Some bal\<rparr> bid = Ok (n \<le> bal)"
    by (rule laws(2)) (simp_all add: n)
  have nil: "\<not> Coin_IsNil C bid" using n laws(1) by simp
  show ?thesis
  proof (cases "Amount highest")
    case None
    then show ?thesis using laws(1) [of highest]
      by (auto simp: ValidateAuctionBid_def GetReserveFee_def p gte n d nil b [unfolded d] bal [unfolded d])
  next
    case (Some h)
    then have "Coin_Add C highest (MinBidIncrement p) = Ok \<lparr>Denom = Denom highest, Amount = Some (h + inc)\<rparr>"
      using hb fees by (intro laws(4)) simp_all
    moreover have "Coin_IsGTE C bid \<lparr>Denom = Denom highest, Amount = Some (h + inc)\<rparr> = Ok (h + inc \<le> n)"
      using hb Some d by (intro laws(2)) (simp_all add: n)
    moreover have "\<not> Coin_IsNil C highest" using laws(1) [of highest] Some by simp
    ultimately show ?thesis
      using fees(3) Some by (auto simp: ValidateAuctionBid_def GetReserveFee_def GetMinBidIncrement_def
          p gte n d nil b [unfolded d] bal [unfolded d])
  qed
qed

section \<open>Properties\<close>

text \<open>
  C6: With front-running protection a bundle is valid exactly if it has at most one
  transaction, or some address signed all of its transactions, or the bidder did not sign
  the first one and the bundle is a front part whose transactions share a signer (or is a
  single transaction) followed by transactions that the bidder signed. Every other bundle is
  rejected with the front-running error.
\<close>

theorem ValidateAuctionBundle_spec:
  "let b = AccAddress_String A bidder; r = snd (ValidateAuctionBundle A bidder S) in
     (r = Ok () \<longleftrightarrow>
        length S \<le> 1 \<or> \<Inter> (set S) \<noteq> {} \<or>
        (b \<notin> hd S \<and> (\<exists>front late. S = front @ late \<and> front \<noteq> [] \<and> late \<noteq> [] \<and>
           (length front = 1 \<or> \<Inter> (set front) \<noteq> {}) \<and> (\<forall>s \<in> set late. b \<in> s)))) \<and>
     (r \<noteq> Ok () \<longrightarrow> r = Err FrontRunningError)"
proof (cases "length S \<le> 1")
  case True
  then have "S = [] \<or> (\<exists>s. S = [s])" by (cases S) auto
  then show ?thesis using True by (auto simp: ValidateAuctionBundle_def Let_def)
next
  case False
  then obtain s0 s1 rest where S: "S = s0 # s1 # rest" by (cases S; cases "tl S") auto
  let ?b = "AccAddress_String A bidder"
  let ?l = "bundle_loop ?b (s1 # rest) s0 True s0 (?b \<in> s0)"
  have r: "snd (ValidateAuctionBundle A bidder S) = snd ?l"
    by (simp add: S ValidateAuctionBundle_def split: prod.split del: bundle_loop.simps)
  have split: "(\<exists>front late. S = front @ late \<and> front \<noteq> [] \<and> late \<noteq> [] \<and>
      (length front = 1 \<or> \<Inter> (set front) \<noteq> {}) \<and> (\<forall>s \<in> set late. ?b \<in> s)) \<longleftrightarrow> hand_over ?b s0 (s1 # rest)"
    (is "?X = _")
  proof
    assume ?X
    then obtain front late where x: "S = front @ late" "front \<noteq> []" "late \<noteq> []"
      "length front = 1 \<or> \<Inter> (set front) \<noteq> {}" "\<forall>s \<in> set late. ?b \<in> s" by blast
    then obtain f where "front = s0 # f" using S by (cases front) auto
    with x S show "hand_over ?b s0 (s1 # rest)" by (auto simp: hand_over_def)
  next
    assume "hand_over ?b s0 (s1 # rest)"
    then obtain f late where "s1 # rest = f @ late" "late \<noteq> []" "f = [] \<or> s0 \<inter> \<Inter> (set f) \<noteq> {}"
      "\<forall>s \<in> set late. ?b \<in> s" by (auto simp: hand_over_def)
    then show ?X using S by (intro exI [of _ "s0 # f"] exI [of _ late]) auto
  qed
  have "snd ?l = Ok () \<longleftrightarrow> \<Inter> (set S) \<noteq> {} \<or> (?b \<notin> hd S \<and> hand_over ?b s0 (s1 # rest))"
    by (cases "?b \<in> s0")
      (simp_all only: bundle_loop_seen bundle_loop_unseen S list.sel simp_thms list.distinct, auto)
  moreover have "snd ?l \<noteq> Ok () \<longrightarrow> snd ?l = Err FrontRunningError"
    using bundle_loop_result [of ?b "s1 # rest" s0 True s0 "?b \<in> s0"] by blast
  ultimately show ?thesis using False by (simp only: Let_def r split) simp
qed

definition demo_addr :: addr_ops where
  "demo_addr = \<lparr>AccAddressFromBech32 = (\<lambda>s. if s = [] then Err (ErrMsg ''empty address string'')
       else Ok (str_bytes s)), AccAddress_String = bytes_str\<rparr>"

text \<open>The sandwich of the documentation: the bidder around another signer's transaction.\<close>

theorem ValidateAuctionBundle_spec_witness:
  "snd (ValidateAuctionBundle demo_addr (str_bytes ''b'') [{''b''}, {''v''}, {''b''}]) = Err FrontRunningError
   \<and> snd (ValidateAuctionBundle demo_addr (str_bytes ''b'') [{''v''}, {''v''}, {''b''}]) = Ok ()"
proof -
  have b: "AccAddress_String demo_addr (str_bytes ''b'') = ''b''" by (simp add: demo_addr_def)
  have "snd (ValidateAuctionBundle demo_addr (str_bytes ''b'') [{''b''}, {''v''}, {''b''}]) \<noteq> Ok ()"
    using ValidateAuctionBundle_spec [of demo_addr "str_bytes ''b''" "[{''b''}, {''v''}, {''b''}]"]
    by (simp add: Let_def b)
  then have "snd (ValidateAuctionBundle demo_addr (str_bytes ''b'') [{''b''}, {''v''}, {''b''}])
      = Err FrontRunningError"
    using ValidateAuctionBundle_spec [of demo_addr "str_bytes ''b''" "[{''b''}, {''v''}, {''b''}]"]
    by (simp only: Let_def) blast
  moreover have "\<exists>front late. [{''v''}, {''v''}, {''b''}] = front @ late \<and> front \<noteq> [] \<and> late \<noteq> [] \<and>
     (length front = 1 \<or> \<Inter> (set front) \<noteq> {}) \<and> (\<forall>s \<in> set late. ''b'' \<in> s)"
    by (intro exI [of _ "[{''v''}, {''v''}]"] exI [of _ "[{''b''}]"]) simp
  then have "snd (ValidateAuctionBundle demo_addr (str_bytes ''b'') [{''v''}, {''v''}, {''b''}]) = Ok ()"
    using ValidateAuctionBundle_spec [of demo_addr "str_bytes ''b''" "[{''v''}, {''v''}, {''b''}]"]
    by (simp add: Let_def b)
  ultimately show ?thesis by blast
qed

text \<open>
  C19: Under validated parameters, and with the top bid (if any) in the auction's denomination, a
  bid is accepted exactly if it is in that denomination, reaches the reserve fee, exceeds
  the top bid by at least the minimum increment, and is covered by the bidder's balance.
\<close>

theorem ValidateAuctionBid_spec:
  assumes "coin_laws C" and "dec_laws D v" and "GetParams k ctx = Ok p"
    and "Params_Validate C D p = Ok ()"
    and "Amount highest \<noteq> None \<Longrightarrow> Denom highest = Denom (ReserveFee p)"
    and "GetBalance (bankKeeper k) ctx bidder (Denom bid) = \<lparr>Denom = Denom bid, Amount = Some bal\<rparr>"
  shows "ValidateAuctionBid C k ctx bidder bid highest = Ok () \<longleftrightarrow>
     (\<exists>n. Amount bid = Some n \<and> Denom bid = Denom (ReserveFee p) \<and>
        the (Amount (ReserveFee p)) \<le> n \<and> n \<le> bal \<and>
        (\<forall>h. Amount highest = Some h \<longrightarrow> h + the (Amount (MinBidIncrement p)) \<le> n \<and> h < n))"
proof -
  have g: "good_params C D v p" using Params_Validate_Ok_iff [OF assms(1,2)] assms(4) by simp
  then obtain inc where inc: "Amount (MinBidIncrement p) = Some inc" "0 < inc"
    "Denom (MinBidIncrement p) = Denom (ReserveFee p)" by (auto simp: good_params_def)
  from g coin_lawsD(8) [OF assms(1), of "ReserveFee p"] obtain res where
    "Amount (ReserveFee p) = Some res" by (auto simp: good_params_def)
  from ValidateAuctionBid_Ok_iff [OF assms(1,3) this inc(1,3) assms(5,6)] this inc show ?thesis
    by (auto split: option.splits)
qed

definition demo_bank :: "unit bank_ops" where
  "demo_bank = \<lparr>SendCoins = (\<lambda>ctx f t cs. (ctx, Ok ())),
     GetBalance = (\<lambda>ctx a d. \<lparr>Denom = d, Amount = Some 50\<rparr>)\<rparr>"

definition demo_keeper :: "(int, unit) Keeper" where
  "demo_keeper = \<lparr>cdc = demo_pb, bankKeeper = demo_bank,
     rewardsAddressProvider = Fixed_GetRewardsAddress [3], authority = ''gov''\<rparr>"

definition empty_ctx :: "unit Context" where
  "empty_ctx = \<lparr>BlockHeight = 1, IsCheckTx = False, IsReCheckTx = False, Priority = 0,
     GasLimit = 0, GasConsumed = 0, TxBytes = [], ctx_events = [],
     ms = \<lparr>builder_store = Map.empty, module_state = ()\<rparr>\<rparr>"

definition demo_kctx :: "unit Context" where
  "demo_kctx = fst (SetParams demo_keeper empty_ctx demo_params)"

lemma demo_GetParams: "GetParams demo_keeper demo_kctx = Ok demo_params"
proof -
  have "pb_laws (cdc demo_keeper) demo_coin_ok demo_coin_enc demo_dec_ok demo_dec_enc \<and>
      Params_ok demo_coin_ok demo_coin_enc demo_dec_ok demo_dec_enc demo_params"
    using demo_pb_laws demo_params_ok by (simp add: demo_keeper_def)
  from keeper_store.get_put [OF this] show ?thesis
    by (simp add: demo_kctx_def norm_escrow_def demo_params_def)
qed

theorem ValidateAuctionBid_spec_witness:
  "ValidateAuctionBid amt_coin_ops demo_keeper demo_kctx [1]
     \<lparr>Denom = ''stake'', Amount = Some 12\<rparr> \<lparr>Denom = ''stake'', Amount = Some 11\<rparr> = Ok ()"
  using ValidateAuctionBid_spec [OF amt_coin_ops_laws int_dec_ops_laws demo_GetParams,
      of "\<lparr>Denom = ''stake'', Amount = Some 11\<rparr>" "[1]" "\<lparr>Denom = ''stake'', Amount = Some 12\<rparr>" 50]
  by (simp add: demo_params_def Params_Validate_def validateFee_def validateProposerFee_def
      amt_coin_ops_def int_dec_ops_def demo_keeper_def demo_bank_def)

text \<open>
  C38: If the top bid of the mempool is in another denomination than the one the parameters
  now prescribe, every otherwise acceptable bid makes the validation panic: the addition of
  the minimum increment to the top bid is not guarded by a comparison of denominations.
\<close>

theorem stale_top_bid_panics:
  assumes "coin_laws C" and "GetParams k ctx = Ok p" and "Amount bid = Some n"
    and "Amount (ReserveFee p) = Some reserve" and "reserve \<le> n"
    and "Denom bid = Denom (ReserveFee p)" and "Denom (MinBidIncrement p) = Denom (ReserveFee p)"
    and "Amount highest = Some h" and "Denom highest \<noteq> Denom (ReserveFee p)"
  shows "\<exists>s. ValidateAuctionBid C k ctx bidder bid highest = Panic s"
proof -
  note laws = coin_lawsD [OF assms(1)]
  have "Coin_IsGTE C bid (ReserveFee p) = Ok (reserve \<le> n)"
    by (rule laws(2) [OF assms(3,4,6)])
  moreover obtain s where "Coin_Add C highest (MinBidIncrement p) = Panic s"
    using laws(7) [of highest "MinBidIncrement p"] assms(7,9) by auto
  ultimately show ?thesis using assms laws(1)
    by (simp add: ValidateAuctionBid_def GetReserveFee_def GetMinBidIncrement_def)
qed

theorem stale_top_bid_panics_witness:
  "\<exists>s. ValidateAuctionBid amt_coin_ops demo_keeper demo_kctx [1]
     \<lparr>Denom = ''stake'', Amount = Some 12\<rparr> \<lparr>Denom = ''atom'', Amount = Some 11\<rparr> = Panic s"
  by (rule stale_top_bid_panics [where n = 12 and reserve = 5 and h = 11,
        OF amt_coin_ops_laws demo_GetParams]) (simp_all add: demo_params_def)



end
