(* ===== verification/Builder_Ante.thy ===== *)
theory Builder_Ante
  imports Builder_Keeper_Correct Auction_Correct
begin

text \<open>
  \<^verbatim>\<open>x/builder/ante/ante.go\<close>: the decorator that validates bids before a transaction is executed.
  It relies on the auction lane (the bid information of a transaction, the top bid) and on the
  application mempool through two interfaces.
\<close>

section \<open>The decorator\<close>

text \<open>
  The state \<open>'w\<close> is the application mempool with the auction lane in it: the methods of the
  interfaces \<open>TOBLane\<close> and \<open>Mempool\<close> read it, and selecting the top bid may change it.
\<close>

record ('w, 'd, 'b) BuilderDecorator =
  bd_builderKeeper :: "('d, 'b) Keeper"
  bd_txEncoder :: tx_encoder
  bd_GetAuctionBidInfo :: "tx \<Rightarrow> BidInfo option outcome"
  bd_GetTopAuctionTx :: "'w \<Rightarrow> 'w \<times> tx option"
  bd_Contains :: "'w \<Rightarrow> tx \<Rightarrow> bool"

definition NewBuilderDecorator ::
  "('d, 'b) Keeper \<Rightarrow> tx_encoder \<Rightarrow> (tx \<Rightarrow> BidInfo option outcome) \<Rightarrow> ('w \<Rightarrow> 'w \<times> tx option)
   \<Rightarrow> ('w \<Rightarrow> tx \<Rightarrow> bool) \<Rightarrow> ('w, 'd, 'b) BuilderDecorator" where
  "NewBuilderDecorator ak txEncoder laneInfo laneTop mempoolContains =
     \<lparr>bd_builderKeeper = ak, bd_txEncoder = txEncoder, bd_GetAuctionBidInfo = laneInfo,
      bd_GetTopAuctionTx = laneTop, bd_Contains = mempoolContains\<rparr>"

definition check_mode :: "'b Context \<Rightarrow> bool" where
  "check_mode ctx \<longleftrightarrow> IsCheckTx ctx \<or> IsReCheckTx ctx"

definition ValidateTimeout :: "'b Context \<Rightarrow> int \<Rightarrow> unit outcome" where
  "ValidateTimeout ctx timeout =
     (let currentBlockHeight = (if check_mode ctx then i64 (BlockHeight ctx + 1) else BlockHeight ctx)
      in if timeout < currentBlockHeight then
           Err (ErrMsg ''timeout height cannot be less than the current block height'')
         else Ok ())"

text \<open>
  The bid to compare with: the top bid of the local mempool in the check modes, unless it is
  this very transaction; the empty coin otherwise.
\<close>

definition top_bid ::
  "('w, 'd, 'b) BuilderDecorator \<Rightarrow> 'w \<Rightarrow> 'b Context \<Rightarrow> tx \<Rightarrow> 'w \<times> coin outcome" where
  "top_bid bd w ctx t =
     (if check_mode ctx then
        (case bd_GetTopAuctionTx bd w of
           (w', None) \<Rightarrow> (w', Ok zero_coin)
         | (w', Some topBidTx) \<Rightarrow>
             (w', obind (bd_txEncoder bd topBidTx) (\<lambda>topBidBz.
                  obind (bd_txEncoder bd t) (\<lambda>currentTxBz.
                    if topBidBz \<noteq> currentTxBz then
                      obind (bd_GetAuctionBidInfo bd topBidTx) (\<lambda>topBidInfo.
                        case topBidInfo of
                          None \<Rightarrow> Panic ''nil pointer dereference''
                        | Some info \<Rightarrow> Ok (bi_Bid info))
                    else Ok zero_coin))))
      else (w, Ok zero_coin))"

definition AnteHandle ::
  "addr_ops \<Rightarrow> coin_ops \<Rightarrow> ('w, 'd, 'b) BuilderDecorator \<Rightarrow> 'w \<Rightarrow> 'b Context \<Rightarrow> tx \<Rightarrow> bool
   \<Rightarrow> 'b ante_handler \<Rightarrow> 'w \<times> 'b Context \<times> unit outcome" where
  "AnteHandle A C bd w ctx t simulate next =
     (if IsReCheckTx ctx \<and> \<not> bd_Contains bd w t then
        (w, ctx, Err (ErrMsg ''transaction not found in application-side mempool''))
      else
        (case bd_GetAuctionBidInfo bd t of
           Err e \<Rightarrow> (w, ctx, Err e)
         | Panic s \<Rightarrow> (w, ctx, Panic s)
         | Ok None \<Rightarrow> (w, next ctx t simulate)
         | Ok (Some bidInfo) \<Rightarrow>
             (case ValidateTimeout ctx (i64 (uint (bi_Timeout bidInfo))) of
                Err e \<Rightarrow> (w, ctx, Err e)
              | Panic s \<Rightarrow> (w, ctx, Panic s)
              | Ok _ \<Rightarrow>
                  (case top_bid bd w ctx t of
                     (w', Err e) \<Rightarrow> (w', ctx, Err e)
                   | (w', Panic s) \<Rightarrow> (w', ctx, Panic s)
                   | (w', Ok topBid) \<Rightarrow>
                       (case snd (ValidateBidInfo A C (bd_builderKeeper bd) ctx topBid bidInfo) of
                          Err e \<Rightarrow> (w', ctx, Err (ErrWrap ''failed to validate auction bid'' e))
                        | Panic s \<Rightarrow> (w', ctx, Panic s)
                        | Ok _ \<Rightarrow> (w', next ctx t simulate))))))"

section \<open>Helper lemmas\<close>

text \<open>The height of the block in which the transaction would be executed.\<close>

definition execution_height :: "'b Context \<Rightarrow> int" where
  "execution_height ctx = (if check_mode ctx then BlockHeight ctx + 1 else BlockHeight ctx)"

lemma ValidateTimeout_Ok_iff:
  assumes "0 \<le> BlockHeight ctx" "BlockHeight ctx < 2 ^ 63 - 1"
  shows "ValidateTimeout ctx (i64 (uint (w :: 64 word))) = Ok () \<longleftrightarrow>
     uint w < 2 ^ 63 \<and> execution_height ctx \<le> uint w"
proof -
  have h: "(if check_mode ctx then i64 (BlockHeight ctx + 1) else BlockHeight ctx) = execution_height ctx"
    using assms by (simp add: execution_height_def i64_nonneg)
  have e: "0 \<le> execution_height ctx" using assms by (simp add: execution_height_def)
  have lt: "uint w < 2 ^ 64" using unsigned_less [of w] by (simp add: uint_lt2p [of w, simplified])
  show ?thesis
  proof (cases "uint w < 2 ^ 63")
    case True
    then have "i64 (uint w) = uint w" by (intro i64_nonneg) simp_all
    with True h show ?thesis by (auto simp: ValidateTimeout_def Let_def)
  next
    case False
    then have "i64 (uint w) = uint w - 2 ^ 64" using lt by (intro i64_of_high_u64) simp_all
    then have "i64 (uint w) < 0" using lt by simp
    with False h e show ?thesis by (auto simp: ValidateTimeout_def Let_def)
  qed
qed

lemma ValidateBidInfo_Ok_iff:
  assumes "GetParams k ctx = Ok p"
  shows "snd (ValidateBidInfo A C k ctx hb info) = Ok () \<longleftrightarrow>
     of_nat (length (bi_Transactions info)) \<le> MaxBundleSize p \<and>
     ValidateAuctionBid C k ctx (bi_Bidder info) (bi_Bid info) hb = Ok () \<and>
     (FrontRunningProtection p \<longrightarrow> snd (ValidateAuctionBundle A (bi_Bidder info) (bi_Signers info)) = Ok ())"
  using assms
  by (cases "ValidateAuctionBid C k ctx (bi_Bidder info) (bi_Bid info) hb")
    (auto simp: ValidateBidInfo_def GetMaxBundleSize_def FrontRunningProtectionEnabled_def not_less
      split: prod.splits)

lemma AnteHandle_bid:
  assumes "IsReCheckTx ctx \<Longrightarrow> bd_Contains bd w t"
    and "bd_GetAuctionBidInfo bd t = Ok (Some info)" and "top_bid bd w ctx t = (w', Ok topBid)"
  shows "if ValidateTimeout ctx (i64 (uint (bi_Timeout info))) = Ok () \<and>
       snd (ValidateBidInfo A C (bd_builderKeeper bd) ctx topBid info) = Ok ()
     then AnteHandle A C bd w ctx t sim next = (w', next ctx t sim)
     else \<exists>w2 r. AnteHandle A C bd w ctx t sim next = (w2, ctx, r) \<and> r \<noteq> Ok ()"
  using assms
  by (cases "ValidateTimeout ctx (i64 (uint (bi_Timeout info)))";
      cases "snd (ValidateBidInfo A C (bd_builderKeeper bd) ctx topBid info)")
    (auto simp: AnteHandle_def)

section \<open>Properties\<close>

text \<open>
  C12: Outside the check modes, when a proposal is prepared, verified or executed, the outcome
  does not depend on the local mempool: all validators come to the same result, and the mempool
  is not touched.
\<close>

theorem AnteHandle_ignores_mempool:
  assumes "\<not> IsCheckTx ctx" and "\<not> IsReCheckTx ctx"
  shows "AnteHandle A C bd w ctx t sim next = (w, snd (AnteHandle A C bd w2 ctx t sim next))"
proof -
  have tb: "top_bid bd v ctx t = (v, Ok zero_coin)" for v
    using assms by (simp add: top_bid_def check_mode_def)
  show ?thesis
    using assms by (auto simp: AnteHandle_def tb split: outcome.splits option.splits)
qed


text \<open>
  A concrete decorator: a transaction bids the number in its first byte, with its second byte as
  the timeout; the mempool is a list whose head is the top bid.
\<close>

definition byte_bid :: "tx \<Rightarrow> BidInfo option outcome" where
  "byte_bid t =
     (case tx_raw t of
        amount # timeout # _ \<Rightarrow>
          Ok (Some \<lparr>bi_Bidder = [1], bi_Bid = \<lparr>Denom = ''stake'', Amount = Some (uint amount)\<rparr>,
            bi_Transactions = [], bi_Timeout = ucast timeout, bi_Signers = []\<rparr>)
      | _ \<Rightarrow> Ok None)"

definition demo_decorator :: "(tx list, int, unit) BuilderDecorator" where
  "demo_decorator =
     NewBuilderDecorator demo_keeper demo_encoder byte_bid
       (\<lambda>w. (w, case w of [] \<Rightarrow> None | t # _ \<Rightarrow> Some t)) (\<lambda>w t. t \<in> set w)"

lemma demo_kctx_modes [simp]:
  "BlockHeight demo_kctx = 1" "IsCheckTx demo_kctx = False" "IsReCheckTx demo_kctx = False"
  by (auto simp: demo_kctx_def SetParams_def empty_ctx_def split: outcome.splits)

theorem AnteHandle_ignores_mempool_witness:
  "AnteHandle demo_addr amt_coin_ops demo_decorator [demo_tx [11, 9]] demo_kctx (demo_tx [10, 9]) False
       (\<lambda>ctx t sim. (ctx, Ok ()))
     = ([demo_tx [11, 9]], snd (AnteHandle demo_addr amt_coin_ops demo_decorator [] demo_kctx
         (demo_tx [10, 9]) False (\<lambda>ctx t sim. (ctx, Ok ()))))"
  by (rule AnteHandle_ignores_mempool) simp_all


end
