(* ===== verification/Builder_Msg.thy ===== *)
theory Builder_Msg
  imports Builder_Keeper
begin

text \<open>
  \<^verbatim>\<open>x/builder/keeper/msg_server.go\<close>: the message server, which charges a bid and splits it
  between the proposer and the escrow account, and updates the parameters.
\<close>

section \<open>Coins and decimal coins\<close>

text \<open>
  The SDK's operations on sets of coins and of decimal coins (type \<open>'dc\<close>). \<open>NewCoins\<close> panics
  on an invalid coin, \<open>Sub\<close> on a negative result.
\<close>

record ('d, 'dc) coins_ops =
  NewCoins :: "coin \<Rightarrow> coins outcome"
  NewDecCoinsFromCoins :: "coins \<Rightarrow> 'dc outcome"
  MulDecTruncate :: "'dc \<Rightarrow> 'd \<Rightarrow> 'dc"
  TruncateDecimal :: "'dc \<Rightarrow> coins \<times> 'dc"
  DecCoins_Sub :: "'dc \<Rightarrow> 'dc \<Rightarrow> 'dc outcome"
  Coins_String :: "coins \<Rightarrow> string"

section \<open>Handlers\<close>

definition EventTypeAuctionBid :: string where
  "EventTypeAuctionBid = ''auction_bid''"

fun join_comma :: "string list \<Rightarrow> string" where
  "join_comma [] = ''''"
| "join_comma [x] = x"
| "join_comma (x # y # xs) = x @ '','' @ join_comma (y # xs)"

definition bundledTxHashes :: "(bytes \<Rightarrow> bytes) \<Rightarrow> bytes list \<Rightarrow> string list" where
  "bundledTxHashes sha transactions = map (\<lambda>refTxRaw. hex_EncodeToString (sha refTxRaw)) transactions"

text \<open>
  The transfers of \<open>AuctionBid\<close>. The result is the reward of the proposer. A failure of the
  rewards address provider redirects the reward to the escrow account.
\<close>

definition charge_bid ::
  "'d dec_ops \<Rightarrow> ('d, 'dc) coins_ops \<Rightarrow> ('d, 'b) Keeper \<Rightarrow> 'b Context \<Rightarrow> 'd Params \<Rightarrow> bytes \<Rightarrow> coin
   \<Rightarrow> 'b Context \<times> coins outcome" where
  "charge_bid D CS k ctx params bidder bidCoin =
     (let escrowAddress = escrow_bytes params; send = SendCoins (bankKeeper k)
      in if Dec_IsZero D (ProposerFee params) then
           (case NewCoins CS bidCoin of
              Err e \<Rightarrow> (ctx, Err e) | Panic s \<Rightarrow> (ctx, Panic s)
            | Ok coins \<Rightarrow>
                (case send ctx bidder escrowAddress coins of
                   (ctx1, Ok _) \<Rightarrow> (ctx1, Ok [])
                 | (ctx1, Err e) \<Rightarrow> (ctx1, Err e)
                 | (ctx1, Panic s) \<Rightarrow> (ctx1, Panic s)))
         else
           (case (case rewardsAddressProvider k ctx of
                    Err e \<Rightarrow> Ok escrowAddress | r \<Rightarrow> r) of
              Err e \<Rightarrow> (ctx, Err e) | Panic s \<Rightarrow> (ctx, Panic s)
            | Ok rewardsAddress \<Rightarrow>
                (case NewDecCoinsFromCoins CS [bidCoin] of
                   Err e \<Rightarrow> (ctx, Err e) | Panic s \<Rightarrow> (ctx, Panic s)
                 | Ok bid \<Rightarrow>
                     (let proposerReward = fst (TruncateDecimal CS (MulDecTruncate CS bid (ProposerFee params)))
                      in case send ctx bidder rewardsAddress proposerReward of
                           (ctx1, Err e) \<Rightarrow> (ctx1, Err e) | (ctx1, Panic s) \<Rightarrow> (ctx1, Panic s)
                         | (ctx1, Ok _) \<Rightarrow>
                             (case obind (NewDecCoinsFromCoins CS proposerReward) (DecCoins_Sub CS bid) of
                                Err e \<Rightarrow> (ctx1, Err e) | Panic s \<Rightarrow> (ctx1, Panic s)
                              | Ok escrowTotal \<Rightarrow>
                                  (case send ctx1 bidder escrowAddress (fst (TruncateDecimal CS escrowTotal)) of
                                     (ctx2, Err e) \<Rightarrow> (ctx2, Err e) | (ctx2, Panic s) \<Rightarrow> (ctx2, Panic s)
                                   | (ctx2, Ok _) \<Rightarrow> (ctx2, Ok proposerReward)))))))"

definition AuctionBid ::
  "addr_ops \<Rightarrow> coin_ops \<Rightarrow> 'd dec_ops \<Rightarrow> ('d, 'dc) coins_ops \<Rightarrow> (bytes \<Rightarrow> bytes) \<Rightarrow> ('d, 'b) Keeper
   \<Rightarrow> 'b Context \<Rightarrow> MsgAuctionBid \<Rightarrow> 'b Context \<times> unit outcome" where
  "AuctionBid A C D CS sha k ctx msg =
     (case obind (AccAddressFromBech32 A (Bidder msg)) (\<lambda>bidder.
           obind (GetParams k ctx) (\<lambda>params. Ok (bidder, params))) of
        Err e \<Rightarrow> (ctx, Err e) | Panic s \<Rightarrow> (ctx, Panic s)
      | Ok (bidder, params) \<Rightarrow>
          if of_nat (length (Transactions msg)) > MaxBundleSize params then
            (ctx, Err (ErrMsg ''the number of transactions in the bid is greater than the maximum allowed''))
          else
            (case charge_bid D CS k ctx params bidder (Bid msg) of
               (ctx1, Err e) \<Rightarrow> (ctx1, Err e) | (ctx1, Panic s) \<Rightarrow> (ctx1, Panic s)
             | (ctx1, Ok proposerReward) \<Rightarrow>
                 (ctx1\<lparr>ctx_events := ctx_events ctx1 @
                    [\<lparr>event_type = EventTypeAuctionBid,
                      event_attrs = [(''bidder'', Bidder msg), (''bid'', Coin_String C (Bid msg)),
                        (''proposer_reward'', Coins_String CS proposerReward),
                        (''bundled_txs'', join_comma (bundledTxHashes sha (Transactions msg)))]\<rparr>]\<rparr>,
                  Ok ())))"

definition UpdateParams ::
  "('d, 'b) Keeper \<Rightarrow> 'b Context \<Rightarrow> 'd MsgUpdateParams \<Rightarrow> 'b Context \<times> unit outcome" where
  "UpdateParams k ctx msg =
     (if Authority msg \<noteq> GetAuthority k then
        (ctx, Err (ErrMsg ''this message can only be executed by the authority''))
      else SetParams k ctx (mup_Params msg))"

end
