(* ===== verification/Builder_Msg_Correct.thy ===== *)
theory Builder_Msg_Correct
  imports Builder_Msg Builder_Keeper_Correct
begin

text \<open>
  Correctness of the message server: a successful bid moves exactly the bid, split by the
  proposer fee and rounded down in the escrow account's favour, a covered bid does not fail,
  and only the authority changes the parameters.
\<close>

section \<open>What the handlers rely on\<close>

definition coins_amt :: "coins \<Rightarrow> string \<Rightarrow> int" where
  "coins_amt cs d =
     sum_list (map (\<lambda>c. if Denom c = d then (case Amount c of Some n \<Rightarrow> n | None \<Rightarrow> 0) else 0) cs)"

text \<open>
  Decimal coins denote a number \<open>dv dc d\<close> of units of \<open>10\<^sup>-\<^sup>1\<^sup>8\<close> for each denomination;
  \<open>vc\<close> is the SDK's notion of valid coins. The multiplication is exact up to rounding down,
  within the range that a decimal can represent.
\<close>

definition coins_laws ::
  "coin_ops \<Rightarrow> ('d \<Rightarrow> int) \<Rightarrow> ('d, 'dc) coins_ops \<Rightarrow> ('dc \<Rightarrow> string \<Rightarrow> int) \<Rightarrow> (coins \<Rightarrow> bool) \<Rightarrow> bool" where
  "coins_laws C v CS dv vc \<longleftrightarrow>
     (\<forall>c. Coin_Validate C c = Ok () \<longrightarrow> vc [c] \<and>
        (\<exists>cs. NewCoins CS c = Ok cs \<and> (\<forall>d. coins_amt cs d = coins_amt [c] d))) \<and>
     (\<forall>cs. vc cs \<longrightarrow> (\<exists>dc. NewDecCoinsFromCoins CS cs = Ok dc \<and>
        (\<forall>d. dv dc d = coins_amt cs d * dec_unit))) \<and>
     (\<forall>dc f d. (\<forall>d. 0 \<le> dv dc d \<and> dv dc d < 2 ^ 250) \<and> 0 \<le> v f \<and> v f \<le> dec_unit \<longrightarrow>
        dv (MulDecTruncate CS dc f) d = dv dc d * v f div dec_unit) \<and>
     (\<forall>dc d. (\<forall>d. 0 \<le> dv dc d) \<longrightarrow>
        vc (fst (TruncateDecimal CS dc)) \<and>
        coins_amt (fst (TruncateDecimal CS dc)) d = dv dc d div dec_unit) \<and>
     (\<forall>a b. (\<forall>d. dv b d \<le> dv a d) \<longrightarrow>
        (\<exists>r. DecCoins_Sub CS a b = Ok r \<and> (\<forall>d. dv r d = dv a d - dv b d)))"

lemma coins_lawsD:
  assumes "coins_laws C v CS dv vc"
  shows "Coin_Validate C c = Ok () \<Longrightarrow> vc [c]"
    "Coin_Validate C c = Ok () \<Longrightarrow> \<exists>cs. NewCoins CS c = Ok cs \<and> (\<forall>d. coins_amt cs d = coins_amt [c] d)"
    "vc cs \<Longrightarrow> \<exists>dc. NewDecCoinsFromCoins CS cs = Ok dc \<and> (\<forall>d. dv dc d = coins_amt cs d * dec_unit)"
    "(\<And>d. 0 \<le> dv dc d \<and> dv dc d < 2 ^ 250) \<Longrightarrow> 0 \<le> v f \<Longrightarrow> v f \<le> dec_unit \<Longrightarrow>
       dv (MulDecTruncate CS dc f) d = dv dc d * v f div dec_unit"
    "(\<And>d. 0 \<le> dv dc d) \<Longrightarrow> vc (fst (TruncateDecimal CS dc))"
    "(\<And>d. 0 \<le> dv dc d) \<Longrightarrow> coins_amt (fst (TruncateDecimal CS dc)) d = dv dc d div dec_unit"
    "(\<And>d. dv b d \<le> dv a d) \<Longrightarrow> \<exists>r. DecCoins_Sub CS a b = Ok r \<and> (\<forall>d. dv r d = dv a d - dv b d)"
  using assms unfolding coins_laws_def by blast+

text \<open>
  The bank: \<open>bal\<close> reads a balance from the state of the modules. A successful transfer moves
  exactly the coins, and a transfer that the sender's balance covers succeeds (balances that
  are free to move, and no send restriction).
\<close>

definition bank_laws :: "'b bank_ops \<Rightarrow> ('b \<Rightarrow> bytes \<Rightarrow> string \<Rightarrow> int) \<Rightarrow> bool" where
  "bank_laws B bal \<longleftrightarrow>
     (\<forall>ctx f t cs ctx'. SendCoins B ctx f t cs = (ctx', Ok ()) \<longrightarrow>
        (\<forall>a d. bal (module_state (ms ctx')) a d = bal (module_state (ms ctx)) a d
           - (if a = f then coins_amt cs d else 0) + (if a = t then coins_amt cs d else 0))) \<and>
     (\<forall>ctx f t cs. (\<forall>d. 0 \<le> coins_amt cs d \<and> coins_amt cs d \<le> bal (module_state (ms ctx)) f d) \<longrightarrow>
        snd (SendCoins B ctx f t cs) = Ok ())"

lemma bank_lawsD:
  assumes "bank_laws B bal"
  shows "SendCoins B ctx f t cs = (ctx', Ok ()) \<Longrightarrow>
      bal (module_state (ms ctx')) a d = bal (module_state (ms ctx)) a d
        - (if a = f then coins_amt cs d else 0) + (if a = t then coins_amt cs d else 0)"
    "(\<And>d. 0 \<le> coins_amt cs d \<and> coins_amt cs d \<le> bal (module_state (ms ctx)) f d) \<Longrightarrow>
       snd (SendCoins B ctx f t cs) = Ok ()"
  using assms unfolding bank_laws_def by blast+

section \<open>The split of a bid\<close>

lemma dec_of_coins:
  assumes "coins_laws C v CS dv vc" "vc cs" "\<And>d. coins_amt cs d = (if d = x then a else 0)"
  obtains dc where "NewDecCoinsFromCoins CS cs = Ok dc"
    "\<And>d. dv dc d = (if d = x then a * dec_unit else 0)"
proof -
  obtain dc where "NewDecCoinsFromCoins CS cs = Ok dc" "\<forall>d. dv dc d = coins_amt cs d * dec_unit"
    using coins_lawsD(3) [OF assms(1,2)] by blast
  then show ?thesis using that [of dc] assms(3) by simp
qed

text \<open>The amounts that the decimal arithmetic arrives at.\<close>

lemma bid_split:
  assumes CS: "coins_laws C v CS dv vc" and val: "Coin_Validate C bid = Ok ()"
    and n: "Amount bid = Some n" "0 \<le> n" "n < 2 ^ 128" and f: "0 \<le> v fee" "v fee \<le> dec_unit"
  defines "share \<equiv> n * v fee div dec_unit"
  obtains dc esc where "NewDecCoinsFromCoins CS [bid] = Ok dc"
    "obind (NewDecCoinsFromCoins CS (fst (TruncateDecimal CS (MulDecTruncate CS dc fee))))
       (DecCoins_Sub CS dc) = Ok esc"
    "\<And>d. coins_amt (fst (TruncateDecimal CS (MulDecTruncate CS dc fee))) d
       = (if d = Denom bid then share else 0)"
    "\<And>d. coins_amt (fst (TruncateDecimal CS esc)) d = (if d = Denom bid then n - share else 0)"
    "0 \<le> share" "share \<le> n"
proof -
  note laws = coins_lawsD [OF CS]
  have amt: "coins_amt [bid] d = (if d = Denom bid then n else 0)" for d
    by (simp add: coins_amt_def n(1))
  obtain dc where dc: "NewDecCoinsFromCoins CS [bid] = Ok dc"
      "\<And>d. dv dc d = (if d = Denom bid then n * dec_unit else 0)"
    by (rule dec_of_coins [OF CS laws(1) [OF val] amt]) blast
  have "n * dec_unit < 2 ^ 128 * 10 ^ 18" using n(3) by simp
  then have "n * dec_unit < 2 ^ 250" by simp
  then have rng: "0 \<le> dv dc d \<and> dv dc d < 2 ^ 250" for d using n(2) by (simp add: dc(2))
  have mul: "dv (MulDecTruncate CS dc fee) d = (if d = Denom bid then n * v fee else 0)" for d
    using laws(4) [OF rng f, of d] by (simp add: dc(2))
  then have mul0: "0 \<le> dv (MulDecTruncate CS dc fee) d" for d using n(2) f(1) by simp
  let ?rew = "fst (TruncateDecimal CS (MulDecTruncate CS dc fee))"
  have rew: "coins_amt ?rew d = (if d = Denom bid then share else 0)" for d
    using laws(6) [OF mul0, of d] by (simp add: mul share_def)
  have "n * v fee \<le> n * dec_unit" using n(2) f(2) by (intro mult_left_mono)
  then have "n * v fee div dec_unit \<le> n * dec_unit div dec_unit" by (intro zdiv_mono1) simp_all
  then have sh: "0 \<le> share" "share \<le> n"
    unfolding share_def using n(2) f(1) by (simp_all add: pos_imp_zdiv_nonneg_iff)
  obtain rdc where rdc: "NewDecCoinsFromCoins CS ?rew = Ok rdc"
      "\<And>d. dv rdc d = (if d = Denom bid then share * dec_unit else 0)"
    by (rule dec_of_coins [OF CS laws(5) [OF mul0] rew]) blast
  have "dv rdc d \<le> dv dc d" for d using sh(2) by (simp add: rdc(2) dc(2))
  then obtain esc where esc: "DecCoins_Sub CS dc rdc = Ok esc"
      "\<And>d. dv esc d = (if d = Denom bid then (n - share) * dec_unit else 0)"
    using laws(7) [of rdc dc] by (auto simp: rdc(2) dc(2) left_diff_distrib)
  have "0 \<le> dv esc d" for d using sh(2) by (simp add: esc(2))
  from laws(6) [OF this] have "coins_amt (fst (TruncateDecimal CS esc)) d
      = (if d = Denom bid then n - share else 0)" for d by (simp add: esc(2))
  with dc(1) rdc(1) esc(1) rew sh show ?thesis by (intro that [of dc esc]) simp_all
qed

text \<open>Who receives the proposer's share.\<close>

definition rewards_address :: "('d, 'b) Keeper \<Rightarrow> 'b Context \<Rightarrow> 'd Params \<Rightarrow> bytes" where
  "rewards_address k ctx p =
     (case rewardsAddressProvider k ctx of Ok a \<Rightarrow> a | _ \<Rightarrow> escrow_bytes p)"

definition proposer_share :: "('d \<Rightarrow> int) \<Rightarrow> 'd Params \<Rightarrow> int \<Rightarrow> int" where
  "proposer_share v p n = n * v (ProposerFee p) div dec_unit"

text \<open>The change of each balance.\<close>

definition bid_delta ::
  "bytes \<Rightarrow> bytes \<Rightarrow> bytes \<Rightarrow> string \<Rightarrow> int \<Rightarrow> int \<Rightarrow> bytes \<Rightarrow> string \<Rightarrow> int" where
  "bid_delta bidder rewards escrow denom n share a d =
     (if d = denom then (if a = bidder then - n else 0) + (if a = rewards then share else 0)
        + (if a = escrow then n - share else 0) else 0)"

lemma charge_bid_zero:
  assumes CS: "coins_laws C v CS dv vc" and val: "Coin_Validate C bid = Ok ()"
    and n: "Amount bid = Some n" and z: "Dec_IsZero D (ProposerFee p)"
  obtains cs where "\<And>d. coins_amt cs d = (if d = Denom bid then n else 0)"
    "charge_bid D CS k ctx p bidder bid =
       (case SendCoins (bankKeeper k) ctx bidder (escrow_bytes p) cs of
          (ctx1, Ok _) \<Rightarrow> (ctx1, Ok []) | (ctx1, Err e) \<Rightarrow> (ctx1, Err e)
        | (ctx1, Panic s) \<Rightarrow> (ctx1, Panic s))"
proof -
  obtain cs where cs: "NewCoins CS bid = Ok cs" "\<And>d. coins_amt cs d = coins_amt [bid] d"
    using coins_lawsD(2) [OF CS val] by blast
  show ?thesis
    by (rule that [of cs]) (simp_all add: charge_bid_def z cs Let_def, simp add: coins_amt_def n)
qed

lemma charge_bid_balances:
  assumes B: "bank_laws (bankKeeper k) bal" and D: "dec_laws D v" and CS: "coins_laws C v CS dv vc"
    and val: "Coin_Validate C bid = Ok ()" and n: "Amount bid = Some n" "0 \<le> n" "n < 2 ^ 128"
    and f: "\<not> Dec_IsNil D (ProposerFee p)" "0 \<le> v (ProposerFee p)" "v (ProposerFee p) \<le> dec_unit"
    and r: "charge_bid D CS k ctx p bidder bid = (ctx', Ok rew)"
  shows "bal (module_state (ms ctx')) a d = bal (module_state (ms ctx)) a d
     + bid_delta bidder (rewards_address k ctx p) (escrow_bytes p) (Denom bid) n (proposer_share v p n) a d"
proof (cases "Dec_IsZero D (ProposerFee p)")
  case True
  then have v0: "v (ProposerFee p) = 0" using dec_lawsD(5) [OF D f(1)] by simp
  obtain cs where cs: "\<And>d. coins_amt cs d = (if d = Denom bid then n else 0)"
    "charge_bid D CS k ctx p bidder bid =
       (case SendCoins (bankKeeper k) ctx bidder (escrow_bytes p) cs of
          (ctx1, Ok _) \<Rightarrow> (ctx1, Ok []) | (ctx1, Err e) \<Rightarrow> (ctx1, Err e)
        | (ctx1, Panic s) \<Rightarrow> (ctx1, Panic s))"
    by (rule charge_bid_zero [OF CS val n(1) True]) blast
  then have "SendCoins (bankKeeper k) ctx bidder (escrow_bytes p) cs = (ctx', Ok ())"
    using r by (auto split: prod.splits outcome.splits)
  from bank_lawsD(1) [OF B this, of a d] show ?thesis
    by (simp add: bid_delta_def proposer_share_def v0 cs(1))
next
  case False
  obtain dc esc where sp: "NewDecCoinsFromCoins CS [bid] = Ok dc"
    "obind (NewDecCoinsFromCoins CS (fst (TruncateDecimal CS (MulDecTruncate CS dc (ProposerFee p)))))
       (DecCoins_Sub CS dc) = Ok esc"
    "\<And>d. coins_amt (fst (TruncateDecimal CS (MulDecTruncate CS dc (ProposerFee p)))) d
       = (if d = Denom bid then proposer_share v p n else 0)"
    "\<And>d. coins_amt (fst (TruncateDecimal CS esc)) d
       = (if d = Denom bid then n - proposer_share v p n else 0)"
    unfolding proposer_share_def by (rule bid_split [OF CS val n f(2,3)]) blast
  then obtain ctx1 where
    s1: "SendCoins (bankKeeper k) ctx bidder (rewards_address k ctx p)
       (fst (TruncateDecimal CS (MulDecTruncate CS dc (ProposerFee p)))) = (ctx1, Ok ())" and
    s2: "SendCoins (bankKeeper k) ctx1 bidder (escrow_bytes p) (fst (TruncateDecimal CS esc)) = (ctx', Ok ())"
    using r False unfolding charge_bid_def rewards_address_def Let_def
    by (auto split: prod.splits outcome.splits)
  from bank_lawsD(1) [OF B s1, of a d] bank_lawsD(1) [OF B s2, of a d] sp(3) [of d] sp(4) [of d]
  show ?thesis by (auto simp: bid_delta_def)
qed

text \<open>A bid that the balance covers is charged.\<close>

lemma charge_bid_succeeds:
  fixes k :: "('d, 'b) Keeper"
  assumes B: "bank_laws (bankKeeper k) bal" and D: "dec_laws D v" and CS: "coins_laws C v CS dv vc"
    and val: "Coin_Validate C bid = Ok ()" and n: "Amount bid = Some n" "0 \<le> n" "n < 2 ^ 128"
    and f: "\<not> Dec_IsNil D (ProposerFee p)" "0 \<le> v (ProposerFee p)" "v (ProposerFee p) \<le> dec_unit"
    and cov: "n \<le> bal (module_state (ms ctx)) bidder (Denom bid)"
      "\<And>m a d. 0 \<le> bal m a d"
    and prov: "\<And>s. rewardsAddressProvider k ctx \<noteq> Panic s"
  shows "\<exists>ctx' rew. charge_bid D CS k ctx p bidder bid = (ctx', Ok rew)"
proof (cases "Dec_IsZero D (ProposerFee p)")
  case True
  obtain cs where cs: "\<And>d. coins_amt cs d = (if d = Denom bid then n else 0)"
    "charge_bid D CS k ctx p bidder bid =
       (case SendCoins (bankKeeper k) ctx bidder (escrow_bytes p) cs of
          (ctx1, Ok _) \<Rightarrow> (ctx1, Ok []) | (ctx1, Err e) \<Rightarrow> (ctx1, Err e)
        | (ctx1, Panic s) \<Rightarrow> (ctx1, Panic s))"
    by (rule charge_bid_zero [OF CS val n(1) True]) blast
  have "snd (SendCoins (bankKeeper k) ctx bidder (escrow_bytes p) cs) = Ok ()"
    by (rule bank_lawsD(2) [OF B]) (simp add: cs(1) cov n(2))
  then show ?thesis using cs(2) by (auto split: prod.splits)
next
  case False
  obtain dc esc where sp: "NewDecCoinsFromCoins CS [bid] = Ok dc"
    "obind (NewDecCoinsFromCoins CS (fst (TruncateDecimal CS (MulDecTruncate CS dc (ProposerFee p)))))
       (DecCoins_Sub CS dc) = Ok esc"
    "\<And>d. coins_amt (fst (TruncateDecimal CS (MulDecTruncate CS dc (ProposerFee p)))) d
       = (if d = Denom bid then proposer_share v p n else 0)"
    "\<And>d. coins_amt (fst (TruncateDecimal CS esc)) d
       = (if d = Denom bid then n - proposer_share v p n else 0)"
    "0 \<le> proposer_share v p n" "proposer_share v p n \<le> n"
    unfolding proposer_share_def by (rule bid_split [OF CS val n f(2,3)]) blast
  let ?rew = "fst (TruncateDecimal CS (MulDecTruncate CS dc (ProposerFee p)))"
  have "snd (SendCoins (bankKeeper k) ctx bidder (rewards_address k ctx p) ?rew) = Ok ()"
    by (rule bank_lawsD(2) [OF B]) (use sp(5,6) in \<open>simp add: sp(3) cov order_trans [OF _ cov(1)]\<close>)
  then obtain ctx1 where s1:
    "SendCoins (bankKeeper k) ctx bidder (rewards_address k ctx p) ?rew = (ctx1, Ok ())"
    by (metis prod.collapse)
  have "snd (SendCoins (bankKeeper k) ctx1 bidder (escrow_bytes p) (fst (TruncateDecimal CS esc))) = Ok ()"
    by (rule bank_lawsD(2) [OF B], unfold bank_lawsD(1) [OF B s1])
      (use cov sp(5,6) in \<open>auto simp: sp(3,4)\<close>)
  then obtain ctx2 where s2:
    "SendCoins (bankKeeper k) ctx1 bidder (escrow_bytes p) (fst (TruncateDecimal CS esc)) = (ctx2, Ok ())"
    by (metis prod.collapse)
  show ?thesis
  proof (cases "rewardsAddressProvider k ctx")
    case (Panic s)
    then show ?thesis using prov by blast
  qed (use False sp(1,2) s1 s2 in \<open>simp_all add: charge_bid_def rewards_address_def Let_def\<close>)
qed

section \<open>Properties\<close>

lemmas valid_bid = MsgAuctionBid_ValidateBasic_def obind_eq_Ok

text \<open>
  C5: A bid message that passed its stateless checks, executed under validated parameters,
  moves exactly the bid: the bidder pays the whole amount, the proposer's address receives the
  proposer fee's share of it rounded down, the escrow account receives all the rest, no other
  account changes, and nothing stays behind. (Amounts below \<open>2\<^sup>1\<^sup>2\<^sup>8\<close>.)
\<close>

theorem AuctionBid_moves_bid:
  assumes "bank_laws (bankKeeper k) bal" and "coin_laws C" and "dec_laws D v"
    and "coins_laws C v CS dv vc"
    and "GetParams k ctx = Ok p" and "Params_Validate C D p = Ok ()"
    and "MsgAuctionBid_ValidateBasic A C msg = Ok ()" and "Amount (Bid msg) = Some n" and "n < 2 ^ 128"
    and "AuctionBid A C D CS sha k ctx msg = (ctx', Ok ())"
  shows "\<exists>bidder. AccAddressFromBech32 A (Bidder msg) = Ok bidder \<and>
     (\<forall>a d. bal (module_state (ms ctx')) a d = bal (module_state (ms ctx)) a d +
        (if d = Denom (Bid msg) then
           (if a = bidder then - n else 0) +
           (if a = rewards_address k ctx p then proposer_share v p n else 0) +
           (if a = escrow_bytes p then n - proposer_share v p n else 0)
         else 0))"
proof -
  have g: "good_params C D v p" using Params_Validate_Ok_iff [OF assms(2,3)] assms(6) by simp
  obtain bidder where b: "AccAddressFromBech32 A (Bidder msg) = Ok bidder"
    "Coin_Validate C (Bid msg) = Ok ()"
    using assms(7) by (auto simp: valid_bid split: if_splits)
  have n0: "0 \<le> n" using coin_lawsD(8) [OF assms(2) b(2)] assms(8) by auto
  obtain ctx1 rew where c: "charge_bid D CS k ctx p bidder (Bid msg) = (ctx1, Ok rew)"
    "module_state (ms ctx') = module_state (ms ctx1)"
    using assms(10) b(1) assms(5) unfolding AuctionBid_def
    by (auto split: if_splits prod.splits outcome.splits)
  note bl = charge_bid_balances [OF assms(1,3,4) b(2) assms(8) n0 assms(9) _ _ _ c(1)]
  show ?thesis using bl g b(1) c(2) by (auto simp: good_params_def bid_delta_def)
qed

text \<open>
  C20: Under validated parameters, a valid bid message with at most \<open>MaxBundleSize\<close>
  transactions whose bidder can cover the bid is executed without error.
\<close>

theorem AuctionBid_succeeds:
  assumes "bank_laws (bankKeeper k) bal" and "coin_laws C" and "dec_laws D v"
    and "coins_laws C v CS dv vc"
    and "GetParams k ctx = Ok p" and "Params_Validate C D p = Ok ()"
    and "MsgAuctionBid_ValidateBasic A C msg = Ok ()" and "Amount (Bid msg) = Some n" and "n < 2 ^ 128"
    and "length (Transactions msg) \<le> unat (MaxBundleSize p)"
    and "AccAddressFromBech32 A (Bidder msg) = Ok bidder"
    and "n \<le> bal (module_state (ms ctx)) bidder (Denom (Bid msg))"
    and "\<And>m a d. 0 \<le> bal m a d"
    and "\<And>s. rewardsAddressProvider k ctx \<noteq> Panic s"
  shows "\<exists>ctx'. AuctionBid A C D CS sha k ctx msg = (ctx', Ok ())"
proof -
  have g: "good_params C D v p" using Params_Validate_Ok_iff [OF assms(2,3)] assms(6) by simp
  have b: "Coin_Validate C (Bid msg) = Ok ()"
    using assms(7) by (auto simp: valid_bid split: if_splits)
  have n0: "0 \<le> n" using coin_lawsD(8) [OF assms(2) b] assms(8) by auto
  have "unat (of_nat (length (Transactions msg)) :: 32 word) \<le> length (Transactions msg)"
    by (simp add: unsigned_of_nat take_bit_eq_mod)
  then have "\<not> of_nat (length (Transactions msg)) > MaxBundleSize p"
    using assms(10) by (simp add: word_less_nat_alt not_less)
  moreover obtain ctx1 rew where "charge_bid D CS k ctx p bidder (Bid msg) = (ctx1, Ok rew)"
    using charge_bid_succeeds [OF assms(1,3,4) b assms(8) n0 assms(9) _ _ _ assms(12-14), of p] g
    by (auto simp: good_params_def)
  ultimately show ?thesis using assms(5,11) by (simp add: AuctionBid_def)
qed

text \<open>
  C21: Only the authority changes the parameters: a message from anyone else is refused and
  changes nothing, and after one from the authority the new parameters are in force.
\<close>

theorem UpdateParams_authority:
  assumes "pb_laws (cdc k) cok cenc dok denc" and "Params_ok cok cenc dok denc (mup_Params msg)"
    and "UpdateParams k ctx msg = (ctx', r)"
  shows "(Authority msg \<noteq> authority k \<longrightarrow> ctx' = ctx \<and> (\<exists>e. r = Err e)) \<and>
     (Authority msg = authority k \<longrightarrow>
        r = Ok () \<and> GetParams k ctx' = Ok (norm_escrow (mup_Params msg)) \<and>
        outside_params ctx' = outside_params ctx)"
proof -
  note ok = conjI [OF assms(1,2)]
  show ?thesis
    using assms(3) keeper_store.put_Ok [OF ok, of ctx] keeper_store.get_put [OF ok, of ctx]
      keeper_store.put_frame [of k ctx "mup_Params msg"]
    by (auto simp: UpdateParams_def GetAuthority_def)
qed

section \<open>Concrete instances\<close>

text \<open>A ledger as the state of the other modules, and decimal coins of one denomination.\<close>

definition ledger_send ::
  "(bytes \<Rightarrow> string \<Rightarrow> nat) Context \<Rightarrow> bytes \<Rightarrow> bytes \<Rightarrow> coins
   \<Rightarrow> (bytes \<Rightarrow> string \<Rightarrow> nat) Context \<times> unit outcome" where
  "ledger_send ctx f t cs =
     (let m = module_state (ms ctx)
      in if \<forall>c \<in> set cs. 0 \<le> coins_amt cs (Denom c) \<and> coins_amt cs (Denom c) \<le> int (m f (Denom c)) then
           (ctx\<lparr>ms := (ms ctx)\<lparr>module_state := (\<lambda>a d. nat (int (m a d)
              - (if a = f then coins_amt cs d else 0) + (if a = t then coins_amt cs d else 0)))\<rparr>\<rparr>, Ok ())
         else (ctx, Err (ErrMsg ''insufficient funds'')))"

definition ledger_bank :: "(bytes \<Rightarrow> string \<Rightarrow> nat) bank_ops" where
  "ledger_bank = \<lparr>SendCoins = ledger_send,
     GetBalance = (\<lambda>ctx a d. \<lparr>Denom = d, Amount = Some (int (module_state (ms ctx) a d))\<rparr>)\<rparr>"

lemma coins_amt_absent: "(\<And>c. c \<in> set cs \<Longrightarrow> Denom c \<noteq> d) \<Longrightarrow> coins_amt cs d = 0"
  by (induction cs) (auto simp: coins_amt_def)

lemma ledger_bank_laws: "bank_laws ledger_bank (\<lambda>m a d. int (m a d))"
proof -
  have law1: "int (module_state (ms ctx') a d) = int (module_state (ms ctx) a d)
        - (if a = f then coins_amt cs d else 0) + (if a = t then coins_amt cs d else 0)"
    if s: "ledger_send ctx f t cs = (ctx', Ok ())" for ctx ctx' f t cs a d
  proof -
    have ok: "\<forall>c \<in> set cs. 0 \<le> coins_amt cs (Denom c) \<and>
        coins_amt cs (Denom c) \<le> int (module_state (ms ctx) f (Denom c))"
      using s by (auto simp: ledger_send_def Let_def split: if_splits)
    have "0 \<le> coins_amt cs d \<and> coins_amt cs d \<le> int (module_state (ms ctx) f d)"
      using ok coins_amt_absent [of cs d] by fastforce
    moreover have "module_state (ms ctx') a d = nat (int (module_state (ms ctx) a d)
        - (if a = f then coins_amt cs d else 0) + (if a = t then coins_amt cs d else 0))"
      using s ok by (auto simp: ledger_send_def Let_def)
    ultimately show ?thesis by simp
  qed
  moreover have "snd (ledger_send ctx f t cs) = Ok ()"
    if "\<forall>d. 0 \<le> coins_amt cs d \<and> coins_amt cs d \<le> int (module_state (ms ctx) f d)" for ctx f t cs
    using that by (simp add: ledger_send_def Let_def)
  ultimately show ?thesis unfolding bank_laws_def ledger_bank_def bank_ops.select_convs by blast
qed

definition one_coins_ops :: "(int, string \<times> nat) coins_ops" where
  "one_coins_ops =
     \<lparr>NewCoins = (\<lambda>c. Ok [c]),
      NewDecCoinsFromCoins = (\<lambda>cs. case cs of
         [c] \<Rightarrow> Ok (Denom c, nat (coins_amt [c] (Denom c) * dec_unit))
       | _ \<Rightarrow> Panic ''one coin''),
      MulDecTruncate = (\<lambda>(x, a) f. (x, nat (int a * f div dec_unit))),
      TruncateDecimal = (\<lambda>(x, a). ([\<lparr>Denom = x, Amount = Some (int a div dec_unit)\<rparr>], (x, a mod 10 ^ 18))),
      DecCoins_Sub = (\<lambda>(x, a) (y, b). if x = y then
           (if b \<le> a then Ok (x, a - b) else Panic ''negative'')
         else if b = 0 then Ok (x, a) else Panic ''negative''),
      Coins_String = (\<lambda>cs. concat (map Denom cs))\<rparr>"

definition one_dv :: "string \<times> nat \<Rightarrow> string \<Rightarrow> int" where
  "one_dv = (\<lambda>(x, a) d. if d = x then int a else 0)"

definition one_valid :: "coins \<Rightarrow> bool" where
  "one_valid cs \<longleftrightarrow> (\<exists>c n. cs = [c] \<and> Amount c = Some n \<and> 0 \<le> n)"

lemma one_coins_laws: "coins_laws amt_coin_ops id one_coins_ops one_dv one_valid"
  unfolding coins_laws_def
proof (intro conjI allI impI)
  fix c assume "Coin_Validate amt_coin_ops c = Ok ()"
  then show "one_valid [c]"
    using coin_lawsD(8) [OF amt_coin_ops_laws] by (auto simp: one_valid_def)
next
  fix cs assume "one_valid cs"
  then show "\<exists>dc. NewDecCoinsFromCoins one_coins_ops cs = Ok dc \<and>
      (\<forall>d. one_dv dc d = coins_amt cs d * dec_unit)"
    by (auto simp: one_valid_def one_coins_ops_def one_dv_def coins_amt_def)
next
  fix a b assume "\<forall>d. one_dv b d \<le> one_dv a d"
  then have "one_dv b (fst b) \<le> one_dv a (fst b)" "one_dv b (fst a) \<le> one_dv a (fst a)" by auto
  then show "\<exists>r. DecCoins_Sub one_coins_ops a b = Ok r \<and> (\<forall>d. one_dv r d = one_dv a d - one_dv b d)"
    by (cases a; cases b) (auto simp: one_coins_ops_def one_dv_def split: if_splits)
qed (auto simp: one_coins_ops_def one_dv_def one_valid_def coins_amt_def split: prod.splits)

definition ledger_keeper :: "(int, bytes \<Rightarrow> string \<Rightarrow> nat) Keeper" where
  "ledger_keeper = \<lparr>cdc = demo_pb, bankKeeper = ledger_bank,
     rewardsAddressProvider = Fixed_GetRewardsAddress [3], authority = ''gov''\<rparr>"

text \<open>Every account holds 50 coins; the parameters are \<open>demo_params\<close>.\<close>

definition ledger_ctx :: "(bytes \<Rightarrow> string \<Rightarrow> nat) Context" where
  "ledger_ctx = fst (SetParams ledger_keeper
     \<lparr>BlockHeight = 1, IsCheckTx = False, IsReCheckTx = False, Priority = 0,
      GasLimit = 0, GasConsumed = 0, TxBytes = [], ctx_events = [],
      ms = \<lparr>builder_store = Map.empty, module_state = (\<lambda>a d. 50)\<rparr>\<rparr> demo_params)"

lemma ledger_ctx_simps:
  "GetParams ledger_keeper ledger_ctx = Ok demo_params" "module_state (ms ledger_ctx) = (\<lambda>a d. 50)"
proof -
  have ok: "pb_laws (cdc ledger_keeper) demo_coin_ok demo_coin_enc demo_dec_ok demo_dec_enc \<and>
      Params_ok demo_coin_ok demo_coin_enc demo_dec_ok demo_dec_enc demo_params"
    using demo_pb_laws demo_params_ok by (simp add: ledger_keeper_def)
  from keeper_store.get_put [OF ok] show "GetParams ledger_keeper ledger_ctx = Ok demo_params"
    by (simp add: ledger_ctx_def norm_escrow_def demo_params_def)
  show "module_state (ms ledger_ctx) = (\<lambda>a d. 50)"
    by (cases "Params_Marshal (cdc ledger_keeper) demo_params") (simp_all add: ledger_ctx_def SetParams_def)
qed

lemma demo_params_valid: "Params_Validate amt_coin_ops int_dec_ops demo_params = Ok ()"
  by (simp add: demo_params_def Params_Validate_def validateFee_def validateProposerFee_def
      amt_coin_ops_def int_dec_ops_def)

definition demo_bid :: MsgAuctionBid where
  "demo_bid = \<lparr>Bidder = ''b'', Bid = \<lparr>Denom = ''stake'', Amount = Some 13\<rparr>, Transactions = [[1], [2]]\<rparr>"

lemma demo_bid_valid: "MsgAuctionBid_ValidateBasic demo_addr amt_coin_ops demo_bid = Ok ()"
  by (simp add: demo_bid_def MsgAuctionBid_ValidateBasic_def demo_addr_def amt_coin_ops_def)

lemma demo_bid_executes:
  "\<exists>ctx'. AuctionBid demo_addr amt_coin_ops int_dec_ops one_coins_ops id ledger_keeper ledger_ctx demo_bid
     = (ctx', Ok ())"
proof -
  have B: "bank_laws (bankKeeper ledger_keeper) (\<lambda>m a d. int (m a d))"
    using ledger_bank_laws by (simp add: ledger_keeper_def)
  have val: "Coin_Validate amt_coin_ops (Bid demo_bid) = Ok ()"
    by (simp add: demo_bid_def amt_coin_ops_def)
  have "\<exists>ctx' rew. charge_bid int_dec_ops one_coins_ops ledger_keeper ledger_ctx demo_params
      (str_bytes ''b'') (Bid demo_bid) = (ctx', Ok rew)"
    by (rule charge_bid_succeeds [OF B int_dec_ops_laws one_coins_laws val, where n = 13])
      (simp_all add: demo_bid_def demo_params_def int_dec_ops_def ledger_ctx_simps(2) ledger_keeper_def
        Fixed_GetRewardsAddress_def)
  then obtain ctx' rew where "charge_bid int_dec_ops one_coins_ops ledger_keeper ledger_ctx demo_params
      [98] (Bid demo_bid) = (ctx', Ok rew)" by (auto simp: str_bytes_def)
  moreover have "AccAddressFromBech32 demo_addr (Bidder demo_bid) = Ok [98]"
    "length (Transactions demo_bid) = 2" "MaxBundleSize demo_params = 300"
    by (simp_all add: demo_bid_def demo_addr_def demo_params_def str_bytes_def)
  ultimately show ?thesis by (simp add: AuctionBid_def ledger_ctx_simps(1) word_less_nat_alt)
qed

theorem AuctionBid_succeeds_witness:
  "\<exists>ctx'. AuctionBid demo_addr amt_coin_ops int_dec_ops one_coins_ops id ledger_keeper ledger_ctx demo_bid
     = (ctx', Ok ())"
proof -
  have B: "bank_laws (bankKeeper ledger_keeper) (\<lambda>m a d. int (m a d))"
    using ledger_bank_laws by (simp add: ledger_keeper_def)
  show ?thesis
    by (rule AuctionBid_succeeds [OF B amt_coin_ops_laws int_dec_ops_laws one_coins_laws
          ledger_ctx_simps(1) demo_params_valid demo_bid_valid, where n = 13 and bidder = "str_bytes ''b''"])
      (simp_all add: demo_bid_def demo_params_def demo_addr_def ledger_ctx_simps(2) ledger_keeper_def
        Fixed_GetRewardsAddress_def)
qed

text \<open>Half of 13 coins, rounded down, for the proposer's address \<open>[3]\<close>; 7 for the escrow account.\<close>

theorem AuctionBid_moves_bid_witness:
  "\<exists>ctx'. AuctionBid demo_addr amt_coin_ops int_dec_ops one_coins_ops id ledger_keeper ledger_ctx demo_bid
       = (ctx', Ok ()) \<and>
     module_state (ms ctx') (str_bytes ''b'') ''stake'' = 37 \<and>
     module_state (ms ctx') [3] ''stake'' = 56 \<and> module_state (ms ctx') [7, 8, 9] ''stake'' = 57"
proof -
  let ?A = "AuctionBid demo_addr amt_coin_ops int_dec_ops one_coins_ops id ledger_keeper ledger_ctx demo_bid"
  obtain ctx' where ok: "?A = (ctx', Ok ())"
    using demo_bid_executes by blast
  have B: "bank_laws (bankKeeper ledger_keeper) (\<lambda>m a d. int (m a d))"
    using ledger_bank_laws by (simp add: ledger_keeper_def)
  have n: "Amount (Bid demo_bid) = Some 13" by (simp add: demo_bid_def)
  have b: "AccAddressFromBech32 demo_addr (Bidder demo_bid) = Ok (str_bytes ''b'')"
    by (simp add: demo_addr_def demo_bid_def)
  have r: "rewards_address ledger_keeper ledger_ctx demo_params = [3]"
    by (simp add: rewards_address_def ledger_keeper_def Fixed_GetRewardsAddress_def)
  have e: "escrow_bytes demo_params = [7, 8, 9]" "proposer_share id demo_params 13 = 6"
    by (simp_all add: demo_params_def proposer_share_def)
  have d: "str_bytes ''b'' = [98]" "Denom (Bid demo_bid) = ''stake''"
    by (simp_all add: str_bytes_def demo_bid_def)
  from AuctionBid_moves_bid [OF B amt_coin_ops_laws int_dec_ops_laws one_coins_laws
      ledger_ctx_simps(1) demo_params_valid demo_bid_valid n _ ok]
  have "int (module_state (ms ctx') a ''stake'') = 50 + ((if a = [98] then - 13 else 0) +
      (if a = [3] then 6 else 0) + (if a = [7, 8, 9] then 7 else 0))" for a
    by (simp add: b r e d ledger_ctx_simps(2))
  from this [of "[98]"] this [of "[3]"] this [of "[7, 8, 9]"] ok show ?thesis
    by (simp add: d)
qed

theorem UpdateParams_authority_witness:
  "(\<exists>e. snd (UpdateParams ledger_keeper ledger_ctx \<lparr>Authority = ''eve'', mup_Params = demo_params\<rparr>) = Err e) \<and>
   snd (UpdateParams ledger_keeper ledger_ctx \<lparr>Authority = ''gov'', mup_Params = demo_params\<rparr>) = Ok ()"
proof -
  have P: "pb_laws (cdc ledger_keeper) demo_coin_ok demo_coin_enc demo_dec_ok demo_dec_enc"
    using demo_pb_laws by (simp add: ledger_keeper_def)
  have "Params_ok demo_coin_ok demo_coin_enc demo_dec_ok demo_dec_enc
      (mup_Params \<lparr>Authority = a, mup_Params = demo_params\<rparr>)" for a
    using demo_params_ok by simp
  from UpdateParams_authority [OF P this surjective_pairing, of "''eve''" ledger_ctx]
    UpdateParams_authority [OF P this surjective_pairing, of "''gov''" ledger_ctx]
  show ?thesis by (simp add: ledger_keeper_def)
qed

end
