(* ===== verification/Builder_Module.thy ===== *)
theory Builder_Module
  imports Builder_Keeper_Correct
begin

text \<open>
  \<^verbatim>\<open>x/builder/module.go\<close>: the module as the application sees it, with its genesis state as JSON and
  its construction from the keepers of the other modules.
\<close>

section \<open>The module\<close>

text \<open>The JSON codec of the SDK on genesis states; the \<open>Must\<close> variants panic on an error.\<close>

record 'g json_ops =
  MarshalJSON :: "'g \<Rightarrow> bytes outcome"
  UnmarshalJSON :: "bytes \<Rightarrow> 'g outcome"

definition must :: "'a outcome \<Rightarrow> 'a outcome" where
  "must r = (case r of Err e \<Rightarrow> Panic ''must'' | _ \<Rightarrow> r)"

definition MustMarshalJSON :: "'g json_ops \<Rightarrow> 'g \<Rightarrow> bytes outcome" where
  "MustMarshalJSON J g = must (MarshalJSON J g)"

definition MustUnmarshalJSON :: "'g json_ops \<Rightarrow> bytes \<Rightarrow> 'g outcome" where
  "MustUnmarshalJSON J bz = must (UnmarshalJSON J bz)"

definition ModuleName :: string where
  "ModuleName = ''builder''"

definition ConsensusVersion :: nat where
  "ConsensusVersion = 1"

record 'd AppModuleBasic =
  amb_cdc :: "'d pb_ops"

record ('d, 'b) AppModule = "'d AppModuleBasic" +
  am_keeper :: "('d, 'b) Keeper"

definition AppModuleBasic_Name :: string where
  "AppModuleBasic_Name = ModuleName"

definition NewAppModule :: "'d pb_ops \<Rightarrow> ('d, 'b) Keeper \<Rightarrow> ('d, 'b) AppModule" where
  "NewAppModule c k = \<lparr>amb_cdc = c, am_keeper = k\<rparr>"

section \<open>Genesis\<close>

definition DefaultGenesis :: "'d GenesisState json_ops \<Rightarrow> 'd dec_ops \<Rightarrow> bytes \<Rightarrow> bytes outcome" where
  "DefaultGenesis J D moduleAddress = MustMarshalJSON J (DefaultGenesisState D moduleAddress)"

definition ValidateGenesis :: "'d GenesisState json_ops \<Rightarrow> coin_ops \<Rightarrow> 'd dec_ops \<Rightarrow> bytes \<Rightarrow> unit outcome" where
  "ValidateGenesis J C D bz =
     obind (wrap_err ''failed to unmarshal genesis state'' (UnmarshalJSON J bz)) (GenesisState_Validate C D)"

text \<open>
  The result of \<open>InitGenesis\<close> is a list of updates of the validator set, always empty; what an
  update contains does not matter.
\<close>

definition AppModule_InitGenesis ::
  "'d GenesisState json_ops \<Rightarrow> ('d, 'b) AppModule \<Rightarrow> 'b Context \<Rightarrow> bytes \<Rightarrow> 'b Context \<times> unit list outcome" where
  "AppModule_InitGenesis J am ctx bz =
     (case MustUnmarshalJSON J bz of
        Err e \<Rightarrow> (ctx, Err e)
      | Panic s \<Rightarrow> (ctx, Panic s)
      | Ok genState \<Rightarrow>
          (case InitGenesis (am_keeper am) ctx genState of
             (ctx', r) \<Rightarrow> (ctx', obind r (\<lambda>_. Ok []))))"

definition AppModule_ExportGenesis ::
  "'d GenesisState json_ops \<Rightarrow> ('d, 'b) AppModule \<Rightarrow> 'b Context \<Rightarrow> bytes outcome" where
  "AppModule_ExportGenesis J am ctx =
     obind (ExportGenesis (am_keeper am) ctx) (MustMarshalJSON J)"

text \<open>An entry of the application state that is missing or nil is \<open>None\<close>.\<close>

definition GetGenesisStateFromAppState ::
  "'d GenesisState json_ops \<Rightarrow> 'd pb_ops \<Rightarrow> (string \<rightharpoonup> bytes) \<Rightarrow> 'd GenesisState outcome" where
  "GetGenesisStateFromAppState J P appState =
     (case appState ModuleName of
        None \<Rightarrow> Ok \<lparr>gs_Params = empty_params P\<rparr>
      | Some bz \<Rightarrow> MustUnmarshalJSON J bz)"

section \<open>Construction\<close>

text \<open>
  What dependency injection provides. The keepers of the other modules are given by the calls the
  builder module makes; \<open>NewModuleAddress\<close> and \<open>NewModuleAddressOrBech32Address\<close> are those of
  \<^verbatim>\<open>x/auth\<close>.
\<close>

record auth_addr_ops =
  NewModuleAddress :: "string \<Rightarrow> bytes"
  NewModuleAddressOrBech32Address :: "string \<Rightarrow> bytes"

record ('d, 'b) Inputs =
  in_Config_Authority :: string
  in_Cdc :: "'d pb_ops"
  in_ModuleAddress :: "string \<Rightarrow> bytes option"
  in_BankKeeper :: "'b bank_ops"
  in_PreviousProposer :: "'b Context \<Rightarrow> bytes outcome"
  in_ValidatorOperator :: "'b Context \<Rightarrow> bytes \<Rightarrow> bytes outcome"

record ('d, 'b) Outputs =
  out_BuilderKeeper :: "('d, 'b) Keeper"
  out_Module :: "('d, 'b) AppModule"

definition ProvideModule :: "addr_ops \<Rightarrow> auth_addr_ops \<Rightarrow> ('d, 'b) Inputs \<Rightarrow> ('d, 'b) Outputs outcome" where
  "ProvideModule A AA inp =
     (let auth = (if in_Config_Authority inp \<noteq> '''' then NewModuleAddressOrBech32Address AA (in_Config_Authority inp)
                  else NewModuleAddress AA ''gov'')
      in obind (NewKeeper A (in_Cdc inp) (in_ModuleAddress inp ModuleName) (in_BankKeeper inp) (in_PreviousProposer inp)
                  (in_ValidatorOperator inp) (AccAddress_String A auth)) (\<lambda>builderKeeper.
           Ok \<lparr>out_BuilderKeeper = builderKeeper, out_Module = NewAppModule (in_Cdc inp) builderKeeper\<rparr>))"

section \<open>Correctness\<close>

text \<open>
  Documented behaviour of the JSON codec: what it encodes, it decodes (an empty address and a nil
  one have the same encoding, so the former is excepted).
\<close>

definition json_laws :: "'d GenesisState json_ops \<Rightarrow> bool" where
  "json_laws J \<longleftrightarrow>
     (\<forall>g bz. EscrowAccountAddress (gs_Params g) \<noteq> Some [] \<and> MarshalJSON J g = Ok bz \<longrightarrow> UnmarshalJSON J bz = Ok g)"

lemma must_Ok [simp]: "must (Ok x) = Ok x"
  by (simp add: must_def)

lemma ProvideModule_Ok:
  assumes "ProvideModule A AA inp = Ok out"
  shows "am_keeper (out_Module out) = out_BuilderKeeper out" "cdc (out_BuilderKeeper out) = in_Cdc inp"
    "authority (out_BuilderKeeper out) = AccAddress_String A
       (if in_Config_Authority inp \<noteq> '''' then NewModuleAddressOrBech32Address AA (in_Config_Authority inp)
        else NewModuleAddress AA ''gov'')"
  using assms
  by (auto simp: ProvideModule_def Let_def obind_eq_Ok NewKeeper_def NewKeeperWithRewardsAddressProvider_def
      NewAppModule_def split: if_splits)

text \<open>The default genesis state is valid, if the coin of one stake is.\<close>

lemma DefaultGenesis_valid:
  assumes coin: "coin_laws C" and dec: "dec_laws D v" and json: "json_laws J"
    and stake: "Coin_Validate C \<lparr>Denom = ''stake'', Amount = Some 1\<rparr> = Ok ()" and d: "DefaultGenesis J D a = Ok bz" and a: "a \<noteq> []"
  shows "ValidateGenesis J C D bz = Ok ()"
proof -
  have u: "UnmarshalJSON J bz = Ok (DefaultGenesisState D a)"
    using d json a
    by (auto simp: DefaultGenesis_def MustMarshalJSON_def must_def json_laws_def DefaultGenesisState_def DefaultParams_def
        NewParams_def split: outcome.splits)
  have "Coin_NewCoin C ''stake'' 0 = Ok \<lparr>Denom = ''stake'', Amount = Some 0\<rparr>"
    using coin stake unfolding coin_laws_def by fastforce
  moreover have "Coin_IsLTE C \<lparr>Denom = ''stake'', Amount = Some 1\<rparr> \<lparr>Denom = ''stake'', Amount = Some 0\<rparr> = Ok False"
    using coin unfolding coin_laws_def by fastforce
  ultimately have "Params_Validate C D (DefaultParams D a) = Ok ()"
    using stake coin_lawsD(1) [OF coin] dec unfolding dec_laws_def
    by (simp add: Params_Validate_def DefaultParams_def NewParams_def validateFee_def validateProposerFee_def)
  then show ?thesis by (simp add: ValidateGenesis_def u GenesisState_Validate_def DefaultGenesisState_def)
qed

lemma norm_escrow_simps [simp]:
  "EscrowAccountAddress (norm_escrow p) \<noteq> Some []" "norm_escrow (norm_escrow p) = norm_escrow p"
  by (auto simp: norm_escrow_def)

lemma Params_ok_norm: "Params_ok cok cenc dok denc p \<Longrightarrow> Params_ok cok cenc dok denc (norm_escrow p)"
  by (auto simp: Params_ok_def norm_escrow_def Params_enc_def split: if_splits)

text \<open>A JSON codec that writes one known genesis state as an empty object.\<close>

definition demo_json :: "'d GenesisState \<Rightarrow> 'd GenesisState json_ops" where
  "demo_json g =
     \<lparr>MarshalJSON = (\<lambda>h. if h = g then Ok [123, 125] else Err (ErrMsg ''json'')),
      UnmarshalJSON = (\<lambda>bz. if bz = [123, 125] then Ok g else Err (ErrMsg ''json''))\<rparr>"

section \<open>Properties\<close>

text \<open>
  C35: The parameters survive a restart of the chain through the module's genesis: with any
  parameters set, exporting gives the JSON of these parameters, and a module that is initialised
  from it, on any other state, reads the same parameters; nothing else of that state changes and
  the validator set is not updated.
\<close>

theorem module_genesis_roundtrip:
  assumes "pb_laws (cdc (am_keeper am)) cok cenc dok denc" "Params_ok cok cenc dok denc p" "json_laws J"
    "MarshalJSON J (NewGenesisState (norm_escrow p)) = Ok bz"
  shows "AppModule_ExportGenesis J am (fst (SetParams (am_keeper am) ctx p)) = Ok bz \<and>
    snd (AppModule_InitGenesis J am ctx' bz) = Ok [] \<and>
    GetParams (am_keeper am) (fst (AppModule_InitGenesis J am ctx' bz)) = Ok (norm_escrow p) \<and>
    outside_params (fst (AppModule_InitGenesis J am ctx' bz)) = outside_params ctx'"
proof -
  let ?k = "am_keeper am"
  have "UnmarshalJSON J bz = Ok (NewGenesisState (norm_escrow p))"
    using assms(3,4) by (simp add: json_laws_def NewGenesisState_def)
  then have u: "MustUnmarshalJSON J bz = Ok (NewGenesisState (norm_escrow p))" by (simp add: MustUnmarshalJSON_def)
  have ok: "pb_laws (cdc ?k) cok cenc dok denc \<and> Params_ok cok cenc dok denc p"
    "pb_laws (cdc ?k) cok cenc dok denc \<and> Params_ok cok cenc dok denc (norm_escrow p)"
    using assms(1,2) Params_ok_norm by blast+
  have "ExportGenesis ?k (fst (SetParams ?k ctx p)) = Ok (NewGenesisState (norm_escrow p))"
    by (simp add: ExportGenesis_def keeper_store.get_put [OF ok(1)])
  then have "AppModule_ExportGenesis J am (fst (SetParams ?k ctx p)) = Ok bz"
    by (simp add: AppModule_ExportGenesis_def MustMarshalJSON_def assms(4))
  moreover have "InitGenesis ?k ctx' (NewGenesisState (norm_escrow p)) = (fst (SetParams ?k ctx' (norm_escrow p)), Ok ())"
    using keeper_store.put_eq [OF ok(2), of ctx'] by (auto simp: InitGenesis_def NewGenesisState_def split: prod.splits)
  then have "AppModule_InitGenesis J am ctx' bz = (fst (SetParams ?k ctx' (norm_escrow p)), Ok [])"
    by (simp add: AppModule_InitGenesis_def u)
  ultimately show ?thesis
    using keeper_store.get_put [OF ok(2), of ctx'] keeper_store.put_frame [of ?k ctx' "norm_escrow p"] by simp
qed

theorem module_genesis_roundtrip_witness:
  "let J = demo_json (NewGenesisState demo_params); am = NewAppModule demo_pb demo_keeper
   in AppModule_ExportGenesis J am demo_kctx = Ok [123, 125] \<and>
      GetParams demo_keeper (fst (AppModule_InitGenesis J am empty_ctx [123, 125])) = Ok demo_params"
proof -
  let ?J = "demo_json (NewGenesisState demo_params)" and ?am = "NewAppModule demo_pb demo_keeper"
  have n: "norm_escrow demo_params = demo_params" by (simp add: norm_escrow_def demo_params_def)
  have k: "am_keeper ?am = demo_keeper" by (simp add: NewAppModule_def)
  have "json_laws ?J" "MarshalJSON ?J (NewGenesisState (norm_escrow demo_params)) = Ok [123, 125]"
    by (auto simp: json_laws_def demo_json_def n)
  moreover have "pb_laws (cdc (am_keeper ?am)) demo_coin_ok demo_coin_enc demo_dec_ok demo_dec_enc"
    unfolding k using demo_pb_laws by (simp add: demo_keeper_def)
  ultimately have "AppModule_ExportGenesis ?J ?am (fst (SetParams (am_keeper ?am) empty_ctx demo_params)) = Ok [123, 125] \<and>
      GetParams (am_keeper ?am) (fst (AppModule_InitGenesis ?J ?am empty_ctx [123, 125])) = Ok (norm_escrow demo_params)"
    using module_genesis_roundtrip [OF _ demo_params_ok, of ?am ?J "[123, 125]" empty_ctx empty_ctx] by blast
  then show ?thesis by (simp add: Let_def n k demo_kctx_def)
qed

end
