(* ===== verification/Tx_Pb.thy ===== *)
theory Tx_Pb
  imports Genesis_Pb
begin

text \<open>
  \<^verbatim>\<open>x/builder/types/tx.pb.go\<close> and \<^verbatim>\<open>query.pb.go\<close>: the generated codecs of the messages
  \<open>MsgAuctionBid\<close> and \<open>MsgUpdateParams\<close>, of the query of the parameters, and of the messages
  without fields.
\<close>

section \<open>MsgAuctionBid\<close>

definition empty_bid :: MsgAuctionBid where
  "empty_bid = \<lparr>Bidder = '''', Bid = zero_coin, Transactions = []\<rparr>"

definition MsgAuctionBid_Size :: "coin codec \<Rightarrow> MsgAuctionBid \<Rightarrow> int" where
  "MsgAuctionBid_Size c m =
     (let l = int (length (Bidder m)) in if l > 0 then chunk_size l else 0) +
     chunk_size (c_Size c (Bid m)) +
     foldl (\<lambda>n b. n + chunk_size (int (length b))) 0 (Transactions m)"

text \<open>The loop over the transactions runs from the last one to the first one.\<close>

fun transactions_writer :: "bytes list \<Rightarrow> writer" where
  "transactions_writer [] = skip_w"
| "transactions_writer (b # bs) =
     seq_w (transactions_writer bs) (seq_w (w_bytes b) (w_byte 0x1a))"

definition MsgAuctionBid_writer :: "coin codec \<Rightarrow> MsgAuctionBid \<Rightarrow> writer" where
  "MsgAuctionBid_writer c m =
     seq_w (transactions_writer (Transactions m)) (
     seq_w (w_message c (Bid m)) (
     seq_w (w_byte 0x12)
           (if length (Bidder m) > 0
            then seq_w (w_bytes (str_bytes (Bidder m))) (w_byte 0x0a) else skip_w)))"

definition MsgAuctionBid_MarshalToSizedBuffer ::
  "coin codec \<Rightarrow> MsgAuctionBid \<Rightarrow> bytes \<Rightarrow> (bytes \<times> int) outcome" where
  "MsgAuctionBid_MarshalToSizedBuffer c m dAtA = sized_buffer (MsgAuctionBid_writer c m) dAtA"

definition MsgAuctionBid_field ::
  "coin codec \<Rightarrow> nat \<Rightarrow> MsgAuctionBid \<Rightarrow> bytes \<Rightarrow> (MsgAuctionBid \<times> bytes) outcome" where
  "MsgAuctionBid_field c l m bs = obind (decode_tag bs) (\<lambda>(fieldNum, wireType, rest).
     if fieldNum = 1 then
       (if wireType \<noteq> 2 then wrong_wireType
        else obind (read_chunk l rest) (\<lambda>(bz, rest'). Ok (m\<lparr>Bidder := bytes_str bz\<rparr>, rest')))
     else if fieldNum = 2 then
       (if wireType \<noteq> 2 then wrong_wireType
        else obind (read_chunk l rest) (\<lambda>(bz, rest').
             obind (c_Unmarshal c (Bid m) bz) (\<lambda>bid. Ok (m\<lparr>Bid := bid\<rparr>, rest'))))
     else if fieldNum = 3 then
       (if wireType \<noteq> 2 then wrong_wireType
        else obind (read_chunk l rest) (\<lambda>(bz, rest').
             Ok (m\<lparr>Transactions := Transactions m @ [bz]\<rparr>, rest')))
     else obind (skip_unknown l bs) (\<lambda>rest'. Ok (m, rest')))"

definition MsgAuctionBid_Unmarshal :: "coin codec \<Rightarrow> MsgAuctionBid \<Rightarrow> bytes \<Rightarrow> MsgAuctionBid outcome" where
  "MsgAuctionBid_Unmarshal c m dAtA = unmarshal (MsgAuctionBid_field c) m dAtA"

definition MsgAuctionBid_codec :: "coin codec \<Rightarrow> MsgAuctionBid codec" where
  "MsgAuctionBid_codec c = \<lparr>c_Size = MsgAuctionBid_Size c,
     c_MarshalToSizedBuffer = MsgAuctionBid_MarshalToSizedBuffer c,
     c_Unmarshal = MsgAuctionBid_Unmarshal c\<rparr>"

definition MsgAuctionBid_Marshal :: "coin codec \<Rightarrow> MsgAuctionBid \<Rightarrow> bytes outcome" where
  "MsgAuctionBid_Marshal c m = c_Marshal (MsgAuctionBid_codec c) m"

section \<open>MsgUpdateParams\<close>

definition empty_update :: "'d pb_ops \<Rightarrow> 'd MsgUpdateParams" where
  "empty_update P = \<lparr>Authority = '''', mup_Params = empty_params P\<rparr>"

definition MsgUpdateParams_Size :: "'d pb_ops \<Rightarrow> 'd MsgUpdateParams \<Rightarrow> int" where
  "MsgUpdateParams_Size P m =
     (let l = int (length (Authority m)) in if l > 0 then chunk_size l else 0) +
     chunk_size (Params_Size P (mup_Params m))"

definition MsgUpdateParams_writer :: "'d pb_ops \<Rightarrow> 'd MsgUpdateParams \<Rightarrow> writer" where
  "MsgUpdateParams_writer P m =
     seq_w (w_message (Params_codec P) (mup_Params m)) (
     seq_w (w_byte 0x12)
           (if length (Authority m) > 0
            then seq_w (w_bytes (str_bytes (Authority m))) (w_byte 0x0a) else skip_w))"

definition MsgUpdateParams_MarshalToSizedBuffer ::
  "'d pb_ops \<Rightarrow> 'd MsgUpdateParams \<Rightarrow> bytes \<Rightarrow> (bytes \<times> int) outcome" where
  "MsgUpdateParams_MarshalToSizedBuffer P m dAtA = sized_buffer (MsgUpdateParams_writer P m) dAtA"

definition MsgUpdateParams_field ::
  "'d pb_ops \<Rightarrow> nat \<Rightarrow> 'd MsgUpdateParams \<Rightarrow> bytes \<Rightarrow> ('d MsgUpdateParams \<times> bytes) outcome" where
  "MsgUpdateParams_field P l m bs = obind (decode_tag bs) (\<lambda>(fieldNum, wireType, rest).
     if fieldNum = 1 then
       (if wireType \<noteq> 2 then wrong_wireType
        else obind (read_chunk l rest) (\<lambda>(bz, rest'). Ok (m\<lparr>Authority := bytes_str bz\<rparr>, rest')))
     else if fieldNum = 2 then
       (if wireType \<noteq> 2 then wrong_wireType
        else obind (read_chunk l rest) (\<lambda>(bz, rest').
             obind (Params_Unmarshal P (mup_Params m) bz) (\<lambda>p. Ok (m\<lparr>mup_Params := p\<rparr>, rest'))))
     else obind (skip_unknown l bs) (\<lambda>rest'. Ok (m, rest')))"

definition MsgUpdateParams_Unmarshal ::
  "'d pb_ops \<Rightarrow> 'd MsgUpdateParams \<Rightarrow> bytes \<Rightarrow> 'd MsgUpdateParams outcome" where
  "MsgUpdateParams_Unmarshal P m dAtA = unmarshal (MsgUpdateParams_field P) m dAtA"

definition MsgUpdateParams_codec :: "'d pb_ops \<Rightarrow> 'd MsgUpdateParams codec" where
  "MsgUpdateParams_codec P = \<lparr>c_Size = MsgUpdateParams_Size P,
     c_MarshalToSizedBuffer = MsgUpdateParams_MarshalToSizedBuffer P,
     c_Unmarshal = MsgUpdateParams_Unmarshal P\<rparr>"

definition MsgUpdateParams_Marshal :: "'d pb_ops \<Rightarrow> 'd MsgUpdateParams \<Rightarrow> bytes outcome" where
  "MsgUpdateParams_Marshal P m = c_Marshal (MsgUpdateParams_codec P) m"

section \<open>Messages without fields\<close>

text \<open>The decoder skips every field; nothing is written.\<close>

definition empty_field :: "nat \<Rightarrow> unit \<Rightarrow> bytes \<Rightarrow> (unit \<times> bytes) outcome" where
  "empty_field l m bs = obind (decode_tag bs) (\<lambda>_. obind (skip_unknown l bs) (\<lambda>rest'. Ok (m, rest')))"

definition MsgAuctionBidResponse_Unmarshal :: "unit \<Rightarrow> bytes \<Rightarrow> unit outcome" where
  "MsgAuctionBidResponse_Unmarshal m dAtA = unmarshal empty_field m dAtA"

definition MsgAuctionBidResponse_codec :: "unit codec" where
  "MsgAuctionBidResponse_codec = \<lparr>c_Size = (\<lambda>m. 0),
     c_MarshalToSizedBuffer = (\<lambda>m. sized_buffer skip_w), c_Unmarshal = MsgAuctionBidResponse_Unmarshal\<rparr>"

definition MsgUpdateParamsResponse_Unmarshal :: "unit \<Rightarrow> bytes \<Rightarrow> unit outcome" where
  "MsgUpdateParamsResponse_Unmarshal m dAtA = unmarshal empty_field m dAtA"

definition MsgUpdateParamsResponse_codec :: "unit codec" where
  "MsgUpdateParamsResponse_codec = \<lparr>c_Size = (\<lambda>m. 0),
     c_MarshalToSizedBuffer = (\<lambda>m. sized_buffer skip_w), c_Unmarshal = MsgUpdateParamsResponse_Unmarshal\<rparr>"

definition QueryParamsRequest_Unmarshal :: "unit \<Rightarrow> bytes \<Rightarrow> unit outcome" where
  "QueryParamsRequest_Unmarshal m dAtA = unmarshal empty_field m dAtA"

definition QueryParamsRequest_codec :: "unit codec" where
  "QueryParamsRequest_codec = \<lparr>c_Size = (\<lambda>m. 0),
     c_MarshalToSizedBuffer = (\<lambda>m. sized_buffer skip_w), c_Unmarshal = QueryParamsRequest_Unmarshal\<rparr>"

section \<open>QueryParamsResponse\<close>

record 'd QueryParamsResponse =
  qpr_Params :: "'d Params"

definition QueryParamsResponse_Size :: "'d pb_ops \<Rightarrow> 'd QueryParamsResponse \<Rightarrow> int" where
  "QueryParamsResponse_Size P m = chunk_size (Params_Size P (qpr_Params m))"

definition QueryParamsResponse_MarshalToSizedBuffer ::
  "'d pb_ops \<Rightarrow> 'd QueryParamsResponse \<Rightarrow> bytes \<Rightarrow> (bytes \<times> int) outcome" where
  "QueryParamsResponse_MarshalToSizedBuffer P m dAtA =
     sized_buffer (seq_w (w_message (Params_codec P) (qpr_Params m)) (w_byte 0x0a)) dAtA"

definition QueryParamsResponse_field ::
  "'d pb_ops \<Rightarrow> nat \<Rightarrow> 'd QueryParamsResponse \<Rightarrow> bytes \<Rightarrow> ('d QueryParamsResponse \<times> bytes) outcome" where
  "QueryParamsResponse_field P l m bs = obind (decode_tag bs) (\<lambda>(fieldNum, wireType, rest).
     if fieldNum = 1 then
       (if wireType \<noteq> 2 then wrong_wireType
        else obind (read_chunk l rest) (\<lambda>(bz, rest').
             obind (Params_Unmarshal P (qpr_Params m) bz) (\<lambda>p. Ok (m\<lparr>qpr_Params := p\<rparr>, rest'))))
     else obind (skip_unknown l bs) (\<lambda>rest'. Ok (m, rest')))"

definition QueryParamsResponse_Unmarshal ::
  "'d pb_ops \<Rightarrow> 'd QueryParamsResponse \<Rightarrow> bytes \<Rightarrow> 'd QueryParamsResponse outcome" where
  "QueryParamsResponse_Unmarshal P m dAtA = unmarshal (QueryParamsResponse_field P) m dAtA"

definition QueryParamsResponse_codec :: "'d pb_ops \<Rightarrow> 'd QueryParamsResponse codec" where
  "QueryParamsResponse_codec P = \<lparr>c_Size = QueryParamsResponse_Size P,
     c_MarshalToSizedBuffer = QueryParamsResponse_MarshalToSizedBuffer P,
     c_Unmarshal = QueryParamsResponse_Unmarshal P\<rparr>"

definition QueryParamsResponse_Marshal :: "'d pb_ops \<Rightarrow> 'd QueryParamsResponse \<Rightarrow> bytes outcome" where
  "QueryParamsResponse_Marshal P m = c_Marshal (QueryParamsResponse_codec P) m"

end
