(* ===== verification/Builder_Cli.thy ===== *)
theory Builder_Cli
  imports Builder_Msg Tx_Pb
begin

text \<open>
  \<^verbatim>\<open>x/builder/client/cli\<close>: the commands that build a bid from the arguments of the command line and that
  print the parameters. The flags, the client context, the parser of coins, the broadcast and the
  output belong to the SDK and are a record of operations. A bundle of encoded transactions is read
  back as it was written; the prefix \<^verbatim>\<open>0x\<close> of the documented example is refused.
\<close>

section \<open>The standard library\<close>

text \<open>\<^verbatim>\<open>strings.Split(s, ",")\<close>: always at least one part.\<close>

fun split_comma :: "string \<Rightarrow> string list" where
  "split_comma [] = [[]]"
| "split_comma (c # cs) =
     (if c = CHR '','' then [] # split_comma cs
      else (case split_comma cs of [] \<Rightarrow> [[c]] | t # ts \<Rightarrow> (c # t) # ts))"

text \<open>\<^verbatim>\<open>hex.DecodeString\<close>: pairs of digits of either case, no prefix.\<close>

definition fromHexChar :: "char \<Rightarrow> nat option" where
  "fromHexChar c =
     (let n = of_char c :: nat
      in if 48 \<le> n \<and> n \<le> 57 then Some (n - 48)
         else if 97 \<le> n \<and> n \<le> 102 then Some (n - 97 + 10)
         else if 65 \<le> n \<and> n \<le> 70 then Some (n - 65 + 10)
         else None)"

fun hex_DecodeString :: "string \<Rightarrow> bytes outcome" where
  "hex_DecodeString [] = Ok []"
| "hex_DecodeString [c] =
     (if fromHexChar c = None then Err (ErrMsg ''encoding/hex: invalid byte'')
      else Err (ErrMsg ''encoding/hex: odd length hex string''))"
| "hex_DecodeString (c # d # s) =
     (case (fromHexChar c, fromHexChar d) of
        (Some hi, Some lo) \<Rightarrow> obind (hex_DecodeString s) (\<lambda>bs. Ok (of_nat (16 * hi + lo) # bs))
      | _ \<Rightarrow> Err (ErrMsg ''encoding/hex: invalid byte''))"

section \<open>The commands\<close>

text \<open>
  \<open>cli_SetFrom\<close> sets the flag \<^verbatim>\<open>--from\<close>; \<open>cli_TxContext\<close> gives the address of the client context for the
  flags as they are then.
\<close>

record 'd cli_ops =
  cli_SetFrom :: "string \<Rightarrow> unit outcome"
  cli_TxContext :: "string \<Rightarrow> bytes outcome"
  cli_ParseCoinNormalized :: "string \<Rightarrow> coin outcome"
  cli_TimeoutHeight :: "64 word"
  cli_GenerateOrBroadcastTx :: "MsgAuctionBid \<Rightarrow> unit outcome"
  cli_QueryContext :: "unit outcome"
  cli_QueryParams :: "'d QueryParamsResponse outcome"
  cli_PrintProto :: "'d Params \<Rightarrow> unit outcome"

fun decode_tokens :: "string list \<Rightarrow> bytes list outcome" where
  "decode_tokens [] = Ok []"
| "decode_tokens (token # tokens) =
     (case hex_DecodeString token of
        Ok rawTx \<Rightarrow> obind (decode_tokens tokens) (\<lambda>bundledTxs. Ok (rawTx # bundledTxs))
      | Err e \<Rightarrow> Err (ErrWrap ''failed to HEX decode bundled transaction'' e)
      | Panic s \<Rightarrow> Panic s)"

definition NewAuctionBidTx :: "addr_ops \<Rightarrow> 'd cli_ops \<Rightarrow> string list \<Rightarrow> unit outcome" where
  "NewAuctionBidTx A cli args =
     (case args of
        [bidder, amount, bundle] \<Rightarrow>
          obind (cli_SetFrom cli bidder) (\<lambda>_.
          obind (cli_TxContext cli bidder) (\<lambda>fromAddress.
          obind (cli_ParseCoinNormalized cli amount) (\<lambda>bid.
            if cli_TimeoutHeight cli = 0 then Err (ErrMsg ''timeout height must be greater than 0'')
            else obind (decode_tokens (split_comma bundle)) (\<lambda>bundledTxs.
              cli_GenerateOrBroadcastTx cli (NewMsgAuctionBid A fromAddress bid bundledTxs)))))
      | _ \<Rightarrow> Err (ErrMsg ''accepts 3 arg(s)''))"

definition CmdQueryParams :: "'d cli_ops \<Rightarrow> string list \<Rightarrow> unit outcome" where
  "CmdQueryParams cli args =
     (if args \<noteq> [] then Err (ErrMsg ''unknown command'')
      else obind (cli_QueryContext cli) (\<lambda>_.
           obind (cli_QueryParams cli) (\<lambda>response. cli_PrintProto cli (qpr_Params response))))"

section \<open>A bundle on the command line\<close>

lemma split_comma_not_Nil: "split_comma s \<noteq> []"
  by (induction s) (auto split: list.splits)

lemma split_comma_append:
  "CHR '','' \<notin> set s \<Longrightarrow> split_comma (s @ '','' @ t) = s # split_comma t"
  by (induction s) auto

lemma split_comma_single: "CHR '','' \<notin> set s \<Longrightarrow> split_comma s = [s]"
  by (induction s) auto

lemma split_join:
  "xs \<noteq> [] \<Longrightarrow> (\<And>x. x \<in> set xs \<Longrightarrow> CHR '','' \<notin> set x) \<Longrightarrow> split_comma (join_comma xs) = xs"
  by (induction xs rule: join_comma.induct) (simp_all add: split_comma_single split_comma_append [simplified])

lemma fromHexChar_hexdigit:
  assumes "n < 16" shows "fromHexChar (hexdigit n) = Some n" "hexdigit n \<noteq> CHR '',''"
proof -
  have "n \<in> set [0..<16]" using assms by simp
  then show "fromHexChar (hexdigit n) = Some n" "hexdigit n \<noteq> CHR '',''"
    by (auto simp: upt_conv_Cons hexdigit_def fromHexChar_def Let_def)
qed

lemma unat_byte: "unat (b :: byte) div 16 < 16" "unat b mod 16 < 16"
proof -
  have "unat b < 2 ^ LENGTH(8)" by (rule unsigned_less)
  then show "unat b div 16 < 16" by simp
qed simp

lemma hex_roundtrip: "hex_DecodeString (hex_EncodeToString bs) = Ok bs"
proof (induction bs)
  case (Cons b bs)
  have "of_nat (16 * (unat b div 16) + unat b mod 16) = b" by simp
  with Cons show ?case by (simp add: fromHexChar_hexdigit unat_byte del: mult_div_mod_eq)
qed simp

lemma hex_no_comma: "CHR '','' \<notin> set (hex_EncodeToString bs)"
  by (induction bs) (simp_all add: fromHexChar_hexdigit(2) [OF unat_byte(1), symmetric] fromHexChar_hexdigit(2) [OF unat_byte(2), symmetric])

lemma decode_tokens_hex: "decode_tokens (map hex_EncodeToString txs) = Ok txs"
  by (induction txs) (simp_all add: hex_roundtrip)

text \<open>The command broadcasts the bid with exactly the transactions of the bundle.\<close>

lemma auction_bid_command:
  assumes "cli_SetFrom cli from = Ok ()" "cli_TxContext cli from = Ok addr" "cli_ParseCoinNormalized cli amount = Ok bid"
    and "cli_TimeoutHeight cli \<noteq> 0" "bundle \<noteq> []"
  shows "NewAuctionBidTx A cli [from, amount, join_comma (map hex_EncodeToString bundle)] =
     cli_GenerateOrBroadcastTx cli \<lparr>Bidder = AccAddress_String A addr, Bid = bid, Transactions = bundle\<rparr>"
proof -
  have "split_comma (join_comma (map hex_EncodeToString bundle)) = map hex_EncodeToString bundle"
    using assms(5) hex_no_comma by (intro split_join) auto
  with assms show ?thesis by (simp add: NewAuctionBidTx_def NewMsgAuctionBid_def decode_tokens_hex)
qed

text \<open>The example of the help text writes transactions with the prefix \<^verbatim>\<open>0x\<close>, which no bundle may have.\<close>

lemma hex_prefix_refused: "hex_DecodeString (''0x'' @ s) = Err (ErrMsg ''encoding/hex: invalid byte'')"
  by (simp add: fromHexChar_def)

lemma prefixed_bundle_refused:
  assumes "cli_TimeoutHeight cli \<noteq> 0"
  shows "NewAuctionBidTx A cli [from, amount, ''0x'' @ bundle] \<noteq> Ok r"
proof -
  obtain t ts where t: "split_comma bundle = t # ts" using split_comma_not_Nil [of "bundle"] by (cases "split_comma bundle") auto
  then have "split_comma (''0x'' @ bundle) = (''0x'' @ t) # ts" by simp
  then show ?thesis
    using assms hex_prefix_refused [of t] by (auto simp: NewAuctionBidTx_def obind_eq_Ok)
qed

end
