(* ===== verification/Pulsar.thy ===== *)
theory Pulsar
  imports Proto
begin

text \<open>
  The vocabulary of the generated API packages \<^verbatim>\<open>api/pob/builder/**/*.pulsar.go\<close>: what the fast
  reflection and the wire methods of every message share. A method is called on a pointer, which
  may be nil (\<open>None\<close>); a nil slice is \<open>None\<close> where the code tells it from an empty one.

  The runtime of \<^verbatim>\<open>cosmos-proto\<close> and the API package of the coins are not in the repository: they are
  the record \<open>pulsar_ops\<close>, with their documented behaviour in \<open>runtime_laws\<close> and \<open>msg_laws\<close>. The calls
  \<^verbatim>\<open>options.Size\<close>, \<^verbatim>\<open>options.Marshal\<close> and \<^verbatim>\<open>options.Unmarshal\<close> on an embedded message dispatch to the
  methods of that message (\<open>msg_ops\<close>).
\<close>

section \<open>The runtime\<close>

record 'a msg_ops =
  mo_new :: 'a
  mo_Size :: "'a \<Rightarrow> int"
  mo_Marshal :: "'a \<Rightarrow> bytes outcome"
  mo_Unmarshal :: "bool \<Rightarrow> 'a \<Rightarrow> bytes \<Rightarrow> 'a outcome"

record 'c pulsar_ops =
  rt_Sov :: "64 word \<Rightarrow> nat"
  rt_EncodeVarint :: "64 word \<Rightarrow> writer"
  rt_Skip :: "bytes \<Rightarrow> int outcome"
  rt_coin :: "'c msg_ops"

text \<open>
  \<^verbatim>\<open>Sov\<close> is the size of a varint, \<^verbatim>\<open>EncodeVarint\<close> writes it in front of the offset, and \<^verbatim>\<open>Skip\<close> returns
  the length of the field at the start of a slice, its tag included.
\<close>

definition runtime_laws :: "'c pulsar_ops \<Rightarrow> bool" where
  "runtime_laws rt \<longleftrightarrow>
     (\<forall>v. rt_Sov rt v = sov v) \<and> (\<forall>v. writes (rt_EncodeVarint rt v) (varint v)) \<and>
     (\<forall>bs n. length bs < 2 ^ 62 \<longrightarrow> rt_Skip rt bs = Ok n \<longrightarrow> 0 < n)"

lemma runtime_lawsD:
  assumes "runtime_laws rt"
  shows "rt_Sov rt v = sov v" "writes (rt_EncodeVarint rt v) (varint v)"
    "length bs < 2 ^ 62 \<Longrightarrow> rt_Skip rt bs = Ok n \<Longrightarrow> 0 < n"
  using assms unfolding runtime_laws_def by blast+

text \<open>The methods of a message agree on one encoding of the values \<open>ok\<close>.\<close>

definition msg_laws :: "'a msg_ops \<Rightarrow> bool \<Rightarrow> ('a \<Rightarrow> bool) \<Rightarrow> ('a \<Rightarrow> bytes) \<Rightarrow> bool" where
  "msg_laws mo discard ok enc \<longleftrightarrow>
     (\<forall>x. ok x \<longrightarrow> length (enc x) < 2 ^ 60 \<and> mo_Size mo x = int (length (enc x)) \<and>
        mo_Marshal mo x = Ok (enc x) \<and> mo_Unmarshal mo discard (mo_new mo) (enc x) = Ok x)"

lemma msg_lawsD:
  assumes "msg_laws mo discard ok enc" "ok x"
  shows "length (enc x) < 2 ^ 60" "mo_Size mo x = int (length (enc x))" "mo_Marshal mo x = Ok (enc x)"
    "mo_Unmarshal mo discard (mo_new mo) (enc x) = Ok x"
  using assms unfolding msg_laws_def by blast+

section \<open>Messages\<close>

text \<open>Every message has the raw bytes of the fields it does not know; \<open>x.f\<close> on a nil pointer panics.\<close>

record api_message =
  unknownFields :: "bytes option"

definition deref :: "'m option \<Rightarrow> ('m \<Rightarrow> 'a outcome) \<Rightarrow> 'a outcome" where
  "deref x f = (case x of None \<Rightarrow> Panic ''nil pointer dereference'' | Some m \<Rightarrow> f m)"

lemma deref_simps [simp]: "deref None f = Panic ''nil pointer dereference''" "deref (Some m) f = f m"
  by (simp_all add: deref_def)

definition api_GetUnknown :: "'z api_message_scheme option \<Rightarrow> bytes option outcome" where
  "api_GetUnknown x = deref x (\<lambda>m. Ok (unknownFields m))"

definition api_SetUnknown ::
  "'z api_message_scheme option \<Rightarrow> bytes option \<Rightarrow> 'z api_message_scheme outcome" where
  "api_SetUnknown x raw = deref x (\<lambda>m. Ok (m\<lparr>unknownFields := raw\<rparr>))"

definition api_IsValid :: "'m option \<Rightarrow> bool" where
  "api_IsValid x \<longleftrightarrow> x \<noteq> None"

section \<open>Reflection\<close>

record field_descriptor =
  FullName :: string
  IsExtension :: bool

text \<open>The descriptor of a field of this schema.\<close>

definition fd :: "string \<Rightarrow> field_descriptor" where
  "fd n = \<lparr>FullName = n, IsExtension = False\<rparr>"

lemma fd_simps [simp]: "FullName (fd n) = n" "fd m = fd n \<longleftrightarrow> m = n"
  by (simp_all add: fd_def)

text \<open>
  The dynamic values of \<^verbatim>\<open>protoreflect\<close> that occur. A list value points to a slice of the message and a
  map value to a map; the pointer, the slice and the map may be nil. A map is the list of its
  entries, with distinct keys; an \<^verbatim>\<open>int64\<close> is its bit pattern. \<open>NoValue\<close> is the invalid value
  \<^verbatim>\<open>Value{}\<close>. The accessors panic on a value of another kind.
\<close>

type_synonym go_map = "(string \<times> bytes option) list"

datatype ('c, 'p) any_message = CoinMessage "'c option" | ParamsMessage "'p option"

datatype ('c, 'p) Value =
  ValueOfString string
| ValueOfBytes "bytes option"
| ValueOfUint32 "32 word"
| ValueOfInt64 "64 word"
| ValueOfUint64 "64 word"
| ValueOfBool bool
| ValueOfMessage "('c, 'p) any_message"
| ValueOfList "bytes list option option"
| ValueOfMap "go_map option option"
| NoValue

definition value_string :: "('c, 'p) Value \<Rightarrow> string outcome" where
  "value_string v = (case v of ValueOfString s \<Rightarrow> Ok s | _ \<Rightarrow> Panic ''interface conversion'')"

definition value_Bytes :: "('c, 'p) Value \<Rightarrow> bytes option outcome" where
  "value_Bytes v = (case v of ValueOfBytes b \<Rightarrow> Ok b | _ \<Rightarrow> Panic ''type mismatch'')"

definition value_Uint :: "('c, 'p) Value \<Rightarrow> 64 word outcome" where
  "value_Uint v = (case v of ValueOfUint32 n \<Rightarrow> Ok (ucast n) | ValueOfUint64 n \<Rightarrow> Ok n | _ \<Rightarrow> Panic ''type mismatch'')"

definition value_Int :: "('c, 'p) Value \<Rightarrow> 64 word outcome" where
  "value_Int v = (case v of ValueOfInt64 n \<Rightarrow> Ok n | _ \<Rightarrow> Panic ''type mismatch'')"

definition value_Bool :: "('c, 'p) Value \<Rightarrow> bool outcome" where
  "value_Bool v = (case v of ValueOfBool b \<Rightarrow> Ok b | _ \<Rightarrow> Panic ''type mismatch'')"

definition value_coin :: "('c, 'p) Value \<Rightarrow> 'c option outcome" where
  "value_coin v = (case v of ValueOfMessage (CoinMessage c) \<Rightarrow> Ok c | _ \<Rightarrow> Panic ''interface conversion'')"

definition value_params :: "('c, 'p) Value \<Rightarrow> 'p option outcome" where
  "value_params v = (case v of ValueOfMessage (ParamsMessage p) \<Rightarrow> Ok p | _ \<Rightarrow> Panic ''interface conversion'')"

definition value_List :: "('c, 'p) Value \<Rightarrow> bytes list option option outcome" where
  "value_List v = (case v of ValueOfList l \<Rightarrow> Ok l | _ \<Rightarrow> Panic ''type mismatch'')"

definition value_Map :: "('c, 'p) Value \<Rightarrow> go_map option option outcome" where
  "value_Map v = (case v of ValueOfMap l \<Rightarrow> Ok l | _ \<Rightarrow> Panic ''type mismatch'')"

lemmas value_defs =
  value_string_def value_Bytes_def value_Uint_def value_Int_def value_Bool_def value_coin_def value_params_def
  value_List_def value_Map_def

text \<open>The default case of every switch on a descriptor.\<close>

definition no_field :: "string \<Rightarrow> field_descriptor \<Rightarrow> 'a outcome" where
  "no_field md d =
     (if IsExtension d then Panic (''proto3 declared messages do not support extensions: '' @ md)
      else Panic (''message '' @ md @ '' does not contain field '' @ FullName d))"

definition not_mutable :: "string \<Rightarrow> 'a outcome" where
  "not_mutable n = Panic (''not mutable: '' @ n)"

definition no_oneof :: "string \<Rightarrow> string \<Rightarrow> 'a outcome" where
  "no_oneof md d = Panic (d @ '' is not a oneof field in '' @ md)"

text \<open>
  \<^verbatim>\<open>Range\<close>: for every field a test whether it is populated, its descriptor and its value; the callback
  \<open>f\<close> (with its state) is called on the populated ones, until it returns false.
\<close>

fun visit ::
  "('s \<Rightarrow> field_descriptor \<Rightarrow> ('c, 'p) Value \<Rightarrow> 's \<times> bool) \<Rightarrow>
   (bool \<times> field_descriptor \<times> ('c, 'p) Value) list \<Rightarrow> 's \<Rightarrow> 's" where
  "visit f [] s = s"
| "visit f ((populated, d, v) # rest) s =
     (if populated then (case f s d v of (s', go) \<Rightarrow> if go then visit f rest s' else s')
      else visit f rest s)"

section \<open>Wire methods\<close>

definition opt_bytes :: "bytes option \<Rightarrow> bytes" where
  "opt_bytes b = (case b of None \<Rightarrow> [] | Some bs \<Rightarrow> bs)"

definition opt_list :: "'a list option \<Rightarrow> 'a list" where
  "opt_list b = (case b of None \<Rightarrow> [] | Some bs \<Rightarrow> bs)"

lemma opt_simps [simp]: "opt_bytes None = []" "opt_bytes (Some bs) = bs" "opt_list None = []" "opt_list (Some xs) = xs"
  by (simp_all add: opt_bytes_def opt_list_def)

text \<open>\<^verbatim>\<open>n += 1 + l + runtime.Sov(uint64(l))\<close>\<close>

definition delim_size :: "'c pulsar_ops \<Rightarrow> int \<Rightarrow> int" where
  "delim_size rt l = 1 + l + int (rt_Sov rt (word_of_int l))"

definition delim_size_opt :: "'c pulsar_ops \<Rightarrow> int \<Rightarrow> int" where
  "delim_size_opt rt l = (if l > 0 then delim_size rt l else 0)"

definition unknown_size :: "'z api_message_scheme \<Rightarrow> int" where
  "unknown_size m = (case unknownFields m of None \<Rightarrow> 0 | Some u \<Rightarrow> int (length u))"

definition sub_size :: "'c pulsar_ops \<Rightarrow> 'a msg_ops \<Rightarrow> 'a option \<Rightarrow> int" where
  "sub_size rt mo x = (case x of None \<Rightarrow> 0 | Some m \<Rightarrow> delim_size rt (mo_Size mo m))"

text \<open>The statements of \<open>marshal\<close> that write one field, from its last byte to its tag.\<close>

definition w_unknown :: "'z api_message_scheme \<Rightarrow> writer" where
  "w_unknown m = (case unknownFields m of None \<Rightarrow> skip_w | Some u \<Rightarrow> w_copy u)"

definition w_delim :: "'c pulsar_ops \<Rightarrow> byte \<Rightarrow> bytes \<Rightarrow> writer" where
  "w_delim rt tag bs = seq_w (w_copy bs) (seq_w (rt_EncodeVarint rt (of_nat (length bs))) (w_byte tag))"

definition w_delim_opt :: "'c pulsar_ops \<Rightarrow> byte \<Rightarrow> bytes \<Rightarrow> writer" where
  "w_delim_opt rt tag bs = (if length bs > 0 then w_delim rt tag bs else skip_w)"

definition w_sub :: "'c pulsar_ops \<Rightarrow> 'a msg_ops \<Rightarrow> byte \<Rightarrow> 'a option \<Rightarrow> writer" where
  "w_sub rt mo tag x =
     (case x of None \<Rightarrow> skip_w | Some m \<Rightarrow> (\<lambda>s. obind (mo_Marshal mo m) (\<lambda>encoded. w_delim rt tag encoded s)))"

text \<open>
  The frame of \<open>marshal\<close>: a buffer of the size of the message is filled from its end, and appended to
  the buffer of the caller. A nil message leaves that buffer as it is.
\<close>

definition marshal_frame ::
  "('m option \<Rightarrow> int) \<Rightarrow> ('m \<Rightarrow> writer) \<Rightarrow> 'm option \<Rightarrow> bytes option \<Rightarrow> bytes option outcome" where
  "marshal_frame sz w x buf =
     (case x of
        None \<Rightarrow> Ok buf
      | Some m \<Rightarrow>
          if sz x < 0 then Panic ''makeslice: len out of range''
          else obind (w m (replicate (nat (sz x)) 0, sz x)) (\<lambda>(dAtA, i).
                 Ok (case buf of None \<Rightarrow> Some dAtA | Some b \<Rightarrow> Some (b @ dAtA))))"

text \<open>\<^verbatim>\<open>options.Marshal\<close> of an embedded message: into a new buffer.\<close>

definition own_bytes :: "('m option \<Rightarrow> bytes option \<Rightarrow> bytes option outcome) \<Rightarrow> 'm \<Rightarrow> bytes outcome" where
  "own_bytes marshal m = obind (marshal (Some m) None) (\<lambda>b. Ok (opt_bytes b))"

text \<open>The default case of a decoding loop: the raw field is kept unless it is to be discarded.\<close>

definition skip_raw :: "'c pulsar_ops \<Rightarrow> nat \<Rightarrow> bytes \<Rightarrow> (bytes \<times> bytes) outcome" where
  "skip_raw rt l bs = obind (rt_Skip rt bs) (\<lambda>skippy.
     (let iNdEx = int l - int (length bs)
      in if skippy < 0 \<or> i64 (iNdEx + skippy) < 0 then Err ErrInvalidLength
         else if i64 (iNdEx + skippy) > int l then Err ErrUnexpectedEOF
         else Ok (take (nat skippy) bs, drop (nat skippy) bs)))"

definition keep_unknown ::
  "'c pulsar_ops \<Rightarrow> bool \<Rightarrow> nat \<Rightarrow> 'z api_message_scheme \<Rightarrow> bytes \<Rightarrow> ('z api_message_scheme \<times> bytes) outcome" where
  "keep_unknown rt discard l m bs = obind (skip_raw rt l bs) (\<lambda>(raw, rest).
     Ok (if discard then m else m\<lparr>unknownFields := Some (opt_bytes (unknownFields m) @ raw)\<rparr>, rest))"

text \<open>A nil message ignores the input.\<close>

definition unmarshal_frame ::
  "(nat \<Rightarrow> 'm \<Rightarrow> bytes \<Rightarrow> ('m \<times> bytes) outcome) \<Rightarrow> 'm option \<Rightarrow> bytes \<Rightarrow> 'm option outcome" where
  "unmarshal_frame step x dAtA =
     (case x of None \<Rightarrow> Ok None | Some m \<Rightarrow> obind (unmarshal step m dAtA) (\<lambda>m'. Ok (Some m')))"

text \<open>
  A length-delimited field: \<open>set\<close> stores its bytes. An embedded message is decoded into the one that
  is there, or into a new one.
\<close>

definition delim_field ::
  "nat \<Rightarrow> nat \<Rightarrow> bytes \<Rightarrow> (bytes \<Rightarrow> 'm outcome) \<Rightarrow> ('m \<times> bytes) outcome" where
  "delim_field l wireType rest store =
     (if wireType \<noteq> 2 then Err (ErrMsg ''proto: wrong wireType'')
      else obind (read_chunk l rest) (\<lambda>(bz, rest'). obind (store bz) (\<lambda>m. Ok (m, rest'))))"

definition sub_unmarshal :: "'a msg_ops \<Rightarrow> bool \<Rightarrow> 'a option \<Rightarrow> bytes \<Rightarrow> 'a outcome" where
  "sub_unmarshal mo discard x bz =
     mo_Unmarshal mo discard (case x of None \<Rightarrow> mo_new mo | Some m \<Rightarrow> m) bz"

end
