(* ===== verification/Pulsar_Abci.thy ===== *)
theory Pulsar_Abci
  imports Pulsar "HOL-Library.AList" "HOL-Library.Char_ord" "HOL-Library.List_Lexorder"
begin

text \<open>
  \<^verbatim>\<open>api/pob/abci/v1/auction.pulsar.go\<close>: the messages \<open>AuctionInfo\<close> and \<open>VoteExtensionInfo\<close>, the latter with
  a map from names to vote extensions. A loop over a Go map visits the keys in an order of the
  runtime's choice, another one each time: every loop takes that order as an argument.
\<close>

section \<open>Maps\<close>

text \<open>
  \<^verbatim>\<open>_VoteExtensionInfo_2_map\<close>: the view of the map that reflection hands out, a pointer to the map. The
  methods see whether a key is valid and its text. A method that changes the map returns it.
\<close>

record map_key =
  key_valid :: bool
  key_String :: string

definition string_key :: "string \<Rightarrow> map_key" where
  "string_key k = \<lparr>key_valid = True, key_String = k\<rparr>"

type_synonym go_order = "string list \<Rightarrow> string list"

definition api_map_Len :: "go_map option option \<Rightarrow> int" where
  "api_map_Len x = (case x of None \<Rightarrow> 0 | Some m \<Rightarrow> int (length (opt_list m)))"

text \<open>\<^verbatim>\<open>m[k]\<close>: nil for a missing key.\<close>

definition go_lookup :: "go_map \<Rightarrow> string \<Rightarrow> bytes option" where
  "go_lookup r k = (case map_of r k of None \<Rightarrow> None | Some v \<Rightarrow> v)"

fun map_visit ::
  "('s \<Rightarrow> map_key \<Rightarrow> ('c, 'p) Value \<Rightarrow> 's \<times> bool) \<Rightarrow> go_map \<Rightarrow> string list \<Rightarrow> 's \<Rightarrow> 's" where
  "map_visit f r [] s = s"
| "map_visit f r (k # ks) s =
     (case f s (string_key k) (ValueOfBytes (go_lookup r k)) of (s', go) \<Rightarrow> if go then map_visit f r ks s' else s')"

definition api_map_Range ::
  "go_order \<Rightarrow> go_map option option \<Rightarrow> ('s \<Rightarrow> map_key \<Rightarrow> ('c, 'p) Value \<Rightarrow> 's \<times> bool) \<Rightarrow> 's \<Rightarrow> 's" where
  "api_map_Range ord x f s =
     (case x of None \<Rightarrow> s | Some m \<Rightarrow> map_visit f (opt_list m) (ord (map fst (opt_list m))) s)"

definition api_map_Has :: "go_map option option \<Rightarrow> map_key \<Rightarrow> bool" where
  "api_map_Has x key = (case x of None \<Rightarrow> False | Some m \<Rightarrow> map_of (opt_list m) (key_String key) \<noteq> None)"

definition api_map_Clear :: "go_map option option \<Rightarrow> map_key \<Rightarrow> go_map option option" where
  "api_map_Clear x key = map_option (map_option (AList.delete (key_String key))) x"

definition api_map_Get :: "go_map option option \<Rightarrow> map_key \<Rightarrow> ('c, 'p) Value" where
  "api_map_Get x key =
     (case x of
        None \<Rightarrow> NoValue
      | Some m \<Rightarrow> (case map_of (opt_list m) (key_String key) of None \<Rightarrow> NoValue | Some v \<Rightarrow> ValueOfBytes v))"

definition api_map_Set ::
  "go_map option option \<Rightarrow> map_key \<Rightarrow> ('c, 'p) Value \<Rightarrow> go_map option option outcome" where
  "api_map_Set x key v =
     (if \<not> key_valid key \<or> (case v of NoValue \<Rightarrow> True | _ \<Rightarrow> False) then Panic ''invalid key or value provided''
      else obind (value_Bytes v) (\<lambda>concreteValue. deref x (\<lambda>m.
        case m of
          None \<Rightarrow> Panic ''assignment to entry in nil map''
        | Some r \<Rightarrow> Ok (Some (Some (AList.update (key_String key) concreteValue r))))))"

definition api_map_Mutable :: "map_key \<Rightarrow> ('c, 'p) Value outcome" where
  "api_map_Mutable key = Panic ''should not call Mutable''"

definition api_map_NewValue :: "('c, 'p) Value" where
  "api_map_NewValue = ValueOfBytes None"

definition api_map_IsValid :: "go_map option option \<Rightarrow> bool" where
  "api_map_IsValid x \<longleftrightarrow> x \<noteq> None"

section \<open>AuctionInfo\<close>

record api_AuctionInfo = api_message +
  ai_ExtendedCommitInfo :: "bytes option"
  ai_MaxTxBytes :: "64 word"
  ai_NumTxs :: "64 word"

definition api_AuctionInfo_Reset ::
  "api_AuctionInfo" where
  "api_AuctionInfo_Reset = \<lparr>unknownFields = None,
     ai_ExtendedCommitInfo = None, ai_MaxTxBytes = 0, ai_NumTxs = 0\<rparr>"

definition api_AuctionInfo_GetExtendedCommitInfo ::
  "api_AuctionInfo option \<Rightarrow> bytes option" where
  "api_AuctionInfo_GetExtendedCommitInfo x = (case x of None \<Rightarrow> None | Some m \<Rightarrow> ai_ExtendedCommitInfo m)"

definition api_AuctionInfo_GetMaxTxBytes ::
  "api_AuctionInfo option \<Rightarrow> 64 word" where
  "api_AuctionInfo_GetMaxTxBytes x = (case x of None \<Rightarrow> 0 | Some m \<Rightarrow> ai_MaxTxBytes m)"

definition api_AuctionInfo_GetNumTxs ::
  "api_AuctionInfo option \<Rightarrow> 64 word" where
  "api_AuctionInfo_GetNumTxs x = (case x of None \<Rightarrow> 0 | Some m \<Rightarrow> ai_NumTxs m)"

definition api_AuctionInfo_visits ::
  "api_AuctionInfo \<Rightarrow> (bool \<times> field_descriptor \<times> ('c, 'p) Value) list" where
  "api_AuctionInfo_visits m =
     [(opt_bytes (ai_ExtendedCommitInfo m) \<noteq> [], fd ''pob.abci.v1.AuctionInfo.extended_commit_info'', ValueOfBytes (ai_ExtendedCommitInfo m)),
      (ai_MaxTxBytes m \<noteq> 0, fd ''pob.abci.v1.AuctionInfo.max_tx_bytes'', ValueOfInt64 (ai_MaxTxBytes m)),
      (ai_NumTxs m \<noteq> 0, fd ''pob.abci.v1.AuctionInfo.num_txs'', ValueOfUint64 (ai_NumTxs m))]"

definition api_AuctionInfo_Range ::
  "api_AuctionInfo option \<Rightarrow> ('s \<Rightarrow> field_descriptor \<Rightarrow> ('c, 'p) Value \<Rightarrow> 's \<times> bool) \<Rightarrow> 's \<Rightarrow> 's outcome" where
  "api_AuctionInfo_Range x f s = deref x (\<lambda>m. Ok (visit f (api_AuctionInfo_visits m) s))"

definition api_AuctionInfo_Has ::
  "api_AuctionInfo option \<Rightarrow> field_descriptor \<Rightarrow> bool outcome" where
  "api_AuctionInfo_Has x d =
     (if FullName d = ''pob.abci.v1.AuctionInfo.extended_commit_info'' then
        deref x (\<lambda>m. Ok (opt_bytes (ai_ExtendedCommitInfo m) \<noteq> []))
      else if FullName d = ''pob.abci.v1.AuctionInfo.max_tx_bytes'' then
        deref x (\<lambda>m. Ok (ai_MaxTxBytes m \<noteq> 0))
      else if FullName d = ''pob.abci.v1.AuctionInfo.num_txs'' then
        deref x (\<lambda>m. Ok (ai_NumTxs m \<noteq> 0))
      else no_field ''pob.abci.v1.AuctionInfo'' d)"

definition api_AuctionInfo_Clear ::
  "api_AuctionInfo option \<Rightarrow> field_descriptor \<Rightarrow> api_AuctionInfo outcome" where
  "api_AuctionInfo_Clear x d =
     (if FullName d = ''pob.abci.v1.AuctionInfo.extended_commit_info'' then
        deref x (\<lambda>m. Ok (m\<lparr>ai_ExtendedCommitInfo := None\<rparr>))
      else if FullName d = ''pob.abci.v1.AuctionInfo.max_tx_bytes'' then
        deref x (\<lambda>m. Ok (m\<lparr>ai_MaxTxBytes := 0\<rparr>))
      else if FullName d = ''pob.abci.v1.AuctionInfo.num_txs'' then
        deref x (\<lambda>m. Ok (m\<lparr>ai_NumTxs := 0\<rparr>))
      else no_field ''pob.abci.v1.AuctionInfo'' d)"

definition api_AuctionInfo_Get ::
  "api_AuctionInfo option \<Rightarrow> field_descriptor \<Rightarrow> ('c, 'p) Value outcome" where
  "api_AuctionInfo_Get x d =
     (if FullName d = ''pob.abci.v1.AuctionInfo.extended_commit_info'' then
        deref x (\<lambda>m. Ok (ValueOfBytes (ai_ExtendedCommitInfo m)))
      else if FullName d = ''pob.abci.v1.AuctionInfo.max_tx_bytes'' then
        deref x (\<lambda>m. Ok (ValueOfInt64 (ai_MaxTxBytes m)))
      else if FullName d = ''pob.abci.v1.AuctionInfo.num_txs'' then
        deref x (\<lambda>m. Ok (ValueOfUint64 (ai_NumTxs m)))
      else no_field ''pob.abci.v1.AuctionInfo'' d)"

definition api_AuctionInfo_Set ::
  "api_AuctionInfo option \<Rightarrow> field_descriptor \<Rightarrow> ('c, 'p) Value \<Rightarrow> api_AuctionInfo outcome" where
  "api_AuctionInfo_Set x d v =
     (if FullName d = ''pob.abci.v1.AuctionInfo.extended_commit_info'' then
        obind (value_Bytes v) (\<lambda>y. deref x (\<lambda>m. Ok (m\<lparr>ai_ExtendedCommitInfo := y\<rparr>)))
      else if FullName d = ''pob.abci.v1.AuctionInfo.max_tx_bytes'' then
        obind (value_Int v) (\<lambda>y. deref x (\<lambda>m. Ok (m\<lparr>ai_MaxTxBytes := y\<rparr>)))
      else if FullName d = ''pob.abci.v1.AuctionInfo.num_txs'' then
        obind (value_Uint v) (\<lambda>y. deref x (\<lambda>m. Ok (m\<lparr>ai_NumTxs := y\<rparr>)))
      else no_field ''pob.abci.v1.AuctionInfo'' d)"

definition api_AuctionInfo_Mutable ::
  "api_AuctionInfo option \<Rightarrow> field_descriptor \<Rightarrow> (api_AuctionInfo \<times> ('c, 'p) Value) outcome" where
  "api_AuctionInfo_Mutable x d =
     (if FullName d = ''pob.abci.v1.AuctionInfo.extended_commit_info'' then
        not_mutable ''extended_commit_info''
      else if FullName d = ''pob.abci.v1.AuctionInfo.max_tx_bytes'' then
        not_mutable ''max_tx_bytes''
      else if FullName d = ''pob.abci.v1.AuctionInfo.num_txs'' then
        not_mutable ''num_txs''
      else no_field ''pob.abci.v1.AuctionInfo'' d)"

definition api_AuctionInfo_NewField ::
  "field_descriptor \<Rightarrow> ('c, 'p) Value outcome" where
  "api_AuctionInfo_NewField d =
     (if FullName d = ''pob.abci.v1.AuctionInfo.extended_commit_info'' then
        Ok (ValueOfBytes None)
      else if FullName d = ''pob.abci.v1.AuctionInfo.max_tx_bytes'' then
        Ok (ValueOfInt64 0)
      else if FullName d = ''pob.abci.v1.AuctionInfo.num_txs'' then
        Ok (ValueOfUint64 0)
      else no_field ''pob.abci.v1.AuctionInfo'' d)"

definition api_AuctionInfo_WhichOneof ::
  "string \<Rightarrow> field_descriptor outcome" where
  "api_AuctionInfo_WhichOneof d = no_oneof ''pob.abci.v1.AuctionInfo'' d"

definition api_AuctionInfo_size ::
  "'c pulsar_ops \<Rightarrow> api_AuctionInfo option \<Rightarrow> int" where
  "api_AuctionInfo_size rt x =
     (case x of None \<Rightarrow> 0 | Some m \<Rightarrow>
        delim_size_opt rt (int (length (opt_bytes (ai_ExtendedCommitInfo m)))) +
        (if ai_MaxTxBytes m \<noteq> 0 then 1 + int (rt_Sov rt (ai_MaxTxBytes m)) else 0) +
        (if ai_NumTxs m \<noteq> 0 then 1 + int (rt_Sov rt (ai_NumTxs m)) else 0) +
        unknown_size m)"

definition api_AuctionInfo_writer ::
  "'c pulsar_ops \<Rightarrow> api_AuctionInfo \<Rightarrow> writer" where
  "api_AuctionInfo_writer rt m =
     seq_w (w_unknown m) (
     seq_w (if ai_NumTxs m \<noteq> 0 then seq_w (rt_EncodeVarint rt (ai_NumTxs m)) (w_byte 0x18) else skip_w) (
     seq_w (if ai_MaxTxBytes m \<noteq> 0 then seq_w (rt_EncodeVarint rt (ai_MaxTxBytes m)) (w_byte 0x10) else skip_w) (
     w_delim_opt rt 0x0a (opt_bytes (ai_ExtendedCommitInfo m)))))"

definition api_AuctionInfo_marshal ::
  "'c pulsar_ops \<Rightarrow> api_AuctionInfo option \<Rightarrow> bytes option \<Rightarrow> bytes option outcome" where
  "api_AuctionInfo_marshal rt x buf = marshal_frame (api_AuctionInfo_size rt) (api_AuctionInfo_writer rt) x buf"

definition api_AuctionInfo_field ::
  "'c pulsar_ops \<Rightarrow> bool \<Rightarrow> nat \<Rightarrow> api_AuctionInfo \<Rightarrow> bytes \<Rightarrow> (api_AuctionInfo \<times> bytes) outcome" where
  "api_AuctionInfo_field rt discard l m bs = obind (decode_tag bs) (\<lambda>(fieldNum, wireType, rest).
     if fieldNum = 1 then
       (delim_field l wireType rest (\<lambda>bz. Ok (m\<lparr>ai_ExtendedCommitInfo := Some bz\<rparr>)))
     else if fieldNum = 2 then
       (if wireType \<noteq> 0 then Err (ErrMsg ''proto: wrong wireType'')
        else obind (decode_varint 0 (0 :: 64 word) rest) (\<lambda>(v, rest'). Ok (m\<lparr>ai_MaxTxBytes := v\<rparr>, rest')))
     else if fieldNum = 3 then
       (if wireType \<noteq> 0 then Err (ErrMsg ''proto: wrong wireType'')
        else obind (decode_varint 0 (0 :: 64 word) rest) (\<lambda>(v, rest'). Ok (m\<lparr>ai_NumTxs := v\<rparr>, rest')))
     else keep_unknown rt discard l m bs)"

definition api_AuctionInfo_unmarshal ::
  "'c pulsar_ops \<Rightarrow> bool \<Rightarrow> api_AuctionInfo option \<Rightarrow> bytes \<Rightarrow> api_AuctionInfo option outcome" where
  "api_AuctionInfo_unmarshal rt discard x dAtA = unmarshal_frame (api_AuctionInfo_field rt discard) x dAtA"

section \<open>VoteExtensionInfo\<close>

record api_VoteExtensionInfo = api_message +
  vx_Registry :: "go_map option"

definition api_VoteExtensionInfo_Reset ::
  "api_VoteExtensionInfo" where
  "api_VoteExtensionInfo_Reset = \<lparr>unknownFields = None,
     vx_Registry = None\<rparr>"

definition api_VoteExtensionInfo_GetRegistry ::
  "api_VoteExtensionInfo option \<Rightarrow> go_map option" where
  "api_VoteExtensionInfo_GetRegistry x = (case x of None \<Rightarrow> None | Some m \<Rightarrow> vx_Registry m)"

definition api_VoteExtensionInfo_visits ::
  "api_VoteExtensionInfo \<Rightarrow> (bool \<times> field_descriptor \<times> ('c, 'p) Value) list" where
  "api_VoteExtensionInfo_visits m =
     [(opt_list (vx_Registry m) \<noteq> [], fd ''pob.abci.v1.VoteExtensionInfo.registry'', ValueOfMap (Some (vx_Registry m)))]"

definition api_VoteExtensionInfo_Range ::
  "api_VoteExtensionInfo option \<Rightarrow> ('s \<Rightarrow> field_descriptor \<Rightarrow> ('c, 'p) Value \<Rightarrow> 's \<times> bool) \<Rightarrow> 's \<Rightarrow> 's outcome" where
  "api_VoteExtensionInfo_Range x f s = deref x (\<lambda>m. Ok (visit f (api_VoteExtensionInfo_visits m) s))"

definition api_VoteExtensionInfo_Has ::
  "api_VoteExtensionInfo option \<Rightarrow> field_descriptor \<Rightarrow> bool outcome" where
  "api_VoteExtensionInfo_Has x d =
     (if FullName d = ''pob.abci.v1.VoteExtensionInfo.registry'' then
        deref x (\<lambda>m. Ok (opt_list (vx_Registry m) \<noteq> []))
      else no_field ''pob.abci.v1.VoteExtensionInfo'' d)"

definition api_VoteExtensionInfo_Clear ::
  "api_VoteExtensionInfo option \<Rightarrow> field_descriptor \<Rightarrow> api_VoteExtensionInfo outcome" where
  "api_VoteExtensionInfo_Clear x d =
     (if FullName d = ''pob.abci.v1.VoteExtensionInfo.registry'' then
        deref x (\<lambda>m. Ok (m\<lparr>vx_Registry := None\<rparr>))
      else no_field ''pob.abci.v1.VoteExtensionInfo'' d)"

definition api_VoteExtensionInfo_Get ::
  "api_VoteExtensionInfo option \<Rightarrow> field_descriptor \<Rightarrow> ('c, 'p) Value outcome" where
  "api_VoteExtensionInfo_Get x d =
     (if FullName d = ''pob.abci.v1.VoteExtensionInfo.registry'' then
        deref x (\<lambda>m. Ok (if opt_list (vx_Registry m) = [] then ValueOfMap None else ValueOfMap (Some (vx_Registry m))))
      else no_field ''pob.abci.v1.VoteExtensionInfo'' d)"

definition api_VoteExtensionInfo_Set ::
  "api_VoteExtensionInfo option \<Rightarrow> field_descriptor \<Rightarrow> ('c, 'p) Value \<Rightarrow> api_VoteExtensionInfo outcome" where
  "api_VoteExtensionInfo_Set x d v =
     (if FullName d = ''pob.abci.v1.VoteExtensionInfo.registry'' then
        obind (value_Map v) (\<lambda>cmv. deref cmv (\<lambda>mp. deref x (\<lambda>m. Ok (m\<lparr>vx_Registry := mp\<rparr>))))
      else no_field ''pob.abci.v1.VoteExtensionInfo'' d)"

definition api_VoteExtensionInfo_Mutable ::
  "api_VoteExtensionInfo option \<Rightarrow> field_descriptor \<Rightarrow> (api_VoteExtensionInfo \<times> ('c, 'p) Value) outcome" where
  "api_VoteExtensionInfo_Mutable x d =
     (if FullName d = ''pob.abci.v1.VoteExtensionInfo.registry'' then
        deref x (\<lambda>m. let m' = (if vx_Registry m = None then m\<lparr>vx_Registry := Some []\<rparr> else m)
          in Ok (m', ValueOfMap (Some (vx_Registry m'))))
      else no_field ''pob.abci.v1.VoteExtensionInfo'' d)"

definition api_VoteExtensionInfo_NewField ::
  "field_descriptor \<Rightarrow> ('c, 'p) Value outcome" where
  "api_VoteExtensionInfo_NewField d =
     (if FullName d = ''pob.abci.v1.VoteExtensionInfo.registry'' then
        Ok (ValueOfMap (Some (Some [])))
      else no_field ''pob.abci.v1.VoteExtensionInfo'' d)"

definition api_VoteExtensionInfo_WhichOneof ::
  "string \<Rightarrow> field_descriptor outcome" where
  "api_VoteExtensionInfo_WhichOneof d = no_oneof ''pob.abci.v1.VoteExtensionInfo'' d"

text \<open>
  The keys in the order in which the loops over the registry use them: sorted if the output is to be
  deterministic.
\<close>

definition registry_keys :: "go_order \<Rightarrow> bool \<Rightarrow> go_map \<Rightarrow> string list" where
  "registry_keys ord deterministic r =
     (if deterministic then sort (ord (map fst r)) else ord (map fst r))"

definition SiZeMaP :: "'c pulsar_ops \<Rightarrow> string \<Rightarrow> bytes option \<Rightarrow> int" where
  "SiZeMaP rt k v =
     (let l = 1 + int (length (opt_bytes v)) + int (rt_Sov rt (of_nat (length (opt_bytes v))));
          mapEntrySize = 1 + int (length k) + int (rt_Sov rt (of_nat (length k))) + l
      in mapEntrySize + 1 + int (rt_Sov rt (word_of_int mapEntrySize)))"

definition api_VoteExtensionInfo_size ::
  "'c pulsar_ops \<Rightarrow> go_order \<Rightarrow> bool \<Rightarrow> api_VoteExtensionInfo option \<Rightarrow> int" where
  "api_VoteExtensionInfo_size rt ord deterministic x =
     (case x of None \<Rightarrow> 0 | Some m \<Rightarrow>
        (let r = opt_list (vx_Registry m)
         in if length r > 0 then \<Sum>k\<leftarrow>registry_keys ord deterministic r. SiZeMaP rt k (go_lookup r k) else 0) +
        unknown_size m)"

text \<open>One entry, with its length \<^verbatim>\<open>baseI-i\<close> in front.\<close>

definition MaRsHaLmAp :: "'c pulsar_ops \<Rightarrow> string \<Rightarrow> bytes option \<Rightarrow> writer" where
  "MaRsHaLmAp rt k v = (\<lambda>(dAtA, baseI).
     obind (seq_w (w_delim rt 0x12 (opt_bytes v)) (w_delim rt 0x0a (str_bytes k)) (dAtA, baseI)) (\<lambda>(dAtA', i).
       seq_w (rt_EncodeVarint rt (word_of_int (baseI - i))) (w_byte 0x12) (dAtA', i)))"

fun registry_writer :: "'c pulsar_ops \<Rightarrow> go_map \<Rightarrow> string list \<Rightarrow> writer" where
  "registry_writer rt r [] = skip_w"
| "registry_writer rt r (k # ks) = seq_w (MaRsHaLmAp rt k (go_lookup r k)) (registry_writer rt r ks)"

text \<open>The sorted keys are used from the last to the first, unsorted ones as they come.\<close>

definition api_VoteExtensionInfo_writer ::
  "'c pulsar_ops \<Rightarrow> go_order \<Rightarrow> bool \<Rightarrow> api_VoteExtensionInfo \<Rightarrow> writer" where
  "api_VoteExtensionInfo_writer rt ord deterministic m =
     seq_w (w_unknown m)
       (let r = opt_list (vx_Registry m); ks = registry_keys ord deterministic r
        in if length r > 0 then registry_writer rt r (if deterministic then rev ks else ks) else skip_w)"

definition api_VoteExtensionInfo_marshal ::
  "'c pulsar_ops \<Rightarrow> go_order \<Rightarrow> go_order \<Rightarrow> bool \<Rightarrow> api_VoteExtensionInfo option \<Rightarrow> bytes option \<Rightarrow> bytes option outcome" where
  "api_VoteExtensionInfo_marshal rt size_ord ord deterministic x buf =
     marshal_frame (api_VoteExtensionInfo_size rt size_ord deterministic)
       (api_VoteExtensionInfo_writer rt ord deterministic) x buf"

text \<open>
  An entry of the registry: a loop over its fields from \<^verbatim>\<open>iNdEx\<close> to \<^verbatim>\<open>postIndex\<close>, in a slice of length \<open>l\<close> of
  which \<open>bs\<close> is left. The lengths of key and value are compared with \<open>l\<close>, not with \<^verbatim>\<open>postIndex\<close>.
\<close>

definition entry_field ::
  "'c pulsar_ops \<Rightarrow> nat \<Rightarrow> int \<Rightarrow> string \<times> bytes option \<Rightarrow> bytes \<Rightarrow> ((string \<times> bytes option) \<times> bytes) outcome" where
  "entry_field rt l postIndex entry bs = obind (decode_varint 0 (0 :: 64 word) bs) (\<lambda>(wire, rest).
     (let fieldNum = sint (ucast (drop_bit 3 wire) :: 32 word)
      in if fieldNum = 1 then
           obind (read_chunk l rest) (\<lambda>(bz, rest'). Ok ((bytes_str bz, snd entry), rest'))
         else if fieldNum = 2 then
           obind (read_chunk l rest) (\<lambda>(bz, rest'). Ok ((fst entry, Some bz), rest'))
         else obind (rt_Skip rt bs) (\<lambda>skippy.
           let iNdEx = int l - int (length bs)
           in if skippy < 0 \<or> i64 (iNdEx + skippy) < 0 then Err ErrInvalidLength
              else if i64 (iNdEx + skippy) > postIndex then Err ErrUnexpectedEOF
              else Ok (entry, drop (nat skippy) bs))))"

primrec entry_loop ::
  "nat \<Rightarrow> 'c pulsar_ops \<Rightarrow> nat \<Rightarrow> int \<Rightarrow> string \<times> bytes option \<Rightarrow> bytes \<Rightarrow> (string \<times> bytes option) outcome" where
  "entry_loop 0 rt l postIndex entry bs =
     (if int l - int (length bs) < postIndex then Panic ''out of fuel'' else Ok entry)"
| "entry_loop (Suc n) rt l postIndex entry bs =
     (if int l - int (length bs) < postIndex then
        obind (entry_field rt l postIndex entry bs) (\<lambda>(entry', rest). entry_loop n rt l postIndex entry' rest)
      else Ok entry)"

definition api_VoteExtensionInfo_field ::
  "'c pulsar_ops \<Rightarrow> bool \<Rightarrow> nat \<Rightarrow> api_VoteExtensionInfo \<Rightarrow> bytes \<Rightarrow> (api_VoteExtensionInfo \<times> bytes) outcome" where
  "api_VoteExtensionInfo_field rt discard l m bs = obind (decode_tag bs) (\<lambda>(fieldNum, wireType, rest).
     if fieldNum = 2 then
       (if wireType \<noteq> 2 then Err (ErrMsg ''proto: wrong wireType'')
        else obind (read_chunk l rest) (\<lambda>(bz, rest').
          obind (entry_loop (length (bz @ rest')) rt l (int l - int (length rest')) ('''', None) (bz @ rest'))
            (\<lambda>(mapkey, mapvalue).
              Ok (m\<lparr>vx_Registry := Some (AList.update mapkey mapvalue (opt_list (vx_Registry m)))\<rparr>, rest'))))
     else keep_unknown rt discard l m bs)"

definition api_VoteExtensionInfo_unmarshal ::
  "'c pulsar_ops \<Rightarrow> bool \<Rightarrow> api_VoteExtensionInfo option \<Rightarrow> bytes \<Rightarrow> api_VoteExtensionInfo option outcome" where
  "api_VoteExtensionInfo_unmarshal rt discard x dAtA = unmarshal_frame (api_VoteExtensionInfo_field rt discard) x dAtA"

end
