(* ===== verification/Pulsar_Genesis.thy ===== *)
theory Pulsar_Genesis
  imports Pulsar
begin

text \<open>
  \<^verbatim>\<open>api/pob/builder/v1/genesis.pulsar.go\<close>: the messages \<open>Params\<close> and \<open>GenesisState\<close> of the API
  package, with the methods of their fast reflection and of the wire.
\<close>

section \<open>Params\<close>

record 'c api_Params = api_message +
  pm_MaxBundleSize :: "32 word"
  pm_EscrowAccountAddress :: "bytes option"
  pm_ReserveFee :: "'c option"
  pm_MinBidIncrement :: "'c option"
  pm_FrontRunningProtection :: "bool"
  pm_ProposerFee :: "string"

definition api_Params_Reset ::
  "'c api_Params" where
  "api_Params_Reset = \<lparr>unknownFields = None,
     pm_MaxBundleSize = 0, pm_EscrowAccountAddress = None, pm_ReserveFee = None,
     pm_MinBidIncrement = None, pm_FrontRunningProtection = False, pm_ProposerFee = ''''\<rparr>"

definition api_Params_GetMaxBundleSize ::
  "'c api_Params option \<Rightarrow> 32 word" where
  "api_Params_GetMaxBundleSize x = (case x of None \<Rightarrow> 0 | Some m \<Rightarrow> pm_MaxBundleSize m)"

definition api_Params_GetEscrowAccountAddress ::
  "'c api_Params option \<Rightarrow> bytes option" where
  "api_Params_GetEscrowAccountAddress x = (case x of None \<Rightarrow> None | Some m \<Rightarrow> pm_EscrowAccountAddress m)"

definition api_Params_GetReserveFee ::
  "'c api_Params option \<Rightarrow> 'c option" where
  "api_Params_GetReserveFee x = (case x of None \<Rightarrow> None | Some m \<Rightarrow> pm_ReserveFee m)"

definition api_Params_GetMinBidIncrement ::
  "'c api_Params option \<Rightarrow> 'c option" where
  "api_Params_GetMinBidIncrement x = (case x of None \<Rightarrow> None | Some m \<Rightarrow> pm_MinBidIncrement m)"

definition api_Params_GetFrontRunningProtection ::
  "'c api_Params option \<Rightarrow> bool" where
  "api_Params_GetFrontRunningProtection x = (case x of None \<Rightarrow> False | Some m \<Rightarrow> pm_FrontRunningProtection m)"

definition api_Params_GetProposerFee ::
  "'c api_Params option \<Rightarrow> string" where
  "api_Params_GetProposerFee x = (case x of None \<Rightarrow> '''' | Some m \<Rightarrow> pm_ProposerFee m)"

definition api_Params_visits ::
  "'c api_Params \<Rightarrow> (bool \<times> field_descriptor \<times> ('c, 'p) Value) list" where
  "api_Params_visits m =
     [(pm_MaxBundleSize m \<noteq> 0, fd ''pob.builder.v1.Params.max_bundle_size'', ValueOfUint32 (pm_MaxBundleSize m)),
      (opt_bytes (pm_EscrowAccountAddress m) \<noteq> [], fd ''pob.builder.v1.Params.escrow_account_address'', ValueOfBytes (pm_EscrowAccountAddress m)),
      (pm_ReserveFee m \<noteq> None, fd ''pob.builder.v1.Params.reserve_fee'', ValueOfMessage (CoinMessage (pm_ReserveFee m))),
      (pm_MinBidIncrement m \<noteq> None, fd ''pob.builder.v1.Params.min_bid_increment'', ValueOfMessage (CoinMessage (pm_MinBidIncrement m))),
      (pm_FrontRunningProtection m, fd ''pob.builder.v1.Params.front_running_protection'', ValueOfBool (pm_FrontRunningProtection m)),
      (pm_ProposerFee m \<noteq> '''', fd ''pob.builder.v1.Params.proposer_fee'', ValueOfString (pm_ProposerFee m))]"

definition api_Params_Range ::
  "'c api_Params option \<Rightarrow> ('s \<Rightarrow> field_descriptor \<Rightarrow> ('c, 'p) Value \<Rightarrow> 's \<times> bool) \<Rightarrow> 's \<Rightarrow> 's outcome" where
  "api_Params_Range x f s = deref x (\<lambda>m. Ok (visit f (api_Params_visits m) s))"

definition api_Params_Has ::
  "'c api_Params option \<Rightarrow> field_descriptor \<Rightarrow> bool outcome" where
  "api_Params_Has x d =
     (if FullName d = ''pob.builder.v1.Params.max_bundle_size'' then
        deref x (\<lambda>m. Ok (pm_MaxBundleSize m \<noteq> 0))
      else if FullName d = ''pob.builder.v1.Params.escrow_account_address'' then
        deref x (\<lambda>m. Ok (opt_bytes (pm_EscrowAccountAddress m) \<noteq> []))
      else if FullName d = ''pob.builder.v1.Params.reserve_fee'' then
        deref x (\<lambda>m. Ok (pm_ReserveFee m \<noteq> None))
      else if FullName d = ''pob.builder.v1.Params.min_bid_increment'' then
        deref x (\<lambda>m. Ok (pm_MinBidIncrement m \<noteq> None))
      else if FullName d = ''pob.builder.v1.Params.front_running_protection'' then
        deref x (\<lambda>m. Ok (pm_FrontRunningProtection m))
      else if FullName d = ''pob.builder.v1.Params.proposer_fee'' then
        deref x (\<lambda>m. Ok (pm_ProposerFee m \<noteq> ''''))
      else no_field ''pob.builder.v1.Params'' d)"

definition api_Params_Clear ::
  "'c api_Params option \<Rightarrow> field_descriptor \<Rightarrow> 'c api_Params outcome" where
  "api_Params_Clear x d =
     (if FullName d = ''pob.builder.v1.Params.max_bundle_size'' then
        deref x (\<lambda>m. Ok (m\<lparr>pm_MaxBundleSize := 0\<rparr>))
      else if FullName d = ''pob.builder.v1.Params.escrow_account_address'' then
        deref x (\<lambda>m. Ok (m\<lparr>pm_EscrowAccountAddress := None\<rparr>))
      else if FullName d = ''pob.builder.v1.Params.reserve_fee'' then
        deref x (\<lambda>m. Ok (m\<lparr>pm_ReserveFee := None\<rparr>))
      else if FullName d = ''pob.builder.v1.Params.min_bid_increment'' then
        deref x (\<lambda>m. Ok (m\<lparr>pm_MinBidIncrement := None\<rparr>))
      else if FullName d = ''pob.builder.v1.Params.front_running_protection'' then
        deref x (\<lambda>m. Ok (m\<lparr>pm_FrontRunningProtection := False\<rparr>))
      else if FullName d = ''pob.builder.v1.Params.proposer_fee'' then
        deref x (\<lambda>m. Ok (m\<lparr>pm_ProposerFee := ''''\<rparr>))
      else no_field ''pob.builder.v1.Params'' d)"

definition api_Params_Get ::
  "'c api_Params option \<Rightarrow> field_descriptor \<Rightarrow> ('c, 'p) Value outcome" where
  "api_Params_Get x d =
     (if FullName d = ''pob.builder.v1.Params.max_bundle_size'' then
        deref x (\<lambda>m. Ok (ValueOfUint32 (pm_MaxBundleSize m)))
      else if FullName d = ''pob.builder.v1.Params.escrow_account_address'' then
        deref x (\<lambda>m. Ok (ValueOfBytes (pm_EscrowAccountAddress m)))
      else if FullName d = ''pob.builder.v1.Params.reserve_fee'' then
        deref x (\<lambda>m. Ok (ValueOfMessage (CoinMessage (pm_ReserveFee m))))
      else if FullName d = ''pob.builder.v1.Params.min_bid_increment'' then
        deref x (\<lambda>m. Ok (ValueOfMessage (CoinMessage (pm_MinBidIncrement m))))
      else if FullName d = ''pob.builder.v1.Params.front_running_protection'' then
        deref x (\<lambda>m. Ok (ValueOfBool (pm_FrontRunningProtection m)))
      else if FullName d = ''pob.builder.v1.Params.proposer_fee'' then
        deref x (\<lambda>m. Ok (ValueOfString (pm_ProposerFee m)))
      else no_field ''pob.builder.v1.Params'' d)"

definition api_Params_Set ::
  "'c api_Params option \<Rightarrow> field_descriptor \<Rightarrow> ('c, 'p) Value \<Rightarrow> 'c api_Params outcome" where
  "api_Params_Set x d v =
     (if FullName d = ''pob.builder.v1.Params.max_bundle_size'' then
        obind (value_Uint v) (\<lambda>y. deref x (\<lambda>m. Ok (m\<lparr>pm_MaxBundleSize := ucast y\<rparr>)))
      else if FullName d = ''pob.builder.v1.Params.escrow_account_address'' then
        obind (value_Bytes v) (\<lambda>y. deref x (\<lambda>m. Ok (m\<lparr>pm_EscrowAccountAddress := y\<rparr>)))
      else if FullName d = ''pob.builder.v1.Params.reserve_fee'' then
        obind (value_coin v) (\<lambda>y. deref x (\<lambda>m. Ok (m\<lparr>pm_ReserveFee := y\<rparr>)))
      else if FullName d = ''pob.builder.v1.Params.min_bid_increment'' then
        obind (value_coin v) (\<lambda>y. deref x (\<lambda>m. Ok (m\<lparr>pm_MinBidIncrement := y\<rparr>)))
      else if FullName d = ''pob.builder.v1.Params.front_running_protection'' then
        obind (value_Bool v) (\<lambda>y. deref x (\<lambda>m. Ok (m\<lparr>pm_FrontRunningProtection := y\<rparr>)))
      else if FullName d = ''pob.builder.v1.Params.proposer_fee'' then
        obind (value_string v) (\<lambda>y. deref x (\<lambda>m. Ok (m\<lparr>pm_ProposerFee := y\<rparr>)))
      else no_field ''pob.builder.v1.Params'' d)"

definition api_Params_Mutable ::
  "'c pulsar_ops \<Rightarrow> 'c api_Params option \<Rightarrow> field_descriptor \<Rightarrow> ('c api_Params \<times> ('c, 'p) Value) outcome" where
  "api_Params_Mutable rt x d =
     (if FullName d = ''pob.builder.v1.Params.reserve_fee'' then
        deref x (\<lambda>m. let m' = (if pm_ReserveFee m = None then m\<lparr>pm_ReserveFee := Some (mo_new (rt_coin rt))\<rparr> else m)
          in Ok (m', ValueOfMessage (CoinMessage (pm_ReserveFee m'))))
      else if FullName d = ''pob.builder.v1.Params.min_bid_increment'' then
        deref x (\<lambda>m. let m' = (if pm_MinBidIncrement m = None then m\<lparr>pm_MinBidIncrement := Some (mo_new (rt_coin rt))\<rparr> else m)
          in Ok (m', ValueOfMessage (CoinMessage (pm_MinBidIncrement m'))))
      else if FullName d = ''pob.builder.v1.Params.max_bundle_size'' then
        not_mutable ''max_bundle_size''
      else if FullName d = ''pob.builder.v1.Params.escrow_account_address'' then
        not_mutable ''escrow_account_address''
      else if FullName d = ''pob.builder.v1.Params.front_running_protection'' then
        not_mutable ''front_running_protection''
      else if FullName d = ''pob.builder.v1.Params.proposer_fee'' then
        not_mutable ''proposer_fee''
      else no_field ''pob.builder.v1.Params'' d)"

definition api_Params_NewField ::
  "'c pulsar_ops \<Rightarrow> field_descriptor \<Rightarrow> ('c, 'p) Value outcome" where
  "api_Params_NewField rt d =
     (if FullName d = ''pob.builder.v1.Params.max_bundle_size'' then
        Ok (ValueOfUint32 0)
      else if FullName d = ''pob.builder.v1.Params.escrow_account_address'' then
        Ok (ValueOfBytes None)
      else if FullName d = ''pob.builder.v1.Params.reserve_fee'' then
        Ok (ValueOfMessage (CoinMessage (Some (mo_new (rt_coin rt)))))
      else if FullName d = ''pob.builder.v1.Params.min_bid_increment'' then
        Ok (ValueOfMessage (CoinMessage (Some (mo_new (rt_coin rt)))))
      else if FullName d = ''pob.builder.v1.Params.front_running_protection'' then
        Ok (ValueOfBool False)
      else if FullName d = ''pob.builder.v1.Params.proposer_fee'' then
        Ok (ValueOfString '''')
      else no_field ''pob.builder.v1.Params'' d)"

definition api_Params_WhichOneof ::
  "string \<Rightarrow> field_descriptor outcome" where
  "api_Params_WhichOneof d = no_oneof ''pob.builder.v1.Params'' d"

definition api_Params_size ::
  "'c pulsar_ops \<Rightarrow> 'c api_Params option \<Rightarrow> int" where
  "api_Params_size rt x =
     (case x of None \<Rightarrow> 0 | Some m \<Rightarrow>
        (if pm_MaxBundleSize m \<noteq> 0 then 1 + int (rt_Sov rt (ucast (pm_MaxBundleSize m))) else 0) +
        delim_size_opt rt (int (length (opt_bytes (pm_EscrowAccountAddress m)))) +
        sub_size rt (rt_coin rt) (pm_ReserveFee m) +
        sub_size rt (rt_coin rt) (pm_MinBidIncrement m) +
        (if pm_FrontRunningProtection m then 2 else 0) +
        delim_size_opt rt (int (length (pm_ProposerFee m))) +
        unknown_size m)"

definition api_Params_writer ::
  "'c pulsar_ops \<Rightarrow> 'c api_Params \<Rightarrow> writer" where
  "api_Params_writer rt m =
     seq_w (w_unknown m) (
     seq_w (w_delim_opt rt 0x32 (str_bytes (pm_ProposerFee m))) (
     seq_w (if pm_FrontRunningProtection m then seq_w (w_byte (if pm_FrontRunningProtection m then 1 else 0)) (w_byte 0x28) else skip_w) (
     seq_w (w_sub rt (rt_coin rt) 0x22 (pm_MinBidIncrement m)) (
     seq_w (w_sub rt (rt_coin rt) 0x1a (pm_ReserveFee m)) (
     seq_w (w_delim_opt rt 0x12 (opt_bytes (pm_EscrowAccountAddress m))) (
     if pm_MaxBundleSize m \<noteq> 0 then seq_w (rt_EncodeVarint rt (ucast (pm_MaxBundleSize m))) (w_byte 0x08) else skip_w))))))"

definition api_Params_marshal ::
  "'c pulsar_ops \<Rightarrow> 'c api_Params option \<Rightarrow> bytes option \<Rightarrow> bytes option outcome" where
  "api_Params_marshal rt x buf = marshal_frame (api_Params_size rt) (api_Params_writer rt) x buf"

definition api_Params_field ::
  "'c pulsar_ops \<Rightarrow> bool \<Rightarrow> nat \<Rightarrow> 'c api_Params \<Rightarrow> bytes \<Rightarrow> ('c api_Params \<times> bytes) outcome" where
  "api_Params_field rt discard l m bs = obind (decode_tag bs) (\<lambda>(fieldNum, wireType, rest).
     if fieldNum = 1 then
       (if wireType \<noteq> 0 then Err (ErrMsg ''proto: wrong wireType'')
        else obind (decode_varint 0 (0 :: 32 word) rest) (\<lambda>(v, rest'). Ok (m\<lparr>pm_MaxBundleSize := v\<rparr>, rest')))
     else if fieldNum = 2 then
       (delim_field l wireType rest (\<lambda>bz. Ok (m\<lparr>pm_EscrowAccountAddress := Some bz\<rparr>)))
     else if fieldNum = 3 then
       (delim_field l wireType rest (\<lambda>bz.
          obind (sub_unmarshal (rt_coin rt) discard (pm_ReserveFee m) bz) (\<lambda>c. Ok (m\<lparr>pm_ReserveFee := Some c\<rparr>))))
     else if fieldNum = 4 then
       (delim_field l wireType rest (\<lambda>bz.
          obind (sub_unmarshal (rt_coin rt) discard (pm_MinBidIncrement m) bz) (\<lambda>c. Ok (m\<lparr>pm_MinBidIncrement := Some c\<rparr>))))
     else if fieldNum = 5 then
       (if wireType \<noteq> 0 then Err (ErrMsg ''proto: wrong wireType'')
        else obind (decode_varint 0 (0 :: 64 word) rest) (\<lambda>(v, rest'). Ok (m\<lparr>pm_FrontRunningProtection := (v \<noteq> 0)\<rparr>, rest')))
     else if fieldNum = 6 then
       (delim_field l wireType rest (\<lambda>bz. Ok (m\<lparr>pm_ProposerFee := bytes_str bz\<rparr>)))
     else keep_unknown rt discard l m bs)"

definition api_Params_unmarshal ::
  "'c pulsar_ops \<Rightarrow> bool \<Rightarrow> 'c api_Params option \<Rightarrow> bytes \<Rightarrow> 'c api_Params option outcome" where
  "api_Params_unmarshal rt discard x dAtA = unmarshal_frame (api_Params_field rt discard) x dAtA"

text \<open>The methods as an enclosing message reaches them.\<close>

definition api_Params_ops ::
  "'c pulsar_ops \<Rightarrow> 'c api_Params msg_ops" where
  "api_Params_ops rt = \<lparr>mo_new = api_Params_Reset, mo_Size = (\<lambda>m. api_Params_size rt (Some m)),
     mo_Marshal = own_bytes (api_Params_marshal rt), mo_Unmarshal = (\<lambda>discard. unmarshal (api_Params_field rt discard))\<rparr>"

section \<open>GenesisState\<close>

record 'c api_GenesisState = api_message +
  gn_Params :: "'c api_Params option"

definition api_GenesisState_Reset ::
  "'c api_GenesisState" where
  "api_GenesisState_Reset = \<lparr>unknownFields = None,
     gn_Params = None\<rparr>"

definition api_GenesisState_GetParams ::
  "'c api_GenesisState option \<Rightarrow> 'c api_Params option" where
  "api_GenesisState_GetParams x = (case x of None \<Rightarrow> None | Some m \<Rightarrow> gn_Params m)"

definition api_GenesisState_visits ::
  "'c api_GenesisState \<Rightarrow> (bool \<times> field_descriptor \<times> ('c, 'c api_Params) Value) list" where
  "api_GenesisState_visits m =
     [(gn_Params m \<noteq> None, fd ''pob.builder.v1.GenesisState.params'', ValueOfMessage (ParamsMessage (gn_Params m)))]"

definition api_GenesisState_Range ::
  "'c api_GenesisState option \<Rightarrow> ('s \<Rightarrow> field_descriptor \<Rightarrow> ('c, 'c api_Params) Value \<Rightarrow> 's \<times> bool) \<Rightarrow> 's \<Rightarrow> 's outcome" where
  "api_GenesisState_Range x f s = deref x (\<lambda>m. Ok (visit f (api_GenesisState_visits m) s))"

definition api_GenesisState_Has ::
  "'c api_GenesisState option \<Rightarrow> field_descriptor \<Rightarrow> bool outcome" where
  "api_GenesisState_Has x d =
     (if FullName d = ''pob.builder.v1.GenesisState.params'' then
        deref x (\<lambda>m. Ok (gn_Params m \<noteq> None))
      else no_field ''pob.builder.v1.GenesisState'' d)"

definition api_GenesisState_Clear ::
  "'c api_GenesisState option \<Rightarrow> field_descriptor \<Rightarrow> 'c api_GenesisState outcome" where
  "api_GenesisState_Clear x d =
     (if FullName d = ''pob.builder.v1.GenesisState.params'' then
        deref x (\<lambda>m. Ok (m\<lparr>gn_Params := None\<rparr>))
      else no_field ''pob.builder.v1.GenesisState'' d)"

definition api_GenesisState_Get ::
  "'c api_GenesisState option \<Rightarrow> field_descriptor \<Rightarrow> ('c, 'c api_Params) Value outcome" where
  "api_GenesisState_Get x d =
     (if FullName d = ''pob.builder.v1.GenesisState.params'' then
        deref x (\<lambda>m. Ok (ValueOfMessage (ParamsMessage (gn_Params m))))
      else no_field ''pob.builder.v1.GenesisState'' d)"

definition api_GenesisState_Set ::
  "'c api_GenesisState option \<Rightarrow> field_descriptor \<Rightarrow> ('c, 'c api_Params) Value \<Rightarrow> 'c api_GenesisState outcome" where
  "api_GenesisState_Set x d v =
     (if FullName d = ''pob.builder.v1.GenesisState.params'' then
        obind (value_params v) (\<lambda>y. deref x (\<lambda>m. Ok (m\<lparr>gn_Params := y\<rparr>)))
      else no_field ''pob.builder.v1.GenesisState'' d)"

definition api_GenesisState_Mutable ::
  "'c api_GenesisState option \<Rightarrow> field_descriptor \<Rightarrow> ('c api_GenesisState \<times> ('c, 'c api_Params) Value) outcome" where
  "api_GenesisState_Mutable x d =
     (if FullName d = ''pob.builder.v1.GenesisState.params'' then
        deref x (\<lambda>m. let m' = (if gn_Params m = None then m\<lparr>gn_Params := Some api_Params_Reset\<rparr> else m)
          in Ok (m', ValueOfMessage (ParamsMessage (gn_Params m'))))
      else no_field ''pob.builder.v1.GenesisState'' d)"

definition api_GenesisState_NewField ::
  "field_descriptor \<Rightarrow> ('c, 'c api_Params) Value outcome" where
  "api_GenesisState_NewField d =
     (if FullName d = ''pob.builder.v1.GenesisState.params'' then
        Ok (ValueOfMessage (ParamsMessage (Some api_Params_Reset)))
      else no_field ''pob.builder.v1.GenesisState'' d)"

definition api_GenesisState_WhichOneof ::
  "string \<Rightarrow> field_descriptor outcome" where
  "api_GenesisState_WhichOneof d = no_oneof ''pob.builder.v1.GenesisState'' d"

definition api_GenesisState_size ::
  "'c pulsar_ops \<Rightarrow> 'c api_GenesisState option \<Rightarrow> int" where
  "api_GenesisState_size rt x =
     (case x of None \<Rightarrow> 0 | Some m \<Rightarrow>
        sub_size rt (api_Params_ops rt) (gn_Params m) +
        unknown_size m)"

definition api_GenesisState_writer ::
  "'c pulsar_ops \<Rightarrow> 'c api_GenesisState \<Rightarrow> writer" where
  "api_GenesisState_writer rt m =
     seq_w (w_unknown m) (
     w_sub rt (api_Params_ops rt) 0x0a (gn_Params m))"

definition api_GenesisState_marshal ::
  "'c pulsar_ops \<Rightarrow> 'c api_GenesisState option \<Rightarrow> bytes option \<Rightarrow> bytes option outcome" where
  "api_GenesisState_marshal rt x buf = marshal_frame (api_GenesisState_size rt) (api_GenesisState_writer rt) x buf"

definition api_GenesisState_field ::
  "'c pulsar_ops \<Rightarrow> bool \<Rightarrow> nat \<Rightarrow> 'c api_GenesisState \<Rightarrow> bytes \<Rightarrow> ('c api_GenesisState \<times> bytes) outcome" where
  "api_GenesisState_field rt discard l m bs = obind (decode_tag bs) (\<lambda>(fieldNum, wireType, rest).
     if fieldNum = 1 then
       (delim_field l wireType rest (\<lambda>bz.
          obind (sub_unmarshal (api_Params_ops rt) discard (gn_Params m) bz) (\<lambda>c. Ok (m\<lparr>gn_Params := Some c\<rparr>))))
     else keep_unknown rt discard l m bs)"

definition api_GenesisState_unmarshal ::
  "'c pulsar_ops \<Rightarrow> bool \<Rightarrow> 'c api_GenesisState option \<Rightarrow> bytes \<Rightarrow> 'c api_GenesisState option outcome" where
  "api_GenesisState_unmarshal rt discard x dAtA = unmarshal_frame (api_GenesisState_field rt discard) x dAtA"

end
