(* ===== verification/Pulsar_Tx.thy ===== *)
theory Pulsar_Tx
  imports Pulsar_Genesis
begin

text \<open>
  \<^verbatim>\<open>api/pob/builder/v1/tx.pulsar.go\<close>, \<^verbatim>\<open>query.pulsar.go\<close> and \<^verbatim>\<open>api/pob/builder/module/v1/module.pulsar.go\<close>:
  the messages of the transaction service, of the query service and the configuration of the module.
\<close>

section \<open>Lists of byte strings\<close>

text \<open>
  \<^verbatim>\<open>_MsgAuctionBid_3_list\<close>: the view of the transactions that reflection hands out, a pointer to the slice.
  A method that changes the list returns the new slice.
\<close>

definition api_list_Len :: "bytes list option option \<Rightarrow> int" where
  "api_list_Len x = (case x of None \<Rightarrow> 0 | Some list \<Rightarrow> int (length (opt_list list)))"

definition api_list_Get :: "bytes list option option \<Rightarrow> int \<Rightarrow> ('c, 'p) Value outcome" where
  "api_list_Get x i = deref x (\<lambda>list.
     if 0 \<le> i \<and> i < int (length (opt_list list)) then Ok (ValueOfBytes (Some (opt_list list ! nat i)))
     else Panic ''index out of range'')"

definition api_list_Set ::
  "bytes list option option \<Rightarrow> int \<Rightarrow> ('c, 'p) Value \<Rightarrow> bytes list option outcome" where
  "api_list_Set x i v = obind (value_Bytes v) (\<lambda>b. deref x (\<lambda>list.
     if 0 \<le> i \<and> i < int (length (opt_list list)) then Ok (Some ((opt_list list)[nat i := opt_bytes b]))
     else Panic ''index out of range''))"

definition api_list_Append :: "bytes list option option \<Rightarrow> ('c, 'p) Value \<Rightarrow> bytes list option outcome" where
  "api_list_Append x v = obind (value_Bytes v) (\<lambda>b. deref x (\<lambda>list. Ok (Some (opt_list list @ [opt_bytes b]))))"

definition api_list_AppendMutable :: "('c, 'p) Value outcome" where
  "api_list_AppendMutable = Panic ''AppendMutable can not be called''"

definition api_list_NewElement :: "('c, 'p) Value" where
  "api_list_NewElement = ValueOfBytes None"

definition api_list_IsValid :: "bytes list option option \<Rightarrow> bool" where
  "api_list_IsValid x \<longleftrightarrow> x \<noteq> None"

section \<open>MsgAuctionBid\<close>

record 'c api_MsgAuctionBid = api_message +
  ab_Bidder :: "string"
  ab_Bid :: "'c option"
  ab_Transactions :: "bytes list option"

definition api_MsgAuctionBid_Reset ::
  "'c api_MsgAuctionBid" where
  "api_MsgAuctionBid_Reset = \<lparr>unknownFields = None,
     ab_Bidder = '''', ab_Bid = None, ab_Transactions = None\<rparr>"

definition api_MsgAuctionBid_GetBidder ::
  "'c api_MsgAuctionBid option \<Rightarrow> string" where
  "api_MsgAuctionBid_GetBidder x = (case x of None \<Rightarrow> '''' | Some m \<Rightarrow> ab_Bidder m)"

definition api_MsgAuctionBid_GetBid ::
  "'c api_MsgAuctionBid option \<Rightarrow> 'c option" where
  "api_MsgAuctionBid_GetBid x = (case x of None \<Rightarrow> None | Some m \<Rightarrow> ab_Bid m)"

definition api_MsgAuctionBid_GetTransactions ::
  "'c api_MsgAuctionBid option \<Rightarrow> bytes list option" where
  "api_MsgAuctionBid_GetTransactions x = (case x of None \<Rightarrow> None | Some m \<Rightarrow> ab_Transactions m)"

definition api_MsgAuctionBid_visits ::
  "'c api_MsgAuctionBid \<Rightarrow> (bool \<times> field_descriptor \<times> ('c, 'p) Value) list" where
  "api_MsgAuctionBid_visits m =
     [(ab_Bidder m \<noteq> '''', fd ''pob.builder.v1.MsgAuctionBid.bidder'', ValueOfString (ab_Bidder m)),
      (ab_Bid m \<noteq> None, fd ''pob.builder.v1.MsgAuctionBid.bid'', ValueOfMessage (CoinMessage (ab_Bid m))),
      (opt_list (ab_Transactions m) \<noteq> [], fd ''pob.builder.v1.MsgAuctionBid.transactions'', ValueOfList (Some (ab_Transactions m)))]"

definition api_MsgAuctionBid_Range ::
  "'c api_MsgAuctionBid option \<Rightarrow> ('s \<Rightarrow> field_descriptor \<Rightarrow> ('c, 'p) Value \<Rightarrow> 's \<times> bool) \<Rightarrow> 's \<Rightarrow> 's outcome" where
  "api_MsgAuctionBid_Range x f s = deref x (\<lambda>m. Ok (visit f (api_MsgAuctionBid_visits m) s))"

definition api_MsgAuctionBid_Has ::
  "'c api_MsgAuctionBid option \<Rightarrow> field_descriptor \<Rightarrow> bool outcome" where
  "api_MsgAuctionBid_Has x d =
     (if FullName d = ''pob.builder.v1.MsgAuctionBid.bidder'' then
        deref x (\<lambda>m. Ok (ab_Bidder m \<noteq> ''''))
      else if FullName d = ''pob.builder.v1.MsgAuctionBid.bid'' then
        deref x (\<lambda>m. Ok (ab_Bid m \<noteq> None))
      else if FullName d = ''pob.builder.v1.MsgAuctionBid.transactions'' then
        deref x (\<lambda>m. Ok (opt_list (ab_Transactions m) \<noteq> []))
      else no_field ''pob.builder.v1.MsgAuctionBid'' d)"

definition api_MsgAuctionBid_Clear ::
  "'c api_MsgAuctionBid option \<Rightarrow> field_descriptor \<Rightarrow> 'c api_MsgAuctionBid outcome" where
  "api_MsgAuctionBid_Clear x d =
     (if FullName d = ''pob.builder.v1.MsgAuctionBid.bidder'' then
        deref x (\<lambda>m. Ok (m\<lparr>ab_Bidder := ''''\<rparr>))
      else if FullName d = ''pob.builder.v1.MsgAuctionBid.bid'' then
        deref x (\<lambda>m. Ok (m\<lparr>ab_Bid := None\<rparr>))
      else if FullName d = ''pob.builder.v1.MsgAuctionBid.transactions'' then
        deref x (\<lambda>m. Ok (m\<lparr>ab_Transactions := None\<rparr>))
      else no_field ''pob.builder.v1.MsgAuctionBid'' d)"

definition api_MsgAuctionBid_Get ::
  "'c api_MsgAuctionBid option \<Rightarrow> field_descriptor \<Rightarrow> ('c, 'p) Value outcome" where
  "api_MsgAuctionBid_Get x d =
     (if FullName d = ''pob.builder.v1.MsgAuctionBid.bidder'' then
        deref x (\<lambda>m. Ok (ValueOfString (ab_Bidder m)))
      else if FullName d = ''pob.builder.v1.MsgAuctionBid.bid'' then
        deref x (\<lambda>m. Ok (ValueOfMessage (CoinMessage (ab_Bid m))))
      else if FullName d = ''pob.builder.v1.MsgAuctionBid.transactions'' then
        deref x (\<lambda>m. Ok (if opt_list (ab_Transactions m) = [] then ValueOfList None else ValueOfList (Some (ab_Transactions m))))
      else no_field ''pob.builder.v1.MsgAuctionBid'' d)"

definition api_MsgAuctionBid_Set ::
  "'c api_MsgAuctionBid option \<Rightarrow> field_descriptor \<Rightarrow> ('c, 'p) Value \<Rightarrow> 'c api_MsgAuctionBid outcome" where
  "api_MsgAuctionBid_Set x d v =
     (if FullName d = ''pob.builder.v1.MsgAuctionBid.bidder'' then
        obind (value_string v) (\<lambda>y. deref x (\<lambda>m. Ok (m\<lparr>ab_Bidder := y\<rparr>)))
      else if FullName d = ''pob.builder.v1.MsgAuctionBid.bid'' then
        obind (value_coin v) (\<lambda>y. deref x (\<lambda>m. Ok (m\<lparr>ab_Bid := y\<rparr>)))
      else if FullName d = ''pob.builder.v1.MsgAuctionBid.transactions'' then
        obind (value_List v) (\<lambda>clv. deref clv (\<lambda>list. deref x (\<lambda>m. Ok (m\<lparr>ab_Transactions := list\<rparr>))))
      else no_field ''pob.builder.v1.MsgAuctionBid'' d)"

definition api_MsgAuctionBid_Mutable ::
  "'c pulsar_ops \<Rightarrow> 'c api_MsgAuctionBid option \<Rightarrow> field_descriptor \<Rightarrow> ('c api_MsgAuctionBid \<times> ('c, 'p) Value) outcome" where
  "api_MsgAuctionBid_Mutable rt x d =
     (if FullName d = ''pob.builder.v1.MsgAuctionBid.bid'' then
        deref x (\<lambda>m. let m' = (if ab_Bid m = None then m\<lparr>ab_Bid := Some (mo_new (rt_coin rt))\<rparr> else m)
          in Ok (m', ValueOfMessage (CoinMessage (ab_Bid m'))))
      else if FullName d = ''pob.builder.v1.MsgAuctionBid.transactions'' then
        deref x (\<lambda>m. let m' = (if ab_Transactions m = None then m\<lparr>ab_Transactions := Some []\<rparr> else m)
          in Ok (m', ValueOfList (Some (ab_Transactions m'))))
      else if FullName d = ''pob.builder.v1.MsgAuctionBid.bidder'' then
        not_mutable ''bidder''
      else no_field ''pob.builder.v1.MsgAuctionBid'' d)"

definition api_MsgAuctionBid_NewField ::
  "'c pulsar_ops \<Rightarrow> field_descriptor \<Rightarrow> ('c, 'p) Value outcome" where
  "api_MsgAuctionBid_NewField rt d =
     (if FullName d = ''pob.builder.v1.MsgAuctionBid.bidder'' then
        Ok (ValueOfString '''')
      else if FullName d = ''pob.builder.v1.MsgAuctionBid.bid'' then
        Ok (ValueOfMessage (CoinMessage (Some (mo_new (rt_coin rt)))))
      else if FullName d = ''pob.builder.v1.MsgAuctionBid.transactions'' then
        Ok (ValueOfList (Some (Some [])))
      else no_field ''pob.builder.v1.MsgAuctionBid'' d)"

definition api_MsgAuctionBid_WhichOneof ::
  "string \<Rightarrow> field_descriptor outcome" where
  "api_MsgAuctionBid_WhichOneof d = no_oneof ''pob.builder.v1.MsgAuctionBid'' d"

definition api_MsgAuctionBid_size ::
  "'c pulsar_ops \<Rightarrow> 'c api_MsgAuctionBid option \<Rightarrow> int" where
  "api_MsgAuctionBid_size rt x =
     (case x of None \<Rightarrow> 0 | Some m \<Rightarrow>
        delim_size_opt rt (int (length (ab_Bidder m))) +
        sub_size rt (rt_coin rt) (ab_Bid m) +
        (\<Sum>b\<leftarrow>opt_list (ab_Transactions m). delim_size rt (int (length b))) +
        unknown_size m)"

text \<open>The loop over the transactions, from the last to the first.\<close>

fun api_transactions_writer :: "'c pulsar_ops \<Rightarrow> bytes list \<Rightarrow> writer" where
  "api_transactions_writer rt [] = skip_w"
| "api_transactions_writer rt (b # bs) = seq_w (api_transactions_writer rt bs) (w_delim rt 0x1a b)"

definition api_MsgAuctionBid_writer ::
  "'c pulsar_ops \<Rightarrow> 'c api_MsgAuctionBid \<Rightarrow> writer" where
  "api_MsgAuctionBid_writer rt m =
     seq_w (w_unknown m) (
     seq_w (api_transactions_writer rt (opt_list (ab_Transactions m))) (
     seq_w (w_sub rt (rt_coin rt) 0x12 (ab_Bid m)) (
     w_delim_opt rt 0x0a (str_bytes (ab_Bidder m)))))"

definition api_MsgAuctionBid_marshal ::
  "'c pulsar_ops \<Rightarrow> 'c api_MsgAuctionBid option \<Rightarrow> bytes option \<Rightarrow> bytes option outcome" where
  "api_MsgAuctionBid_marshal rt x buf = marshal_frame (api_MsgAuctionBid_size rt) (api_MsgAuctionBid_writer rt) x buf"

definition api_MsgAuctionBid_field ::
  "'c pulsar_ops \<Rightarrow> bool \<Rightarrow> nat \<Rightarrow> 'c api_MsgAuctionBid \<Rightarrow> bytes \<Rightarrow> ('c api_MsgAuctionBid \<times> bytes) outcome" where
  "api_MsgAuctionBid_field rt discard l m bs = obind (decode_tag bs) (\<lambda>(fieldNum, wireType, rest).
     if fieldNum = 1 then
       (delim_field l wireType rest (\<lambda>bz. Ok (m\<lparr>ab_Bidder := bytes_str bz\<rparr>)))
     else if fieldNum = 2 then
       (delim_field l wireType rest (\<lambda>bz.
          obind (sub_unmarshal (rt_coin rt) discard (ab_Bid m) bz) (\<lambda>c. Ok (m\<lparr>ab_Bid := Some c\<rparr>))))
     else if fieldNum = 3 then
       (delim_field l wireType rest (\<lambda>bz. Ok (m\<lparr>ab_Transactions := Some (opt_list (ab_Transactions m) @ [bz])\<rparr>)))
     else keep_unknown rt discard l m bs)"

definition api_MsgAuctionBid_unmarshal ::
  "'c pulsar_ops \<Rightarrow> bool \<Rightarrow> 'c api_MsgAuctionBid option \<Rightarrow> bytes \<Rightarrow> 'c api_MsgAuctionBid option outcome" where
  "api_MsgAuctionBid_unmarshal rt discard x dAtA = unmarshal_frame (api_MsgAuctionBid_field rt discard) x dAtA"

section \<open>MsgAuctionBidResponse\<close>

type_synonym api_MsgAuctionBidResponse = api_message

definition api_MsgAuctionBidResponse_Reset ::
  "api_MsgAuctionBidResponse" where
  "api_MsgAuctionBidResponse_Reset = \<lparr>unknownFields = None\<rparr>"

definition api_MsgAuctionBidResponse_Range ::
  "api_MsgAuctionBidResponse option \<Rightarrow> ('s \<Rightarrow> field_descriptor \<Rightarrow> ('c, 'p) Value \<Rightarrow> 's \<times> bool) \<Rightarrow> 's \<Rightarrow> 's outcome" where
  "api_MsgAuctionBidResponse_Range x f s = Ok s"

definition api_MsgAuctionBidResponse_Has ::
  "api_MsgAuctionBidResponse option \<Rightarrow> field_descriptor \<Rightarrow> bool outcome" where
  "api_MsgAuctionBidResponse_Has x d =
     (no_field ''pob.builder.v1.MsgAuctionBidResponse'' d)"

definition api_MsgAuctionBidResponse_Clear ::
  "api_MsgAuctionBidResponse option \<Rightarrow> field_descriptor \<Rightarrow> api_MsgAuctionBidResponse outcome" where
  "api_MsgAuctionBidResponse_Clear x d =
     (no_field ''pob.builder.v1.MsgAuctionBidResponse'' d)"

definition api_MsgAuctionBidResponse_Get ::
  "api_MsgAuctionBidResponse option \<Rightarrow> field_descriptor \<Rightarrow> ('c, 'p) Value outcome" where
  "api_MsgAuctionBidResponse_Get x d =
     (no_field ''pob.builder.v1.MsgAuctionBidResponse'' d)"

definition api_MsgAuctionBidResponse_Set ::
  "api_MsgAuctionBidResponse option \<Rightarrow> field_descriptor \<Rightarrow> ('c, 'p) Value \<Rightarrow> api_MsgAuctionBidResponse outcome" where
  "api_MsgAuctionBidResponse_Set x d v =
     (no_field ''pob.builder.v1.MsgAuctionBidResponse'' d)"

definition api_MsgAuctionBidResponse_Mutable ::
  "api_MsgAuctionBidResponse option \<Rightarrow> field_descriptor \<Rightarrow> (api_MsgAuctionBidResponse \<times> ('c, 'p) Value) outcome" where
  "api_MsgAuctionBidResponse_Mutable x d =
     (no_field ''pob.builder.v1.MsgAuctionBidResponse'' d)"

definition api_MsgAuctionBidResponse_NewField ::
  "field_descriptor \<Rightarrow> ('c, 'p) Value outcome" where
  "api_MsgAuctionBidResponse_NewField d =
     (no_field ''pob.builder.v1.MsgAuctionBidResponse'' d)"

definition api_MsgAuctionBidResponse_WhichOneof ::
  "string \<Rightarrow> field_descriptor outcome" where
  "api_MsgAuctionBidResponse_WhichOneof d = no_oneof ''pob.builder.v1.MsgAuctionBidResponse'' d"

definition api_MsgAuctionBidResponse_size ::
  "'c pulsar_ops \<Rightarrow> api_MsgAuctionBidResponse option \<Rightarrow> int" where
  "api_MsgAuctionBidResponse_size rt x =
     (case x of None \<Rightarrow> 0 | Some m \<Rightarrow>
        unknown_size m)"

definition api_MsgAuctionBidResponse_writer ::
  "'c pulsar_ops \<Rightarrow> api_MsgAuctionBidResponse \<Rightarrow> writer" where
  "api_MsgAuctionBidResponse_writer rt m =
     w_unknown m"

definition api_MsgAuctionBidResponse_marshal ::
  "'c pulsar_ops \<Rightarrow> api_MsgAuctionBidResponse option \<Rightarrow> bytes option \<Rightarrow> bytes option outcome" where
  "api_MsgAuctionBidResponse_marshal rt x buf = marshal_frame (api_MsgAuctionBidResponse_size rt) (api_MsgAuctionBidResponse_writer rt) x buf"

definition api_MsgAuctionBidResponse_field ::
  "'c pulsar_ops \<Rightarrow> bool \<Rightarrow> nat \<Rightarrow> api_MsgAuctionBidResponse \<Rightarrow> bytes \<Rightarrow> (api_MsgAuctionBidResponse \<times> bytes) outcome" where
  "api_MsgAuctionBidResponse_field rt discard l m bs = obind (decode_tag bs) (\<lambda>(fieldNum, wireType, rest).
     keep_unknown rt discard l m bs)"

definition api_MsgAuctionBidResponse_unmarshal ::
  "'c pulsar_ops \<Rightarrow> bool \<Rightarrow> api_MsgAuctionBidResponse option \<Rightarrow> bytes \<Rightarrow> api_MsgAuctionBidResponse option outcome" where
  "api_MsgAuctionBidResponse_unmarshal rt discard x dAtA = unmarshal_frame (api_MsgAuctionBidResponse_field rt discard) x dAtA"

section \<open>MsgUpdateParams\<close>

record 'c api_MsgUpdateParams = api_message +
  up_Authority :: "string"
  up_Params :: "'c api_Params option"

definition api_MsgUpdateParams_Reset ::
  "'c api_MsgUpdateParams" where
  "api_MsgUpdateParams_Reset = \<lparr>unknownFields = None,
     up_Authority = '''', up_Params = None\<rparr>"

definition api_MsgUpdateParams_GetAuthority ::
  "'c api_MsgUpdateParams option \<Rightarrow> string" where
  "api_MsgUpdateParams_GetAuthority x = (case x of None \<Rightarrow> '''' | Some m \<Rightarrow> up_Authority m)"

definition api_MsgUpdateParams_GetParams ::
  "'c api_MsgUpdateParams option \<Rightarrow> 'c api_Params option" where
  "api_MsgUpdateParams_GetParams x = (case x of None \<Rightarrow> None | Some m \<Rightarrow> up_Params m)"

definition api_MsgUpdateParams_visits ::
  "'c api_MsgUpdateParams \<Rightarrow> (bool \<times> field_descriptor \<times> ('c, 'c api_Params) Value) list" where
  "api_MsgUpdateParams_visits m =
     [(up_Authority m \<noteq> '''', fd ''pob.builder.v1.MsgUpdateParams.authority'', ValueOfString (up_Authority m)),
      (up_Params m \<noteq> None, fd ''pob.builder.v1.MsgUpdateParams.params'', ValueOfMessage (ParamsMessage (up_Params m)))]"

definition api_MsgUpdateParams_Range ::
  "'c api_MsgUpdateParams option \<Rightarrow> ('s \<Rightarrow> field_descriptor \<Rightarrow> ('c, 'c api_Params) Value \<Rightarrow> 's \<times> bool) \<Rightarrow> 's \<Rightarrow> 's outcome" where
  "api_MsgUpdateParams_Range x f s = deref x (\<lambda>m. Ok (visit f (api_MsgUpdateParams_visits m) s))"

definition api_MsgUpdateParams_Has ::
  "'c api_MsgUpdateParams option \<Rightarrow> field_descriptor \<Rightarrow> bool outcome" where
  "api_MsgUpdateParams_Has x d =
     (if FullName d = ''pob.builder.v1.MsgUpdateParams.authority'' then
        deref x (\<lambda>m. Ok (up_Authority m \<noteq> ''''))
      else if FullName d = ''pob.builder.v1.MsgUpdateParams.params'' then
        deref x (\<lambda>m. Ok (up_Params m \<noteq> None))
      else no_field ''pob.builder.v1.MsgUpdateParams'' d)"

definition api_MsgUpdateParams_Clear ::
  "'c api_MsgUpdateParams option \<Rightarrow> field_descriptor \<Rightarrow> 'c api_MsgUpdateParams outcome" where
  "api_MsgUpdateParams_Clear x d =
     (if FullName d = ''pob.builder.v1.MsgUpdateParams.authority'' then
        deref x (\<lambda>m. Ok (m\<lparr>up_Authority := ''''\<rparr>))
      else if FullName d = ''pob.builder.v1.MsgUpdateParams.params'' then
        deref x (\<lambda>m. Ok (m\<lparr>up_Params := None\<rparr>))
      else no_field ''pob.builder.v1.MsgUpdateParams'' d)"

definition api_MsgUpdateParams_Get ::
  "'c api_MsgUpdateParams option \<Rightarrow> field_descriptor \<Rightarrow> ('c, 'c api_Params) Value outcome" where
  "api_MsgUpdateParams_Get x d =
     (if FullName d = ''pob.builder.v1.MsgUpdateParams.authority'' then
        deref x (\<lambda>m. Ok (ValueOfString (up_Authority m)))
      else if FullName d = ''pob.builder.v1.MsgUpdateParams.params'' then
        deref x (\<lambda>m. Ok (ValueOfMessage (ParamsMessage (up_Params m))))
      else no_field ''pob.builder.v1.MsgUpdateParams'' d)"

definition api_MsgUpdateParams_Set ::
  "'c api_MsgUpdateParams option \<Rightarrow> field_descriptor \<Rightarrow> ('c, 'c api_Params) Value \<Rightarrow> 'c api_MsgUpdateParams outcome" where
  "api_MsgUpdateParams_Set x d v =
     (if FullName d = ''pob.builder.v1.MsgUpdateParams.authority'' then
        obind (value_string v) (\<lambda>y. deref x (\<lambda>m. Ok (m\<lparr>up_Authority := y\<rparr>)))
      else if FullName d = ''pob.builder.v1.MsgUpdateParams.params'' then
        obind (value_params v) (\<lambda>y. deref x (\<lambda>m. Ok (m\<lparr>up_Params := y\<rparr>)))
      else no_field ''pob.builder.v1.MsgUpdateParams'' d)"

definition api_MsgUpdateParams_Mutable ::
  "'c api_MsgUpdateParams option \<Rightarrow> field_descriptor \<Rightarrow> ('c api_MsgUpdateParams \<times> ('c, 'c api_Params) Value) outcome" where
  "api_MsgUpdateParams_Mutable x d =
     (if FullName d = ''pob.builder.v1.MsgUpdateParams.params'' then
        deref x (\<lambda>m. let m' = (if up_Params m = None then m\<lparr>up_Params := Some api_Params_Reset\<rparr> else m)
          in Ok (m', ValueOfMessage (ParamsMessage (up_Params m'))))
      else if FullName d = ''pob.builder.v1.MsgUpdateParams.authority'' then
        not_mutable ''authority''
      else no_field ''pob.builder.v1.MsgUpdateParams'' d)"

definition api_MsgUpdateParams_NewField ::
  "field_descriptor \<Rightarrow> ('c, 'c api_Params) Value outcome" where
  "api_MsgUpdateParams_NewField d =
     (if FullName d = ''pob.builder.v1.MsgUpdateParams.authority'' then
        Ok (ValueOfString '''')
      else if FullName d = ''pob.builder.v1.MsgUpdateParams.params'' then
        Ok (ValueOfMessage (ParamsMessage (Some api_Params_Reset)))
      else no_field ''pob.builder.v1.MsgUpdateParams'' d)"

definition api_MsgUpdateParams_WhichOneof ::
  "string \<Rightarrow> field_descriptor outcome" where
  "api_MsgUpdateParams_WhichOneof d = no_oneof ''pob.builder.v1.MsgUpdateParams'' d"

definition api_MsgUpdateParams_size ::
  "'c pulsar_ops \<Rightarrow> 'c api_MsgUpdateParams option \<Rightarrow> int" where
  "api_MsgUpdateParams_size rt x =
     (case x of None \<Rightarrow> 0 | Some m \<Rightarrow>
        delim_size_opt rt (int (length (up_Authority m))) +
        sub_size rt (api_Params_ops rt) (up_Params m) +
        unknown_size m)"

definition api_MsgUpdateParams_writer ::
  "'c pulsar_ops \<Rightarrow> 'c api_MsgUpdateParams \<Rightarrow> writer" where
  "api_MsgUpdateParams_writer rt m =
     seq_w (w_unknown m) (
     seq_w (w_sub rt (api_Params_ops rt) 0x12 (up_Params m)) (
     w_delim_opt rt 0x0a (str_bytes (up_Authority m))))"

definition api_MsgUpdateParams_marshal ::
  "'c pulsar_ops \<Rightarrow> 'c api_MsgUpdateParams option \<Rightarrow> bytes option \<Rightarrow> bytes option outcome" where
  "api_MsgUpdateParams_marshal rt x buf = marshal_frame (api_MsgUpdateParams_size rt) (api_MsgUpdateParams_writer rt) x buf"

definition api_MsgUpdateParams_field ::
  "'c pulsar_ops \<Rightarrow> bool \<Rightarrow> nat \<Rightarrow> 'c api_MsgUpdateParams \<Rightarrow> bytes \<Rightarrow> ('c api_MsgUpdateParams \<times> bytes) outcome" where
  "api_MsgUpdateParams_field rt discard l m bs = obind (decode_tag bs) (\<lambda>(fieldNum, wireType, rest).
     if fieldNum = 1 then
       (delim_field l wireType rest (\<lambda>bz. Ok (m\<lparr>up_Authority := bytes_str bz\<rparr>)))
     else if fieldNum = 2 then
       (delim_field l wireType rest (\<lambda>bz.
          obind (sub_unmarshal (api_Params_ops rt) discard (up_Params m) bz) (\<lambda>c. Ok (m\<lparr>up_Params := Some c\<rparr>))))
     else keep_unknown rt discard l m bs)"

definition api_MsgUpdateParams_unmarshal ::
  "'c pulsar_ops \<Rightarrow> bool \<Rightarrow> 'c api_MsgUpdateParams option \<Rightarrow> bytes \<Rightarrow> 'c api_MsgUpdateParams option outcome" where
  "api_MsgUpdateParams_unmarshal rt discard x dAtA = unmarshal_frame (api_MsgUpdateParams_field rt discard) x dAtA"

section \<open>MsgUpdateParamsResponse\<close>

type_synonym api_MsgUpdateParamsResponse = api_message

definition api_MsgUpdateParamsResponse_Reset ::
  "api_MsgUpdateParamsResponse" where
  "api_MsgUpdateParamsResponse_Reset = \<lparr>unknownFields = None\<rparr>"

definition api_MsgUpdateParamsResponse_Range ::
  "api_MsgUpdateParamsResponse option \<Rightarrow> ('s \<Rightarrow> field_descriptor \<Rightarrow> ('c, 'p) Value \<Rightarrow> 's \<times> bool) \<Rightarrow> 's \<Rightarrow> 's outcome" where
  "api_MsgUpdateParamsResponse_Range x f s = Ok s"

definition api_MsgUpdateParamsResponse_Has ::
  "api_MsgUpdateParamsResponse option \<Rightarrow> field_descriptor \<Rightarrow> bool outcome" where
  "api_MsgUpdateParamsResponse_Has x d =
     (no_field ''pob.builder.v1.MsgUpdateParamsResponse'' d)"

definition api_MsgUpdateParamsResponse_Clear ::
  "api_MsgUpdateParamsResponse option \<Rightarrow> field_descriptor \<Rightarrow> api_MsgUpdateParamsResponse outcome" where
  "api_MsgUpdateParamsResponse_Clear x d =
     (no_field ''pob.builder.v1.MsgUpdateParamsResponse'' d)"

definition api_MsgUpdateParamsResponse_Get ::
  "api_MsgUpdateParamsResponse option \<Rightarrow> field_descriptor \<Rightarrow> ('c, 'p) Value outcome" where
  "api_MsgUpdateParamsResponse_Get x d =
     (no_field ''pob.builder.v1.MsgUpdateParamsResponse'' d)"

definition api_MsgUpdateParamsResponse_Set ::
  "api_MsgUpdateParamsResponse option \<Rightarrow> field_descriptor \<Rightarrow> ('c, 'p) Value \<Rightarrow> api_MsgUpdateParamsResponse outcome" where
  "api_MsgUpdateParamsResponse_Set x d v =
     (no_field ''pob.builder.v1.MsgUpdateParamsResponse'' d)"

definition api_MsgUpdateParamsResponse_Mutable ::
  "api_MsgUpdateParamsResponse option \<Rightarrow> field_descriptor \<Rightarrow> (api_MsgUpdateParamsResponse \<times> ('c, 'p) Value) outcome" where
  "api_MsgUpdateParamsResponse_Mutable x d =
     (no_field ''pob.builder.v1.MsgUpdateParamsResponse'' d)"

definition api_MsgUpdateParamsResponse_NewField ::
  "field_descriptor \<Rightarrow> ('c, 'p) Value outcome" where
  "api_MsgUpdateParamsResponse_NewField d =
     (no_field ''pob.builder.v1.MsgUpdateParamsResponse'' d)"

definition api_MsgUpdateParamsResponse_WhichOneof ::
  "string \<Rightarrow> field_descriptor outcome" where
  "api_MsgUpdateParamsResponse_WhichOneof d = no_oneof ''pob.builder.v1.MsgUpdateParamsResponse'' d"

definition api_MsgUpdateParamsResponse_size ::
  "'c pulsar_ops \<Rightarrow> api_MsgUpdateParamsResponse option \<Rightarrow> int" where
  "api_MsgUpdateParamsResponse_size rt x =
     (case x of None \<Rightarrow> 0 | Some m \<Rightarrow>
        unknown_size m)"

definition api_MsgUpdateParamsResponse_writer ::
  "'c pulsar_ops \<Rightarrow> api_MsgUpdateParamsResponse \<Rightarrow> writer" where
  "api_MsgUpdateParamsResponse_writer rt m =
     w_unknown m"

definition api_MsgUpdateParamsResponse_marshal ::
  "'c pulsar_ops \<Rightarrow> api_MsgUpdateParamsResponse option \<Rightarrow> bytes option \<Rightarrow> bytes option outcome" where
  "api_MsgUpdateParamsResponse_marshal rt x buf = marshal_frame (api_MsgUpdateParamsResponse_size rt) (api_MsgUpdateParamsResponse_writer rt) x buf"

definition api_MsgUpdateParamsResponse_field ::
  "'c pulsar_ops \<Rightarrow> bool \<Rightarrow> nat \<Rightarrow> api_MsgUpdateParamsResponse \<Rightarrow> bytes \<Rightarrow> (api_MsgUpdateParamsResponse \<times> bytes) outcome" where
  "api_MsgUpdateParamsResponse_field rt discard l m bs = obind (decode_tag bs) (\<lambda>(fieldNum, wireType, rest).
     keep_unknown rt discard l m bs)"

definition api_MsgUpdateParamsResponse_unmarshal ::
  "'c pulsar_ops \<Rightarrow> bool \<Rightarrow> api_MsgUpdateParamsResponse option \<Rightarrow> bytes \<Rightarrow> api_MsgUpdateParamsResponse option outcome" where
  "api_MsgUpdateParamsResponse_unmarshal rt discard x dAtA = unmarshal_frame (api_MsgUpdateParamsResponse_field rt discard) x dAtA"

section \<open>QueryParamsRequest\<close>

type_synonym api_QueryParamsRequest = api_message

definition api_QueryParamsRequest_Reset ::
  "api_QueryParamsRequest" where
  "api_QueryParamsRequest_Reset = \<lparr>unknownFields = None\<rparr>"

definition api_QueryParamsRequest_Range ::
  "api_QueryParamsRequest option \<Rightarrow> ('s \<Rightarrow> field_descriptor \<Rightarrow> ('c, 'p) Value \<Rightarrow> 's \<times> bool) \<Rightarrow> 's \<Rightarrow> 's outcome" where
  "api_QueryParamsRequest_Range x f s = Ok s"

definition api_QueryParamsRequest_Has ::
  "api_QueryParamsRequest option \<Rightarrow> field_descriptor \<Rightarrow> bool outcome" where
  "api_QueryParamsRequest_Has x d =
     (no_field ''pob.builder.v1.QueryParamsRequest'' d)"

definition api_QueryParamsRequest_Clear ::
  "api_QueryParamsRequest option \<Rightarrow> field_descriptor \<Rightarrow> api_QueryParamsRequest outcome" where
  "api_QueryParamsRequest_Clear x d =
     (no_field ''pob.builder.v1.QueryParamsRequest'' d)"

definition api_QueryParamsRequest_Get ::
  "api_QueryParamsRequest option \<Rightarrow> field_descriptor \<Rightarrow> ('c, 'p) Value outcome" where
  "api_QueryParamsRequest_Get x d =
     (no_field ''pob.builder.v1.QueryParamsRequest'' d)"

definition api_QueryParamsRequest_Set ::
  "api_QueryParamsRequest option \<Rightarrow> field_descriptor \<Rightarrow> ('c, 'p) Value \<Rightarrow> api_QueryParamsRequest outcome" where
  "api_QueryParamsRequest_Set x d v =
     (no_field ''pob.builder.v1.QueryParamsRequest'' d)"

definition api_QueryParamsRequest_Mutable ::
  "api_QueryParamsRequest option \<Rightarrow> field_descriptor \<Rightarrow> (api_QueryParamsRequest \<times> ('c, 'p) Value) outcome" where
  "api_QueryParamsRequest_Mutable x d =
     (no_field ''pob.builder.v1.QueryParamsRequest'' d)"

definition api_QueryParamsRequest_NewField ::
  "field_descriptor \<Rightarrow> ('c, 'p) Value outcome" where
  "api_QueryParamsRequest_NewField d =
     (no_field ''pob.builder.v1.QueryParamsRequest'' d)"

definition api_QueryParamsRequest_WhichOneof ::
  "string \<Rightarrow> field_descriptor outcome" where
  "api_QueryParamsRequest_WhichOneof d = no_oneof ''pob.builder.v1.QueryParamsRequest'' d"

definition api_QueryParamsRequest_size ::
  "'c pulsar_ops \<Rightarrow> api_QueryParamsRequest option \<Rightarrow> int" where
  "api_QueryParamsRequest_size rt x =
     (case x of None \<Rightarrow> 0 | Some m \<Rightarrow>
        unknown_size m)"

definition api_QueryParamsRequest_writer ::
  "'c pulsar_ops \<Rightarrow> api_QueryParamsRequest \<Rightarrow> writer" where
  "api_QueryParamsRequest_writer rt m =
     w_unknown m"

definition api_QueryParamsRequest_marshal ::
  "'c pulsar_ops \<Rightarrow> api_QueryParamsRequest option \<Rightarrow> bytes option \<Rightarrow> bytes option outcome" where
  "api_QueryParamsRequest_marshal rt x buf = marshal_frame (api_QueryParamsRequest_size rt) (api_QueryParamsRequest_writer rt) x buf"

definition api_QueryParamsRequest_field ::
  "'c pulsar_ops \<Rightarrow> bool \<Rightarrow> nat \<Rightarrow> api_QueryParamsRequest \<Rightarrow> bytes \<Rightarrow> (api_QueryParamsRequest \<times> bytes) outcome" where
  "api_QueryParamsRequest_field rt discard l m bs = obind (decode_tag bs) (\<lambda>(fieldNum, wireType, rest).
     keep_unknown rt discard l m bs)"

definition api_QueryParamsRequest_unmarshal ::
  "'c pulsar_ops \<Rightarrow> bool \<Rightarrow> api_QueryParamsRequest option \<Rightarrow> bytes \<Rightarrow> api_QueryParamsRequest option outcome" where
  "api_QueryParamsRequest_unmarshal rt discard x dAtA = unmarshal_frame (api_QueryParamsRequest_field rt discard) x dAtA"

section \<open>QueryParamsResponse\<close>

record 'c api_QueryParamsResponse = api_message +
  qrp_Params :: "'c api_Params option"

definition api_QueryParamsResponse_Reset ::
  "'c api_QueryParamsResponse" where
  "api_QueryParamsResponse_Reset = \<lparr>unknownFields = None,
     qrp_Params = None\<rparr>"

definition api_QueryParamsResponse_GetParams ::
  "'c api_QueryParamsResponse option \<Rightarrow> 'c api_Params option" where
  "api_QueryParamsResponse_GetParams x = (case x of None \<Rightarrow> None | Some m \<Rightarrow> qrp_Params m)"

definition api_QueryParamsResponse_visits ::
  "'c api_QueryParamsResponse \<Rightarrow> (bool \<times> field_descriptor \<times> ('c, 'c api_Params) Value) list" where
  "api_QueryParamsResponse_visits m =
     [(qrp_Params m \<noteq> None, fd ''pob.builder.v1.QueryParamsResponse.params'', ValueOfMessage (ParamsMessage (qrp_Params m)))]"

definition api_QueryParamsResponse_Range ::
  "'c api_QueryParamsResponse option \<Rightarrow> ('s \<Rightarrow> field_descriptor \<Rightarrow> ('c, 'c api_Params) Value \<Rightarrow> 's \<times> bool) \<Rightarrow> 's \<Rightarrow> 's outcome" where
  "api_QueryParamsResponse_Range x f s = deref x (\<lambda>m. Ok (visit f (api_QueryParamsResponse_visits m) s))"

definition api_QueryParamsResponse_Has ::
  "'c api_QueryParamsResponse option \<Rightarrow> field_descriptor \<Rightarrow> bool outcome" where
  "api_QueryParamsResponse_Has x d =
     (if FullName d = ''pob.builder.v1.QueryParamsResponse.params'' then
        deref x (\<lambda>m. Ok (qrp_Params m \<noteq> None))
      else no_field ''pob.builder.v1.QueryParamsResponse'' d)"

definition api_QueryParamsResponse_Clear ::
  "'c api_QueryParamsResponse option \<Rightarrow> field_descriptor \<Rightarrow> 'c api_QueryParamsResponse outcome" where
  "api_QueryParamsResponse_Clear x d =
     (if FullName d = ''pob.builder.v1.QueryParamsResponse.params'' then
        deref x (\<lambda>m. Ok (m\<lparr>qrp_Params := None\<rparr>))
      else no_field ''pob.builder.v1.QueryParamsResponse'' d)"

definition api_QueryParamsResponse_Get ::
  "'c api_QueryParamsResponse option \<Rightarrow> field_descriptor \<Rightarrow> ('c, 'c api_Params) Value outcome" where
  "api_QueryParamsResponse_Get x d =
     (if FullName d = ''pob.builder.v1.QueryParamsResponse.params'' then
        deref x (\<lambda>m. Ok (ValueOfMessage (ParamsMessage (qrp_Params m))))
      else no_field ''pob.builder.v1.QueryParamsResponse'' d)"

definition api_QueryParamsResponse_Set ::
  "'c api_QueryParamsResponse option \<Rightarrow> field_descriptor \<Rightarrow> ('c, 'c api_Params) Value \<Rightarrow> 'c api_QueryParamsResponse outcome" where
  "api_QueryParamsResponse_Set x d v =
     (if FullName d = ''pob.builder.v1.QueryParamsResponse.params'' then
        obind (value_params v) (\<lambda>y. deref x (\<lambda>m. Ok (m\<lparr>qrp_Params := y\<rparr>)))
      else no_field ''pob.builder.v1.QueryParamsResponse'' d)"

definition api_QueryParamsResponse_Mutable ::
  "'c api_QueryParamsResponse option \<Rightarrow> field_descriptor \<Rightarrow> ('c api_QueryParamsResponse \<times> ('c, 'c api_Params) Value) outcome" where
  "api_QueryParamsResponse_Mutable x d =
     (if FullName d = ''pob.builder.v1.QueryParamsResponse.params'' then
        deref x (\<lambda>m. let m' = (if qrp_Params m = None then m\<lparr>qrp_Params := Some api_Params_Reset\<rparr> else m)
          in Ok (m', ValueOfMessage (ParamsMessage (qrp_Params m'))))
      else no_field ''pob.builder.v1.QueryParamsResponse'' d)"

definition api_QueryParamsResponse_NewField ::
  "field_descriptor \<Rightarrow> ('c, 'c api_Params) Value outcome" where
  "api_QueryParamsResponse_NewField d =
     (if FullName d = ''pob.builder.v1.QueryParamsResponse.params'' then
        Ok (ValueOfMessage (ParamsMessage (Some api_Params_Reset)))
      else no_field ''pob.builder.v1.QueryParamsResponse'' d)"

definition api_QueryParamsResponse_WhichOneof ::
  "string \<Rightarrow> field_descriptor outcome" where
  "api_QueryParamsResponse_WhichOneof d = no_oneof ''pob.builder.v1.QueryParamsResponse'' d"

definition api_QueryParamsResponse_size ::
  "'c pulsar_ops \<Rightarrow> 'c api_QueryParamsResponse option \<Rightarrow> int" where
  "api_QueryParamsResponse_size rt x =
     (case x of None \<Rightarrow> 0 | Some m \<Rightarrow>
        sub_size rt (api_Params_ops rt) (qrp_Params m) +
        unknown_size m)"

definition api_QueryParamsResponse_writer ::
  "'c pulsar_ops \<Rightarrow> 'c api_QueryParamsResponse \<Rightarrow> writer" where
  "api_QueryParamsResponse_writer rt m =
     seq_w (w_unknown m) (
     w_sub rt (api_Params_ops rt) 0x0a (qrp_Params m))"

definition api_QueryParamsResponse_marshal ::
  "'c pulsar_ops \<Rightarrow> 'c api_QueryParamsResponse option \<Rightarrow> bytes option \<Rightarrow> bytes option outcome" where
  "api_QueryParamsResponse_marshal rt x buf = marshal_frame (api_QueryParamsResponse_size rt) (api_QueryParamsResponse_writer rt) x buf"

definition api_QueryParamsResponse_field ::
  "'c pulsar_ops \<Rightarrow> bool \<Rightarrow> nat \<Rightarrow> 'c api_QueryParamsResponse \<Rightarrow> bytes \<Rightarrow> ('c api_QueryParamsResponse \<times> bytes) outcome" where
  "api_QueryParamsResponse_field rt discard l m bs = obind (decode_tag bs) (\<lambda>(fieldNum, wireType, rest).
     if fieldNum = 1 then
       (delim_field l wireType rest (\<lambda>bz.
          obind (sub_unmarshal (api_Params_ops rt) discard (qrp_Params m) bz) (\<lambda>c. Ok (m\<lparr>qrp_Params := Some c\<rparr>))))
     else keep_unknown rt discard l m bs)"

definition api_QueryParamsResponse_unmarshal ::
  "'c pulsar_ops \<Rightarrow> bool \<Rightarrow> 'c api_QueryParamsResponse option \<Rightarrow> bytes \<Rightarrow> 'c api_QueryParamsResponse option outcome" where
  "api_QueryParamsResponse_unmarshal rt discard x dAtA = unmarshal_frame (api_QueryParamsResponse_field rt discard) x dAtA"

section \<open>Module\<close>

record api_Module = api_message +
  mdl_Authority :: "string"

definition api_Module_Reset ::
  "api_Module" where
  "api_Module_Reset = \<lparr>unknownFields = None,
     mdl_Authority = ''''\<rparr>"

definition api_Module_GetAuthority ::
  "api_Module option \<Rightarrow> string" where
  "api_Module_GetAuthority x = (case x of None \<Rightarrow> '''' | Some m \<Rightarrow> mdl_Authority m)"

definition api_Module_visits ::
  "api_Module \<Rightarrow> (bool \<times> field_descriptor \<times> ('c, 'p) Value) list" where
  "api_Module_visits m =
     [(mdl_Authority m \<noteq> '''', fd ''pob.builder.module.v1.Module.authority'', ValueOfString (mdl_Authority m))]"

definition api_Module_Range ::
  "api_Module option \<Rightarrow> ('s \<Rightarrow> field_descriptor \<Rightarrow> ('c, 'p) Value \<Rightarrow> 's \<times> bool) \<Rightarrow> 's \<Rightarrow> 's outcome" where
  "api_Module_Range x f s = deref x (\<lambda>m. Ok (visit f (api_Module_visits m) s))"

definition api_Module_Has ::
  "api_Module option \<Rightarrow> field_descriptor \<Rightarrow> bool outcome" where
  "api_Module_Has x d =
     (if FullName d = ''pob.builder.module.v1.Module.authority'' then
        deref x (\<lambda>m. Ok (mdl_Authority m \<noteq> ''''))
      else no_field ''pob.builder.module.v1.Module'' d)"

definition api_Module_Clear ::
  "api_Module option \<Rightarrow> field_descriptor \<Rightarrow> api_Module outcome" where
  "api_Module_Clear x d =
     (if FullName d = ''pob.builder.module.v1.Module.authority'' then
        deref x (\<lambda>m. Ok (m\<lparr>mdl_Authority := ''''\<rparr>))
      else no_field ''pob.builder.module.v1.Module'' d)"

definition api_Module_Get ::
  "api_Module option \<Rightarrow> field_descriptor \<Rightarrow> ('c, 'p) Value outcome" where
  "api_Module_Get x d =
     (if FullName d = ''pob.builder.module.v1.Module.authority'' then
        deref x (\<lambda>m. Ok (ValueOfString (mdl_Authority m)))
      else no_field ''pob.builder.module.v1.Module'' d)"

definition api_Module_Set ::
  "api_Module option \<Rightarrow> field_descriptor \<Rightarrow> ('c, 'p) Value \<Rightarrow> api_Module outcome" where
  "api_Module_Set x d v =
     (if FullName d = ''pob.builder.module.v1.Module.authority'' then
        obind (value_string v) (\<lambda>y. deref x (\<lambda>m. Ok (m\<lparr>mdl_Authority := y\<rparr>)))
      else no_field ''pob.builder.module.v1.Module'' d)"

definition api_Module_Mutable ::
  "api_Module option \<Rightarrow> field_descriptor \<Rightarrow> (api_Module \<times> ('c, 'p) Value) outcome" where
  "api_Module_Mutable x d =
     (if FullName d = ''pob.builder.module.v1.Module.authority'' then
        not_mutable ''authority''
      else no_field ''pob.builder.module.v1.Module'' d)"

definition api_Module_NewField ::
  "field_descriptor \<Rightarrow> ('c, 'p) Value outcome" where
  "api_Module_NewField d =
     (if FullName d = ''pob.builder.module.v1.Module.authority'' then
        Ok (ValueOfString '''')
      else no_field ''pob.builder.module.v1.Module'' d)"

definition api_Module_WhichOneof ::
  "string \<Rightarrow> field_descriptor outcome" where
  "api_Module_WhichOneof d = no_oneof ''pob.builder.module.v1.Module'' d"

definition api_Module_size ::
  "'c pulsar_ops \<Rightarrow> api_Module option \<Rightarrow> int" where
  "api_Module_size rt x =
     (case x of None \<Rightarrow> 0 | Some m \<Rightarrow>
        delim_size_opt rt (int (length (mdl_Authority m))) +
        unknown_size m)"

definition api_Module_writer ::
  "'c pulsar_ops \<Rightarrow> api_Module \<Rightarrow> writer" where
  "api_Module_writer rt m =
     seq_w (w_unknown m) (
     w_delim_opt rt 0x0a (str_bytes (mdl_Authority m)))"

definition api_Module_marshal ::
  "'c pulsar_ops \<Rightarrow> api_Module option \<Rightarrow> bytes option \<Rightarrow> bytes option outcome" where
  "api_Module_marshal rt x buf = marshal_frame (api_Module_size rt) (api_Module_writer rt) x buf"

definition api_Module_field ::
  "'c pulsar_ops \<Rightarrow> bool \<Rightarrow> nat \<Rightarrow> api_Module \<Rightarrow> bytes \<Rightarrow> (api_Module \<times> bytes) outcome" where
  "api_Module_field rt discard l m bs = obind (decode_tag bs) (\<lambda>(fieldNum, wireType, rest).
     if fieldNum = 1 then
       (delim_field l wireType rest (\<lambda>bz. Ok (m\<lparr>mdl_Authority := bytes_str bz\<rparr>)))
     else keep_unknown rt discard l m bs)"

definition api_Module_unmarshal ::
  "'c pulsar_ops \<Rightarrow> bool \<Rightarrow> api_Module option \<Rightarrow> bytes \<Rightarrow> api_Module option outcome" where
  "api_Module_unmarshal rt discard x dAtA = unmarshal_frame (api_Module_field rt discard) x dAtA"

end
