(* ===== verification/Tx_Pb_Correct.thy ===== *)
theory Tx_Pb_Correct
  imports Tx_Pb Genesis_Pb_Correct
begin

text \<open>
  Correctness of the codecs of \<^verbatim>\<open>tx.pb.go\<close> and \<^verbatim>\<open>query.pb.go\<close>: messages survive marshalling and
  decoding, and no input makes the decoders panic or loop. The decoders satisfy the contract
  \<open>field_decoder\<close>.
\<close>

section \<open>Decoders\<close>

lemmas tx_fields = MsgAuctionBid_field_def MsgUpdateParams_field_def QueryParamsResponse_field_def
  empty_field_def wrong_wireType_def

text \<open>A field decoder that reads one chunk per known field, or skips, consumes something.\<close>

lemma step_shrinksI:
  assumes "skip_unknown l bs = Ok rest \<or>
      (\<exists>f w r bz. decode_tag bs = Ok (f, w, r) \<and> read_chunk l r = Ok (bz, rest))"
    and "bs \<noteq> []" "length bs \<le> l" "l < 2 ^ 62"
  shows "length rest < length bs"
  using assms skip_unknown_shrinks [OF _ assms(3,4,2)] by (auto dest!: decoder_shrinks)

interpretation bid_decoder: field_decoder "MsgAuctionBid_field c" for c
  by (unfold_locales, rule step_shrinksI)
    (auto simp: tx_fields obind_eq_Ok split: if_splits)

interpretation update_decoder: field_decoder "MsgUpdateParams_field P" for P :: "'d pb_ops"
  by (unfold_locales, rule step_shrinksI)
    (auto simp: tx_fields obind_eq_Ok split: if_splits)

interpretation query_decoder: field_decoder "QueryParamsResponse_field P" for P :: "'d pb_ops"
  by (unfold_locales, rule step_shrinksI)
    (auto simp: tx_fields obind_eq_Ok split: if_splits)

interpretation empty_decoder: field_decoder empty_field
  by (unfold_locales, rule step_shrinksI)
    (auto simp: tx_fields obind_eq_Ok split: if_splits)

section \<open>MsgAuctionBid\<close>

definition txs_enc :: "bytes list \<Rightarrow> bytes" where
  "txs_enc ts = concat (map (\<lambda>t. 0x1a # chunk t) ts)"

definition MsgAuctionBid_enc :: "(coin \<Rightarrow> bytes) \<Rightarrow> MsgAuctionBid \<Rightarrow> bytes" where
  "MsgAuctionBid_enc cenc m =
     (if Bidder m \<noteq> [] then 0x0a # chunk (str_bytes (Bidder m)) else []) @
     (0x12 # chunk (cenc (Bid m))) @ txs_enc (Transactions m)"

lemma writes_transactions: "writes (transactions_writer ts) (txs_enc ts)"
proof (induction ts)
  case (Cons t ts)
  have "writes (transactions_writer (t # ts)) (([0x1a] @ chunk t) @ txs_enc ts)"
    unfolding transactions_writer.simps by (intro writes_seq Cons.IH writes_bytes writes_byte)
  then show ?case by (simp add: txs_enc_def)
qed (simp add: txs_enc_def writes_skip)

lemma writes_MsgAuctionBid:
  assumes c: "codec_laws c zero_coin cok cenc" and ok: "cok (Bid m)"
  shows "writes (MsgAuctionBid_writer c m) (MsgAuctionBid_enc cenc m)"
proof (rule writes_cong)
  show "writes (MsgAuctionBid_writer c m)
     ((((if length (Bidder m) > 0 then [0x0a] @ chunk (str_bytes (Bidder m)) else []) @ [0x12]) @
      chunk (cenc (Bid m))) @ txs_enc (Transactions m))"
    unfolding MsgAuctionBid_writer_def
    by (intro writes_seq writes_if writes_intros writes_transactions writes_message [OF c] ok)
qed (simp add: MsgAuctionBid_enc_def)

lemma txs_size_enc: "foldl (\<lambda>n b. n + chunk_size (int (length b))) a ts = a + int (length (txs_enc ts))"
  by (induction ts arbitrary: a) (simp_all add: txs_enc_def chunk_size_eq)

lemma MsgAuctionBid_Size_eq:
  assumes c: "codec_laws c zero_coin cok cenc" and ok: "cok (Bid m)"
  shows "MsgAuctionBid_Size c m = int (length (MsgAuctionBid_enc cenc m))"
proof -
  note e = chunk_size_eq [of "str_bytes (Bidder m)"] chunk_size_eq [of "cenc (Bid m)"]
  show ?thesis
    using e txs_size_enc [of 0 "Transactions m"]
    by (simp add: MsgAuctionBid_Size_def MsgAuctionBid_enc_def codec_lawsD(2) [OF assms] Let_def)
qed

lemma bid_field_enc:
  assumes "length (chunk bs @ rest) \<le> l" "l < 2 ^ 62"
  shows "MsgAuctionBid_field c l m (0x0a # chunk bs @ rest) = Ok (m\<lparr>Bidder := bytes_str bs\<rparr>, rest)"
    and "c_Unmarshal c (Bid m) bs = Ok b \<Longrightarrow>
      MsgAuctionBid_field c l m (0x12 # chunk bs @ rest) = Ok (m\<lparr>Bid := b\<rparr>, rest)"
    and "MsgAuctionBid_field c l m (0x1a # chunk bs @ rest)
      = Ok (m\<lparr>Transactions := Transactions m @ [bs]\<rparr>, rest)"
  by (simp_all add: tx_fields read_chunk_chunk [OF assms])

lemma bid_txs_enc:
  "length (txs_enc ts) \<le> l \<Longrightarrow> l < 2 ^ 62 \<Longrightarrow>
   unmarshal_loop (MsgAuctionBid_field c) l (length (txs_enc ts)) m (txs_enc ts) =
     Ok (m\<lparr>Transactions := Transactions m @ ts\<rparr>)"
proof (induction ts arbitrary: m)
  case (Cons t ts)
  let ?f = "0x1a # chunk t"
  have e: "txs_enc (t # ts) = ?f @ txs_enc ts" by (simp add: txs_enc_def)
  have "unmarshal_loop (MsgAuctionBid_field c) l (length (?f @ txs_enc ts)) m (?f @ txs_enc ts) =
      unmarshal_loop (MsgAuctionBid_field c) l (length (txs_enc ts))
        (m\<lparr>Transactions := Transactions m @ [t]\<rparr>) (txs_enc ts)"
    by (rule bid_decoder.loop_step) (use Cons.prems in \<open>simp_all add: e bid_field_enc\<close>)
  with Cons show ?case by (simp add: e)
qed (simp add: txs_enc_def)

lemma MsgAuctionBid_Unmarshal_enc:
  assumes c: "codec_laws c zero_coin cok cenc" and ok: "cok (Bid m)"
    and len: "length (MsgAuctionBid_enc cenc m) < 2 ^ 60"
  shows "MsgAuctionBid_Unmarshal c empty_bid (MsgAuctionBid_enc cenc m) = Ok m"
proof -
  let ?l = "length (MsgAuctionBid_enc cenc m)"
  let ?run = "\<lambda>m bs. unmarshal_loop (MsgAuctionBid_field c) ?l (length bs) m bs"
  define f1 where "f1 = (if Bidder m \<noteq> [] then 0x0a # chunk (str_bytes (Bidder m)) else [])"
  define f2 where "f2 = 0x12 # chunk (cenc (Bid m))"
  define m1 where "m1 = empty_bid\<lparr>Bidder := Bidder m\<rparr>"
  have enc: "MsgAuctionBid_enc cenc m = f1 @ f2 @ txs_enc (Transactions m)"
    by (simp add: MsgAuctionBid_enc_def f1_def f2_def)
  then have l: "length (f1 @ f2 @ txs_enc (Transactions m)) = ?l" "?l < 2 ^ 62" using len by simp_all
  note b = codec_lawsD(4) [OF c ok]
  have "?run empty_bid (f1 @ f2 @ txs_enc (Transactions m)) = ?run m1 (f2 @ txs_enc (Transactions m))"
    by (rule bid_decoder.loop_field)
      (use l in \<open>auto simp: f1_def m1_def empty_bid_def bid_field_enc split: if_splits\<close>)
  also have "\<dots> = ?run (m1\<lparr>Bid := Bid m\<rparr>) (txs_enc (Transactions m))"
    by (rule bid_decoder.loop_field)
      (use l b in \<open>auto simp: f2_def m1_def empty_bid_def bid_field_enc\<close>)
  also have "\<dots> = Ok m"
    using bid_txs_enc [of "Transactions m" ?l] l by (simp add: m1_def empty_bid_def)
  finally show ?thesis by (simp add: MsgAuctionBid_Unmarshal_def unmarshal_def enc)
qed

lemma MsgAuctionBid_codec_laws:
  assumes c: "codec_laws c zero_coin cok cenc"
  shows "codec_laws (MsgAuctionBid_codec c) empty_bid
     (\<lambda>m. cok (Bid m) \<and> length (MsgAuctionBid_enc cenc m) < 2 ^ 60) (MsgAuctionBid_enc cenc)"
  using MsgAuctionBid_Size_eq [OF c] MsgAuctionBid_Unmarshal_enc [OF c]
    sized_buffer_writes [OF writes_MsgAuctionBid [OF c]]
  by (auto simp: codec_laws_def MsgAuctionBid_codec_def MsgAuctionBid_MarshalToSizedBuffer_def)

section \<open>MsgUpdateParams\<close>

definition MsgUpdateParams_enc ::
  "(coin \<Rightarrow> bytes) \<Rightarrow> ('d \<Rightarrow> bytes) \<Rightarrow> 'd MsgUpdateParams \<Rightarrow> bytes" where
  "MsgUpdateParams_enc cenc denc m =
     (if Authority m \<noteq> [] then 0x0a # chunk (str_bytes (Authority m)) else []) @
     (0x12 # chunk (Params_enc cenc denc (mup_Params m)))"

lemma writes_params_message:
  assumes "pb_laws P cok cenc dok denc" "Params_ok cok cenc dok denc p"
  shows "writes (w_message (Params_codec P) p) (chunk (Params_enc cenc denc p))"
  by (rule writes_messageI) (simp add: Params_codec_def Params_MarshalToSizedBuffer_eq [OF assms])

lemma writes_MsgUpdateParams:
  assumes L: "pb_laws P cok cenc dok denc" and ok: "Params_ok cok cenc dok denc (mup_Params m)"
  shows "writes (MsgUpdateParams_writer P m) (MsgUpdateParams_enc cenc denc m)"
proof (rule writes_cong)
  show "writes (MsgUpdateParams_writer P m)
     (((if length (Authority m) > 0 then [0x0a] @ chunk (str_bytes (Authority m)) else []) @ [0x12]) @
      chunk (Params_enc cenc denc (mup_Params m)))"
    unfolding MsgUpdateParams_writer_def
    by (intro writes_seq writes_if writes_intros writes_params_message [OF L ok])
qed (simp add: MsgUpdateParams_enc_def)

lemma MsgUpdateParams_Marshal_eq:
  assumes L: "pb_laws P cok cenc dok denc" and ok: "Params_ok cok cenc dok denc (mup_Params m)"
  shows "MsgUpdateParams_Marshal P m = Ok (MsgUpdateParams_enc cenc denc m)"
proof -
  let ?e = "MsgUpdateParams_enc cenc denc m"
  have "MsgUpdateParams_MarshalToSizedBuffer P m ([] @ replicate (length ?e) 0) = Ok ([] @ ?e, int (length ?e))"
    unfolding MsgUpdateParams_MarshalToSizedBuffer_def
    by (rule sized_buffer_writes [OF writes_MsgUpdateParams [OF assms]]) simp
  moreover have "MsgUpdateParams_Size P m = int (length ?e)"
    using Params_Size_eq [OF assms] chunk_size_eq [of "str_bytes (Authority m)"]
    by (simp add: MsgUpdateParams_Size_def chunk_size_eq MsgUpdateParams_enc_def Let_def)
  ultimately show ?thesis
    by (simp add: MsgUpdateParams_Marshal_def c_Marshal_def MsgUpdateParams_codec_def)
qed

lemma MsgUpdateParams_Unmarshal_enc:
  fixes m :: "'d MsgUpdateParams"
  assumes L: "pb_laws P cok cenc dok denc" and ok: "Params_ok cok cenc dok denc (mup_Params m)"
    and len: "length (MsgUpdateParams_enc cenc denc m) < 2 ^ 60"
  shows "MsgUpdateParams_Unmarshal P (empty_update P) (MsgUpdateParams_enc cenc denc m) =
     Ok (m\<lparr>mup_Params := norm_escrow (mup_Params m)\<rparr>)"
proof -
  let ?l = "length (MsgUpdateParams_enc cenc denc m)"
  let ?run = "\<lambda>m bs. unmarshal_loop (MsgUpdateParams_field P) ?l (length bs) m bs"
  define f1 where "f1 = (if Authority m \<noteq> [] then 0x0a # chunk (str_bytes (Authority m)) else [])"
  define f2 where "f2 = 0x12 # chunk (Params_enc cenc denc (mup_Params m))"
  define m1 where "m1 = (empty_update P)\<lparr>Authority := Authority m\<rparr>"
  have enc: "MsgUpdateParams_enc cenc denc m = f1 @ f2 @ []"
    by (simp add: MsgUpdateParams_enc_def f1_def f2_def)
  then have l: "length (f1 @ f2 @ []) = ?l" "?l < 2 ^ 62" using len by simp_all
  have "?run (empty_update P) (f1 @ f2 @ []) = ?run m1 (f2 @ [])"
    by (rule update_decoder.loop_field)
      (use l in \<open>auto simp: f1_def m1_def empty_update_def tx_fields read_chunk_chunk split: if_splits\<close>)
  also have "\<dots> = ?run (m1\<lparr>mup_Params := norm_escrow (mup_Params m)\<rparr>) []"
  proof (rule update_decoder.loop_field)
    have "read_chunk ?l (chunk (Params_enc cenc denc (mup_Params m)) @ []) = Ok (Params_enc cenc denc (mup_Params m), [])"
      by (rule read_chunk_chunk) (use l in \<open>auto simp: f2_def\<close>)
    then show "MsgUpdateParams_field P ?l m1 (f2 @ [])
        = Ok (m1\<lparr>mup_Params := norm_escrow (mup_Params m)\<rparr>, [])"
      using Params_Unmarshal_enc [OF L ok] by (simp add: f2_def m1_def empty_update_def tx_fields)
  qed (use l in \<open>auto simp: f2_def\<close>)
  finally show ?thesis by (simp add: MsgUpdateParams_Unmarshal_def unmarshal_def enc m1_def empty_update_def)
qed

section \<open>QueryParamsResponse\<close>

definition QueryParamsResponse_enc ::
  "(coin \<Rightarrow> bytes) \<Rightarrow> ('d \<Rightarrow> bytes) \<Rightarrow> 'd QueryParamsResponse \<Rightarrow> bytes" where
  "QueryParamsResponse_enc cenc denc m = 0x0a # chunk (Params_enc cenc denc (qpr_Params m))"

lemma QueryParamsResponse_Marshal_eq:
  assumes L: "pb_laws P cok cenc dok denc" and ok: "Params_ok cok cenc dok denc (qpr_Params m)"
  shows "QueryParamsResponse_Marshal P m = Ok (QueryParamsResponse_enc cenc denc m)"
proof -
  let ?e = "QueryParamsResponse_enc cenc denc m"
  have "writes (seq_w (w_message (Params_codec P) (qpr_Params m)) (w_byte 0x0a))
      ([0x0a] @ chunk (Params_enc cenc denc (qpr_Params m)))"
    by (rule writes_seq [OF writes_params_message [OF assms] writes_byte])
  then have "QueryParamsResponse_MarshalToSizedBuffer P m ([] @ replicate (length ?e) 0) = Ok ([] @ ?e, int (length ?e))"
    unfolding QueryParamsResponse_MarshalToSizedBuffer_def
    by (intro sized_buffer_writes) (simp_all add: QueryParamsResponse_enc_def)
  moreover have "QueryParamsResponse_Size P m = int (length ?e)"
    using Params_Size_eq [OF assms]
    by (simp add: QueryParamsResponse_Size_def chunk_size_eq QueryParamsResponse_enc_def)
  ultimately show ?thesis
    by (simp add: QueryParamsResponse_Marshal_def c_Marshal_def QueryParamsResponse_codec_def)
qed

lemma QueryParamsResponse_Unmarshal_enc:
  assumes L: "pb_laws P cok cenc dok denc" and ok: "Params_ok cok cenc dok denc (qpr_Params m)"
    and l: "length (QueryParamsResponse_enc cenc denc m) < 2 ^ 60"
  shows "QueryParamsResponse_Unmarshal P \<lparr>qpr_Params = empty_params P\<rparr> (QueryParamsResponse_enc cenc denc m) =
     Ok \<lparr>qpr_Params = norm_escrow (qpr_Params m)\<rparr>"
proof -
  let ?e = "QueryParamsResponse_enc cenc denc m" and ?p = "Params_enc cenc denc (qpr_Params m)"
  have "read_chunk (length ?e) (chunk ?p @ []) = Ok (?p, [])"
    by (rule read_chunk_chunk) (use l in \<open>auto simp: QueryParamsResponse_enc_def\<close>)
  then have "QueryParamsResponse_field P (length ?e) \<lparr>qpr_Params = empty_params P\<rparr> (?e @ []) =
      Ok (\<lparr>qpr_Params = norm_escrow (qpr_Params m)\<rparr>, [])"
    using Params_Unmarshal_enc [OF L ok] by (simp add: tx_fields QueryParamsResponse_enc_def)
  from query_decoder.loop_step [OF this] l show ?thesis
    by (simp add: QueryParamsResponse_Unmarshal_def unmarshal_def) (simp add: QueryParamsResponse_enc_def)
qed

section \<open>Robustness\<close>

text \<open>The branches of the decoders: a chunk that is stored or decoded further, or a skipped field.\<close>

lemma read_chunk_length: "read_chunk l bs = Ok (c, rest) \<Longrightarrow> length c \<le> length bs"
  by (auto simp: read_chunk_def obind_eq_Ok Let_def split: if_splits dest!: decode_varint_shrinks)

lemma MsgAuctionBid_field_no_Panic:
  assumes "\<And>x bz s. c_Unmarshal c x bz \<noteq> Panic s" and "length bs < 2 ^ 62"
  shows "MsgAuctionBid_field c l m bs \<noteq> Panic s"
  unfolding MsgAuctionBid_field_def
  by (intro obind_no_Panic decode_tag_no_Panic)
    (auto simp: obind_eq_Panic decoders_no_Panic skip_unknown_no_Panic [OF assms(2)] assms(1) wrong_wireType_def
      split: if_splits)

lemma params_carriers_no_Panic:
  assumes "\<And>x bz s. c_Unmarshal (pb_coin P) x bz \<noteq> Panic s" "\<And>d bz s. pb_dec_Unmarshal P d bz \<noteq> Panic s"
    and "length bs < 2 ^ 62"
  shows "MsgUpdateParams_field P l m bs \<noteq> Panic s" and "GenesisState_field P l g bs \<noteq> Panic s"
    and "QueryParamsResponse_field P l q bs \<noteq> Panic s"
proof -
  have p: "read_chunk l r = Ok (bz, rest) \<Longrightarrow> decode_tag bs = Ok (f, w, r) \<Longrightarrow>
      Params_Unmarshal P x bz \<noteq> Panic s" for r bz rest f w x s
    by (rule Params_Unmarshal_no_Panic) (use assms in \<open>auto dest!: decode_tag_shrinks read_chunk_length\<close>)
  note branches = obind_eq_Panic decoders_no_Panic skip_unknown_no_Panic [OF assms(3)] wrong_wireType_def
  show "MsgUpdateParams_field P l m bs \<noteq> Panic s" unfolding MsgUpdateParams_field_def
    by (intro obind_no_Panic decode_tag_no_Panic) (auto simp: branches split: if_splits dest: p)
  show "GenesisState_field P l g bs \<noteq> Panic s" unfolding GenesisState_field_def
    by (intro obind_no_Panic decode_tag_no_Panic) (auto simp: branches split: if_splits dest: p)
  show "QueryParamsResponse_field P l q bs \<noteq> Panic s" unfolding QueryParamsResponse_field_def
    by (intro obind_no_Panic decode_tag_no_Panic) (auto simp: branches split: if_splits dest: p)
qed

text \<open>The decoders return a message or an error on every input.\<close>

lemma module_decoders_no_Panic:
  assumes "\<And>x bz s. c_Unmarshal (pb_coin P) x bz \<noteq> Panic s"
    and "\<And>d bz s. pb_dec_Unmarshal P d bz \<noteq> Panic s" and "length dAtA < 2 ^ 62"
  shows "GenesisState_Unmarshal P g dAtA \<noteq> Panic s" "MsgAuctionBid_Unmarshal (pb_coin P) m dAtA \<noteq> Panic s"
    "MsgUpdateParams_Unmarshal P u dAtA \<noteq> Panic s" "QueryParamsResponse_Unmarshal P q dAtA \<noteq> Panic s"
proof -
  show "GenesisState_Unmarshal P g dAtA \<noteq> Panic s"
    unfolding GenesisState_Unmarshal_def
    by (rule genesis_decoder.unmarshal_no_Panic [OF params_carriers_no_Panic(2)]) (use assms in auto)
  show "MsgAuctionBid_Unmarshal (pb_coin P) m dAtA \<noteq> Panic s"
    unfolding MsgAuctionBid_Unmarshal_def
    by (rule bid_decoder.unmarshal_no_Panic [OF MsgAuctionBid_field_no_Panic]) (use assms in auto)
  show "MsgUpdateParams_Unmarshal P u dAtA \<noteq> Panic s"
    unfolding MsgUpdateParams_Unmarshal_def
    by (rule update_decoder.unmarshal_no_Panic [OF params_carriers_no_Panic(1)]) (use assms in auto)
  show "QueryParamsResponse_Unmarshal P q dAtA \<noteq> Panic s"
    unfolding QueryParamsResponse_Unmarshal_def
    by (rule query_decoder.unmarshal_no_Panic [OF params_carriers_no_Panic(3)]) (use assms in auto)
qed

end
