(* ===== verification/Pulsar_Correct.thy ===== *)
theory Pulsar_Correct
  imports Pulsar_Tx Tx_Pb_Correct
begin

text \<open>
  The API messages on the wire: what their \<open>marshal\<close> methods write, that \<open>unmarshal\<close> gives it back, raw
  unknown fields included, and that the bytes are those of the module's own codec
  (\<^verbatim>\<open>x/builder/types/*.pb.go\<close>), so that clients and the module understand each other.
\<close>

section \<open>What the writers write\<close>

lemma writes_delim: "runtime_laws rt \<Longrightarrow> writes (w_delim rt tag bs) (tag # chunk bs)"
proof -
  assume L: "runtime_laws rt"
  have "writes (w_delim rt tag bs) (([tag] @ varint (of_nat (length bs))) @ bs)"
    unfolding w_delim_def by (intro writes_seq writes_copy writes_byte runtime_lawsD(2) [OF L])
  then show ?thesis by (simp add: chunk_def)
qed

definition delim_enc :: "byte \<Rightarrow> bytes \<Rightarrow> bytes" where
  "delim_enc tag bs = (if bs = [] then [] else tag # chunk bs)"

definition sub_enc :: "('a \<Rightarrow> bytes) \<Rightarrow> byte \<Rightarrow> 'a option \<Rightarrow> bytes" where
  "sub_enc enc tag x = (case x of None \<Rightarrow> [] | Some m \<Rightarrow> tag # chunk (enc m))"

definition opt_ok :: "('a \<Rightarrow> bool) \<Rightarrow> 'a option \<Rightarrow> bool" where
  "opt_ok ok x \<longleftrightarrow> (\<forall>m. x = Some m \<longrightarrow> ok m)"

lemma writes_delim_opt: "runtime_laws rt \<Longrightarrow> writes (w_delim_opt rt tag bs) (delim_enc tag bs)"
  by (simp add: w_delim_opt_def delim_enc_def writes_delim writes_skip)

lemma writes_sub:
  assumes "runtime_laws rt" "msg_laws mo discard ok enc" "opt_ok ok x"
  shows "writes (w_sub rt mo tag x) (sub_enc enc tag x)"
proof (cases x)
  case (Some m)
  then have "mo_Marshal mo m = Ok (enc m)" using assms by (intro msg_lawsD [OF assms(2)]) (simp add: opt_ok_def)
  then have "w_sub rt mo tag x = w_delim rt tag (enc m)" using Some by (simp add: w_sub_def)
  then show ?thesis using Some writes_delim [OF assms(1)] by (simp add: sub_enc_def)
qed (simp add: w_sub_def sub_enc_def writes_skip)

lemma writes_unknown: "writes (w_unknown m) (opt_bytes (unknownFields m))"
  by (cases "unknownFields m") (simp_all add: w_unknown_def writes_skip writes_copy)

lemma delim_size_eq:
  assumes "runtime_laws rt"
  shows "delim_size rt (int (length bs)) = int (length (tag # chunk bs))"
  by (simp add: delim_size_def runtime_lawsD(1) [OF assms] length_chunk)

lemma delim_size_opt_eq:
  "runtime_laws rt \<Longrightarrow> delim_size_opt rt (int (length bs)) = int (length (delim_enc tag bs))"
  by (simp add: delim_size_opt_def delim_enc_def delim_size_eq [where tag = tag])

lemma sub_size_eq:
  assumes "runtime_laws rt" "msg_laws mo discard ok enc" "opt_ok ok x"
  shows "sub_size rt mo x = int (length (sub_enc enc tag x))"
proof (cases x)
  case (Some m)
  then have "mo_Size mo m = int (length (enc m))" using assms by (intro msg_lawsD [OF assms(2)]) (simp add: opt_ok_def)
  then show ?thesis using Some by (simp add: sub_size_def sub_enc_def delim_size_eq [OF assms(1), where tag = tag])
qed (simp add: sub_size_def sub_enc_def)

lemma unknown_size_eq: "unknown_size m = int (length (opt_bytes (unknownFields m)))"
  by (cases "unknownFields m") (simp_all add: unknown_size_def)

lemma marshal_frame_eq:
  assumes "writes (w m) e" "sz (Some m) = int (length e)"
  shows "marshal_frame sz w (Some m) buf = Ok (Some (opt_bytes buf @ e))"
  using writesD [OF assms(1), of "replicate (length e) 0" "[]" "[]"] assms(2)
  by (cases buf) (simp_all add: marshal_frame_def buf_st_def)

section \<open>Decoding fields\<close>

lemma delim_field_shrinks: "delim_field l w rest store = Ok (m, rest') \<Longrightarrow> length rest' < length rest"
  by (auto simp: delim_field_def obind_eq_Ok split: if_splits dest!: read_chunk_shrinks)

lemmas api_shrinks = decode_tag_shrinks delim_field_shrinks

lemma keep_unknown_shrinks:
  assumes "runtime_laws rt" "keep_unknown rt discard l m bs = Ok (m', rest)" "bs \<noteq> []" "length bs \<le> l" "l < 2 ^ 62"
  shows "length rest < length bs"
proof -
  from assms(2) obtain n where "rt_Skip rt bs = Ok n" "rest = drop (nat n) bs"
    by (auto simp: keep_unknown_def skip_raw_def obind_eq_Ok Let_def split: if_splits)
  moreover from this(1) have "0 < n" using assms by (intro runtime_lawsD(3) [OF assms(1)]) simp_all
  ultimately show ?thesis using assms(3) by simp
qed

lemma delim_field_chunk:
  assumes "length (chunk bz @ rest) \<le> l" "l < 2 ^ 62"
  shows "delim_field l 2 (chunk bz @ rest) store = obind (store bz) (\<lambda>m. Ok (m, rest))"
  using read_chunk_chunk [OF assms] by (simp add: delim_field_def)

text \<open>Raw fields with a number that the message does not know, and that \<^verbatim>\<open>Skip\<close> can measure.\<close>

definition raw_field :: "'c pulsar_ops \<Rightarrow> int set \<Rightarrow> bytes \<Rightarrow> bool" where
  "raw_field rt known f \<longleftrightarrow> f \<noteq> [] \<and>
     (\<forall>rest. (\<exists>n w r. decode_tag (f @ rest) = Ok (n, w, r) \<and> n \<notin> known) \<and> rt_Skip rt (f @ rest) = Ok (int (length f)))"

definition raw_fields :: "'c pulsar_ops \<Rightarrow> int set \<Rightarrow> bytes option \<Rightarrow> bool" where
  "raw_fields rt known u \<longleftrightarrow> (\<exists>fs. u = (if fs = [] then None else Some (concat fs)) \<and> (\<forall>f \<in> set fs. raw_field rt known f))"

definition add_unknown :: "bool \<Rightarrow> bytes list \<Rightarrow> 'z api_message_scheme \<Rightarrow> 'z api_message_scheme" where
  "add_unknown discard fs m = (if discard \<or> fs = [] then m
     else m\<lparr>unknownFields := Some (opt_bytes (unknownFields m) @ concat fs)\<rparr>)"

lemma keep_raw_field:
  assumes "raw_field rt known f" "length (f @ rest) \<le> l" "l < 2 ^ 62"
  shows "keep_unknown rt discard l m (f @ rest) = Ok (add_unknown discard [f] m, rest)"
proof -
  have "rt_Skip rt (f @ rest) = Ok (int (length f))" using assms(1) by (simp add: raw_field_def)
  moreover have "i64 (int l - int (length (f @ rest)) + int (length f)) = int l - int (length rest)"
    using assms(2,3) by (subst i64_nonneg) simp_all
  ultimately show ?thesis using assms(2)
    by (simp add: keep_unknown_def skip_raw_def Let_def add_unknown_def)
qed

text \<open>A decoding loop that keeps what it does not know, at the end of its input.\<close>

lemma loop_unknown:
  assumes d: "field_decoder step"
    and u: "\<And>m bs n w r. decode_tag bs = Ok (n, w, r) \<Longrightarrow> n \<notin> known \<Longrightarrow> step l m bs = keep_unknown rt discard l m bs"
    and l: "l < 2 ^ 62"
  shows "(\<And>f. f \<in> set fs \<Longrightarrow> raw_field rt known f) \<Longrightarrow> length (concat fs) \<le> l \<Longrightarrow>
    unmarshal_loop step l (length (concat fs)) m (concat fs) = Ok (add_unknown discard fs m)"
proof (induction fs arbitrary: m)
  case (Cons f fs)
  have f: "raw_field rt known f" using Cons.prems by simp
  then obtain n w r where "decode_tag (f @ concat fs) = Ok (n, w, r)" "n \<notin> known"
    unfolding raw_field_def by blast
  then have "step l m (f @ concat fs) = Ok (add_unknown discard [f] m, concat fs)"
    using keep_raw_field [OF f _ l] Cons.prems by (simp add: u)
  then have "unmarshal_loop step l (length (f @ concat fs)) m (f @ concat fs) =
      unmarshal_loop step l (length (concat fs)) (add_unknown discard [f] m) (concat fs)"
    using f Cons.prems l by (intro field_decoder.loop_step [OF d]) (simp_all add: raw_field_def)
  also have "\<dots> = Ok (add_unknown discard fs (add_unknown discard [f] m))" using Cons by simp
  finally show ?case by (simp add: add_unknown_def)
qed (simp add: add_unknown_def)

text \<open>A message whose unknown fields survive decoding.\<close>

definition kept :: "'c pulsar_ops \<Rightarrow> bool \<Rightarrow> int set \<Rightarrow> 'z api_message_scheme \<Rightarrow> bool" where
  "kept rt discard known m \<longleftrightarrow> raw_fields rt known (unknownFields m) \<and> (discard \<longrightarrow> unknownFields m = None)"

lemma loop_kept:
  assumes "field_decoder step"
    and "\<And>m bs n w r. decode_tag bs = Ok (n, w, r) \<Longrightarrow> n \<notin> known \<Longrightarrow> step l m bs = keep_unknown rt discard l m bs"
    and "l < 2 ^ 62" "kept rt discard known m" "unknownFields m' = None" "length (opt_bytes (unknownFields m)) \<le> l"
  shows "unmarshal_loop step l (length (opt_bytes (unknownFields m))) m' (opt_bytes (unknownFields m)) =
     Ok (m'\<lparr>unknownFields := unknownFields m\<rparr>)"
proof -
  obtain fs where fs: "unknownFields m = (if fs = [] then None else Some (concat fs))" "\<And>f. f \<in> set fs \<Longrightarrow> raw_field rt known f"
    using assms(4) by (auto simp: kept_def raw_fields_def)
  then have c: "opt_bytes (unknownFields m) = concat fs" by simp
  have "add_unknown discard fs m' = m'\<lparr>unknownFields := unknownFields m\<rparr>"
    using fs(1) assms(4,5) by (auto simp: add_unknown_def kept_def split: if_splits)
  moreover have "unmarshal_loop step l (length (concat fs)) m' (concat fs) = Ok (add_unknown discard fs m')"
    by (rule loop_unknown [OF assms(1,2,3) fs(2)]) (use assms(6) c in simp_all)
  ultimately show ?thesis using c by simp
qed

text \<open>A decoding that starts with a new message and ends with the given one.\<close>

definition decodes :: "(nat \<Rightarrow> 'm \<Rightarrow> bytes \<Rightarrow> ('m \<times> bytes) outcome) \<Rightarrow> nat \<Rightarrow> 'm \<Rightarrow> bytes \<Rightarrow> 'm \<Rightarrow> bool" where
  "decodes step l m bs m' \<longleftrightarrow> unmarshal_loop step l (length bs) m bs = Ok m'"

lemma decodes_field:
  assumes "field_decoder step" "decodes step l m' rest r"
    and "f \<noteq> [] \<Longrightarrow> step l m (f @ rest) = Ok (m', rest)" "f = [] \<Longrightarrow> m' = m" "length (f @ rest) \<le> l" "l < 2 ^ 62"
  shows "decodes step l m (f @ rest) r"
  using field_decoder.loop_field [OF assms(1,3-6)] assms(2) by (simp add: decodes_def)

lemma decodes_sub:
  assumes "field_decoder step" "msg_laws mo discard ok enc" "decodes step l (m' x) rest r" "opt_ok ok x"
    and "\<And>p. length (chunk (enc p) @ rest) \<le> l \<Longrightarrow> mo_Unmarshal mo discard (mo_new mo) (enc p) = Ok p \<Longrightarrow>
       step l m (tag # chunk (enc p) @ rest) = Ok (m' (Some p), rest)"
    and "m' None = m" "length (sub_enc enc tag x @ rest) \<le> l" "l < 2 ^ 62"
  shows "decodes step l m (sub_enc enc tag x @ rest) r"
proof (rule decodes_field [OF assms(1,3) _ _ assms(7,8)])
  assume "sub_enc enc tag x \<noteq> []"
  then obtain p where p: "x = Some p" by (auto simp: sub_enc_def split: option.splits)
  then have "mo_Unmarshal mo discard (mo_new mo) (enc p) = Ok p"
    using assms(4) by (intro msg_lawsD [OF assms(2)]) (simp add: opt_ok_def)
  then show "step l m (sub_enc enc tag x @ rest) = Ok (m' x, rest)"
    using p assms(5,7) by (simp add: sub_enc_def)
qed (use assms(6) in \<open>auto simp: sub_enc_def split: option.splits\<close>)

lemma decodes_delim:
  assumes "field_decoder step" "decodes step l m' rest r"
    and "bz \<noteq> [] \<Longrightarrow> length (chunk bz @ rest) \<le> l \<Longrightarrow> step l m (tag # chunk bz @ rest) = Ok (m', rest)"
    and "bz = [] \<Longrightarrow> m' = m" "length (delim_enc tag bz @ rest) \<le> l" "l < 2 ^ 62"
  shows "decodes step l m (delim_enc tag bz @ rest) r"
  using assms by (intro decodes_field [OF assms(1,2)]) (auto simp: delim_enc_def split: if_splits)

lemma decodes_kept:
  assumes "field_decoder step"
    and "\<And>m bs n w r. decode_tag bs = Ok (n, w, r) \<Longrightarrow> n \<notin> known \<Longrightarrow> step l m bs = keep_unknown rt discard l m bs"
    and "l < 2 ^ 62" "kept rt discard known m" "unknownFields m' = None" "length (opt_bytes (unknownFields m)) \<le> l"
    and "m'\<lparr>unknownFields := unknownFields m\<rparr> = m"
  shows "decodes step l m' (opt_bytes (unknownFields m)) m"
  using loop_kept [OF assms(1-6)] assms(7) by (simp add: decodes_def)

lemma decodes_unmarshal: "decodes step (length bs) m bs m' \<Longrightarrow> unmarshal_frame step (Some m) bs = Ok (Some m')"
  by (simp add: decodes_def unmarshal_frame_def unmarshal_def)

section \<open>Params\<close>

definition api_Params_enc :: "('c \<Rightarrow> bytes) \<Rightarrow> 'c api_Params \<Rightarrow> bytes" where
  "api_Params_enc cenc m =
     (if pm_MaxBundleSize m \<noteq> 0 then 0x08 # varint (ucast (pm_MaxBundleSize m)) else []) @
     delim_enc 0x12 (opt_bytes (pm_EscrowAccountAddress m)) @
     sub_enc cenc 0x1a (pm_ReserveFee m) @ sub_enc cenc 0x22 (pm_MinBidIncrement m) @
     (if pm_FrontRunningProtection m then [0x28, 1] else []) @
     delim_enc 0x32 (str_bytes (pm_ProposerFee m)) @ opt_bytes (unknownFields m)"

definition api_Params_ok :: "'c pulsar_ops \<Rightarrow> bool \<Rightarrow> ('c \<Rightarrow> bool) \<Rightarrow> ('c \<Rightarrow> bytes) \<Rightarrow> 'c api_Params \<Rightarrow> bool" where
  "api_Params_ok rt discard cok cenc m \<longleftrightarrow> opt_ok cok (pm_ReserveFee m) \<and> opt_ok cok (pm_MinBidIncrement m) \<and>
     kept rt discard {1, 2, 3, 4, 5, 6} m \<and> pm_EscrowAccountAddress m \<noteq> Some [] \<and>
     length (api_Params_enc cenc m) < 2 ^ 60"

lemma writes_api_Params:
  assumes "runtime_laws rt" "msg_laws (rt_coin rt) discard cok cenc" "opt_ok cok (pm_ReserveFee m)" "opt_ok cok (pm_MinBidIncrement m)"
  shows "writes (api_Params_writer rt m) (api_Params_enc cenc m)"
proof (rule writes_cong)
  show "writes (api_Params_writer rt m)
    (((((((if pm_MaxBundleSize m \<noteq> 0 then [0x08] @ varint (ucast (pm_MaxBundleSize m)) else []) @
     delim_enc 0x12 (opt_bytes (pm_EscrowAccountAddress m))) @
     sub_enc cenc 0x1a (pm_ReserveFee m)) @ sub_enc cenc 0x22 (pm_MinBidIncrement m)) @
     (if pm_FrontRunningProtection m then [0x28] @ [if pm_FrontRunningProtection m then 1 else 0] else [])) @
     delim_enc 0x32 (str_bytes (pm_ProposerFee m))) @ opt_bytes (unknownFields m))"
    unfolding api_Params_writer_def
    by (intro writes_seq writes_if writes_delim_opt writes_sub [OF assms(1,2)] writes_unknown writes_byte writes_skip
        runtime_lawsD(2) assms(1,3,4))
qed (simp add: api_Params_enc_def)

lemma api_Params_size_eq:
  assumes L: "runtime_laws rt" and C: "msg_laws (rt_coin rt) discard cok cenc" "opt_ok cok (pm_ReserveFee m)" "opt_ok cok (pm_MinBidIncrement m)"
  shows "api_Params_size rt (Some m) = int (length (api_Params_enc cenc m))"
  using delim_size_opt_eq [OF L, of "str_bytes (pm_ProposerFee m)" "0x32"] runtime_lawsD(1) [OF L]
  by (simp add: api_Params_size_def api_Params_enc_def delim_size_opt_eq [OF L, where tag = "0x12"]
      sub_size_eq [OF L C(1,2), where tag = "0x1a"] sub_size_eq [OF L C(1,3), where tag = "0x22"] unknown_size_eq length_varint)

lemma api_Params_decoder: "runtime_laws rt \<Longrightarrow> field_decoder (api_Params_field rt discard)"
proof
  fix l m bs m' rest
  assume L: "runtime_laws rt" and s: "api_Params_field rt discard l m bs = Ok (m', rest)"
    and b: "bs \<noteq> []" "length bs \<le> l" "l < 2 ^ 62"
  show "length rest < length bs"
  proof (cases "keep_unknown rt discard l m bs = Ok (m', rest)")
    case True
    then show ?thesis using L b by (intro keep_unknown_shrinks)
  next
    case False
    with s show ?thesis
      by (auto simp: api_Params_field_def obind_eq_Ok split: if_splits
          dest!: decode_tag_shrinks delim_field_shrinks decode_varint_shrinks)
  qed
qed

text \<open>The fields one by one, and the unknown rest.\<close>

lemma api_Params_fields:
  assumes "l < 2 ^ 62"
  shows "length (varint v @ rest) \<le> l \<Longrightarrow> api_Params_field rt discard l m (0x08 # varint v @ rest) = Ok (m\<lparr>pm_MaxBundleSize := ucast v\<rparr>, rest)"
    and "length (chunk bz @ rest) \<le> l \<Longrightarrow> api_Params_field rt discard l m (0x12 # chunk bz @ rest) = Ok (m\<lparr>pm_EscrowAccountAddress := Some bz\<rparr>, rest)"
    and "length (chunk bz @ rest) \<le> l \<Longrightarrow> mo_Unmarshal (rt_coin rt) discard (mo_new (rt_coin rt)) bz = Ok c \<Longrightarrow> pm_ReserveFee m = None \<Longrightarrow>
       api_Params_field rt discard l m (0x1a # chunk bz @ rest) = Ok (m\<lparr>pm_ReserveFee := Some c\<rparr>, rest)"
    and "length (chunk bz @ rest) \<le> l \<Longrightarrow> mo_Unmarshal (rt_coin rt) discard (mo_new (rt_coin rt)) bz = Ok c \<Longrightarrow> pm_MinBidIncrement m = None \<Longrightarrow>
       api_Params_field rt discard l m (0x22 # chunk bz @ rest) = Ok (m\<lparr>pm_MinBidIncrement := Some c\<rparr>, rest)"
    and "api_Params_field rt discard l m (0x28 # 1 # rest) = Ok (m\<lparr>pm_FrontRunningProtection := True\<rparr>, rest)"
    and "length (chunk bz @ rest) \<le> l \<Longrightarrow> api_Params_field rt discard l m (0x32 # chunk bz @ rest) = Ok (m\<lparr>pm_ProposerFee := bytes_str bz\<rparr>, rest)"
  using decode_varint_small [of 1 rest] assms
  by (simp_all add: api_Params_field_def delim_field_chunk sub_unmarshal_def)

lemma api_Params_unknown:
  "decode_tag bs = Ok (n, w, r) \<Longrightarrow> n \<notin> {1, 2, 3, 4, 5, 6} \<Longrightarrow> api_Params_field rt discard l m bs = keep_unknown rt discard l m bs"
  by (simp add: api_Params_field_def)

lemma api_Params_decodes:
  fixes m :: "'c api_Params"
  assumes L: "runtime_laws rt" and C: "msg_laws (rt_coin rt) discard cok cenc" and ok: "api_Params_ok rt discard cok cenc m"
    and l: "length (api_Params_enc cenc m) \<le> l" "l < 2 ^ 62"
  shows "decodes (api_Params_field rt discard) l api_Params_Reset (api_Params_enc cenc m) m"
proof -
  let ?u = "opt_bytes (unknownFields m)" and ?s = "api_Params_field rt discard"
  define m1 where "m1 = (api_Params_Reset :: 'c api_Params)\<lparr>pm_MaxBundleSize := pm_MaxBundleSize m\<rparr>"
  define m2 where "m2 = m1\<lparr>pm_EscrowAccountAddress := pm_EscrowAccountAddress m\<rparr>"
  define m3 where "m3 = m2\<lparr>pm_ReserveFee := pm_ReserveFee m\<rparr>"
  define m4 where "m4 = m3\<lparr>pm_MinBidIncrement := pm_MinBidIncrement m\<rparr>"
  define m5 where "m5 = m4\<lparr>pm_FrontRunningProtection := pm_FrontRunningProtection m\<rparr>"
  define m6 where "m6 = m5\<lparr>pm_ProposerFee := pm_ProposerFee m\<rparr>"
  note ms = m1_def m2_def m3_def m4_def m5_def m6_def api_Params_Reset_def
  note d = api_Params_decoder [OF L] and fe = api_Params_fields [OF l(2)] and enc = l(1) [unfolded api_Params_enc_def]
  note o = ok [unfolded api_Params_ok_def]
  have "decodes ?s l m6 ?u m"
    by (rule decodes_kept [where known = "{1, 2, 3, 4, 5, 6}", OF d api_Params_unknown l(2)]) (use o enc in \<open>auto simp: ms\<close>)
  then have "decodes ?s l m5 (delim_enc 0x32 (str_bytes (pm_ProposerFee m)) @ ?u) m"
    by (rule decodes_delim [OF d]) (use enc l(2) in \<open>auto simp: ms fe\<close>)
  then have "decodes ?s l m4 ((if pm_FrontRunningProtection m then [0x28, 1] else []) @
      delim_enc 0x32 (str_bytes (pm_ProposerFee m)) @ ?u) m"
    by (rule decodes_field [OF d]) (use enc l(2) in \<open>auto simp: ms fe split: if_splits\<close>)
  then have "decodes ?s l m3 (sub_enc cenc 0x22 (pm_MinBidIncrement m) @ (if pm_FrontRunningProtection m then [0x28, 1] else []) @
      delim_enc 0x32 (str_bytes (pm_ProposerFee m)) @ ?u) m"
    unfolding m4_def by (rule decodes_sub [OF d C]) (use o enc l(2) in \<open>auto simp: ms fe\<close>)
  then have "decodes ?s l m2 (sub_enc cenc 0x1a (pm_ReserveFee m) @ sub_enc cenc 0x22 (pm_MinBidIncrement m) @
      (if pm_FrontRunningProtection m then [0x28, 1] else []) @ delim_enc 0x32 (str_bytes (pm_ProposerFee m)) @ ?u) m"
    unfolding m3_def by (rule decodes_sub [OF d C]) (use o enc l(2) in \<open>auto simp: ms fe\<close>)
  then have "decodes ?s l m1 (delim_enc 0x12 (opt_bytes (pm_EscrowAccountAddress m)) @ sub_enc cenc 0x1a (pm_ReserveFee m) @
      sub_enc cenc 0x22 (pm_MinBidIncrement m) @ (if pm_FrontRunningProtection m then [0x28, 1] else []) @
      delim_enc 0x32 (str_bytes (pm_ProposerFee m)) @ ?u) m"
    by (rule decodes_delim [OF d])
      (use o enc l(2) in \<open>auto simp: ms fe opt_bytes_def split: option.splits\<close>)
  then show ?thesis
    unfolding api_Params_enc_def by (rule decodes_field [OF d]) (use enc l(2) in \<open>auto simp: ms fe split: if_splits\<close>)
qed

text \<open>The methods of the parameters, as the messages that carry them see them.\<close>

lemma api_Params_ops_laws:
  assumes L: "runtime_laws rt" and C: "msg_laws (rt_coin rt) discard cok cenc"
  shows "msg_laws (api_Params_ops rt) discard (api_Params_ok rt discard cok cenc) (api_Params_enc cenc)"
  unfolding msg_laws_def
proof (intro allI impI conjI)
  fix m assume ok: "api_Params_ok rt discard cok cenc m"
  then have c: "opt_ok cok (pm_ReserveFee m)" "opt_ok cok (pm_MinBidIncrement m)" by (simp_all add: api_Params_ok_def)
  note s = api_Params_size_eq [OF L C c] and w = writes_api_Params [OF L C c]
  show "length (api_Params_enc cenc m) < 2 ^ 60" using ok by (simp add: api_Params_ok_def)
  show "mo_Size (api_Params_ops rt) m = int (length (api_Params_enc cenc m))" by (simp add: api_Params_ops_def s)
  show "mo_Marshal (api_Params_ops rt) m = Ok (api_Params_enc cenc m)"
    using marshal_frame_eq [where w = "api_Params_writer rt" and sz = "api_Params_size rt", OF w s, of None]
    by (simp add: api_Params_ops_def own_bytes_def api_Params_marshal_def)
  show "mo_Unmarshal (api_Params_ops rt) discard (mo_new (api_Params_ops rt)) (api_Params_enc cenc m) = Ok m"
    using api_Params_decodes [OF L C ok order.refl] ok
    by (simp add: api_Params_ops_def api_Params_ok_def decodes_def unmarshal_def)
qed

section \<open>The messages that carry parameters\<close>

definition api_GenesisState_enc :: "('c \<Rightarrow> bytes) \<Rightarrow> 'c api_GenesisState \<Rightarrow> bytes" where
  "api_GenesisState_enc cenc m = sub_enc (api_Params_enc cenc) 0x0a (gn_Params m) @ opt_bytes (unknownFields m)"

definition api_QueryParamsResponse_enc :: "('c \<Rightarrow> bytes) \<Rightarrow> 'c api_QueryParamsResponse \<Rightarrow> bytes" where
  "api_QueryParamsResponse_enc cenc m = sub_enc (api_Params_enc cenc) 0x0a (qrp_Params m) @ opt_bytes (unknownFields m)"

definition api_MsgUpdateParams_enc :: "('c \<Rightarrow> bytes) \<Rightarrow> 'c api_MsgUpdateParams \<Rightarrow> bytes" where
  "api_MsgUpdateParams_enc cenc m = delim_enc 0x0a (str_bytes (up_Authority m)) @
     sub_enc (api_Params_enc cenc) 0x12 (up_Params m) @ opt_bytes (unknownFields m)"

text \<open>Every generated field decoder consumes something and keeps what it does not know.\<close>

lemma api_decoders:
  assumes L: "runtime_laws rt"
  shows "field_decoder (api_GenesisState_field rt discard)" "field_decoder (api_QueryParamsResponse_field rt discard)"
    "field_decoder (api_MsgUpdateParams_field rt discard)" "field_decoder (api_MsgAuctionBid_field rt discard)"
    "field_decoder (api_Module_field rt discard)" "field_decoder (keep_unknown rt discard)"
proof -
  have d: "field_decoder step" if "\<And>l m bs m' rest. step l m bs = Ok (m', rest) \<Longrightarrow>
      keep_unknown rt discard l m bs = Ok (m', rest) \<or> length rest < length bs" for step :: "nat \<Rightarrow> 'z api_message_scheme \<Rightarrow> _"
    by unfold_locales (use that keep_unknown_shrinks [OF L] in blast)
  show "field_decoder (api_GenesisState_field rt discard)"
    by (rule d) (auto simp: api_GenesisState_field_def obind_eq_Ok split: if_splits dest!: api_shrinks)
  show "field_decoder (api_QueryParamsResponse_field rt discard)"
    by (rule d) (auto simp: api_QueryParamsResponse_field_def obind_eq_Ok split: if_splits dest!: api_shrinks)
  show "field_decoder (api_MsgUpdateParams_field rt discard)"
    by (rule d) (auto simp: api_MsgUpdateParams_field_def obind_eq_Ok split: if_splits dest!: api_shrinks)
  show "field_decoder (api_MsgAuctionBid_field rt discard)"
    by (rule d) (auto simp: api_MsgAuctionBid_field_def obind_eq_Ok split: if_splits dest!: api_shrinks)
  show "field_decoder (api_Module_field rt discard)"
    by (rule d) (auto simp: api_Module_field_def obind_eq_Ok split: if_splits dest!: api_shrinks)
  show "field_decoder (keep_unknown rt discard)" by (rule d) blast
qed

definition api_GenesisState_ok ::
  "'c pulsar_ops \<Rightarrow> bool \<Rightarrow> ('c \<Rightarrow> bool) \<Rightarrow> ('c \<Rightarrow> bytes) \<Rightarrow> 'c api_GenesisState \<Rightarrow> bool" where
  "api_GenesisState_ok rt discard cok cenc m \<longleftrightarrow> opt_ok (api_Params_ok rt discard cok cenc) (gn_Params m) \<and>
     kept rt discard {1} m \<and> length (api_GenesisState_enc cenc m) < 2 ^ 60"

definition api_QueryParamsResponse_ok ::
  "'c pulsar_ops \<Rightarrow> bool \<Rightarrow> ('c \<Rightarrow> bool) \<Rightarrow> ('c \<Rightarrow> bytes) \<Rightarrow> 'c api_QueryParamsResponse \<Rightarrow> bool" where
  "api_QueryParamsResponse_ok rt discard cok cenc m \<longleftrightarrow> opt_ok (api_Params_ok rt discard cok cenc) (qrp_Params m) \<and>
     kept rt discard {1} m \<and> length (api_QueryParamsResponse_enc cenc m) < 2 ^ 60"

definition api_MsgUpdateParams_ok ::
  "'c pulsar_ops \<Rightarrow> bool \<Rightarrow> ('c \<Rightarrow> bool) \<Rightarrow> ('c \<Rightarrow> bytes) \<Rightarrow> 'c api_MsgUpdateParams \<Rightarrow> bool" where
  "api_MsgUpdateParams_ok rt discard cok cenc m \<longleftrightarrow> opt_ok (api_Params_ok rt discard cok cenc) (up_Params m) \<and>
     kept rt discard {1, 2} m \<and> length (api_MsgUpdateParams_enc cenc m) < 2 ^ 60"

text \<open>What a message writes has the computed size and is appended to the buffer of the caller.\<close>

lemma api_carriers_marshal:
  assumes L: "runtime_laws rt" and C: "msg_laws (rt_coin rt) discard cok cenc"
  shows "api_GenesisState_ok rt discard cok cenc g \<Longrightarrow>
      api_GenesisState_marshal rt (Some g) buf = Ok (Some (opt_bytes buf @ api_GenesisState_enc cenc g))"
    and "api_QueryParamsResponse_ok rt discard cok cenc q \<Longrightarrow>
      api_QueryParamsResponse_marshal rt (Some q) buf = Ok (Some (opt_bytes buf @ api_QueryParamsResponse_enc cenc q))"
    and "api_MsgUpdateParams_ok rt discard cok cenc u \<Longrightarrow>
      api_MsgUpdateParams_marshal rt (Some u) buf = Ok (Some (opt_bytes buf @ api_MsgUpdateParams_enc cenc u))"
proof -
  note P = api_Params_ops_laws [OF L C]
  note w = writes_seq writes_unknown writes_sub [OF L P] writes_delim_opt [OF L]
  note s = unknown_size_eq sub_size_eq [OF L P]
  show "api_GenesisState_marshal rt (Some g) buf = Ok (Some (opt_bytes buf @ api_GenesisState_enc cenc g))"
    if "api_GenesisState_ok rt discard cok cenc g"
    unfolding api_GenesisState_marshal_def
  proof (rule marshal_frame_eq)
    show "writes (api_GenesisState_writer rt g) (api_GenesisState_enc cenc g)"
      unfolding api_GenesisState_writer_def api_GenesisState_enc_def
      by (intro w) (use that in \<open>simp add: api_GenesisState_ok_def\<close>)
    show "api_GenesisState_size rt (Some g) = int (length (api_GenesisState_enc cenc g))"
      using that s(2) [where tag = "0x0a"] by (simp add: api_GenesisState_size_def api_GenesisState_enc_def api_GenesisState_ok_def s(1))
  qed
  show "api_QueryParamsResponse_marshal rt (Some q) buf = Ok (Some (opt_bytes buf @ api_QueryParamsResponse_enc cenc q))"
    if "api_QueryParamsResponse_ok rt discard cok cenc q"
    unfolding api_QueryParamsResponse_marshal_def
  proof (rule marshal_frame_eq)
    show "writes (api_QueryParamsResponse_writer rt q) (api_QueryParamsResponse_enc cenc q)"
      unfolding api_QueryParamsResponse_writer_def api_QueryParamsResponse_enc_def
      by (intro w) (use that in \<open>simp add: api_QueryParamsResponse_ok_def\<close>)
    show "api_QueryParamsResponse_size rt (Some q) = int (length (api_QueryParamsResponse_enc cenc q))"
      using that s(2) [where tag = "0x0a"]
      by (simp add: api_QueryParamsResponse_size_def api_QueryParamsResponse_enc_def api_QueryParamsResponse_ok_def s(1))
  qed
  show "api_MsgUpdateParams_marshal rt (Some u) buf = Ok (Some (opt_bytes buf @ api_MsgUpdateParams_enc cenc u))"
    if "api_MsgUpdateParams_ok rt discard cok cenc u"
    unfolding api_MsgUpdateParams_marshal_def
  proof (rule marshal_frame_eq)
    have "writes (api_MsgUpdateParams_writer rt u) ((delim_enc 0x0a (str_bytes (up_Authority u)) @
       sub_enc (api_Params_enc cenc) 0x12 (up_Params u)) @ opt_bytes (unknownFields u))"
      unfolding api_MsgUpdateParams_writer_def
      by (intro w) (use that in \<open>simp add: api_MsgUpdateParams_ok_def\<close>)
    then show "writes (api_MsgUpdateParams_writer rt u) (api_MsgUpdateParams_enc cenc u)"
      by (simp add: api_MsgUpdateParams_enc_def)
    show "api_MsgUpdateParams_size rt (Some u) = int (length (api_MsgUpdateParams_enc cenc u))"
      using that s(2) [where tag = "0x12"] delim_size_opt_eq [OF L, of "str_bytes (up_Authority u)" "0x0a"]
      by (simp add: api_MsgUpdateParams_size_def api_MsgUpdateParams_enc_def api_MsgUpdateParams_ok_def s(1))
  qed
qed

text \<open>The fields of the messages, and that other fields are kept.\<close>

lemma api_carrier_fields:
  assumes "l < 2 ^ 62" "length (chunk bz @ rest) \<le> l"
  shows "mo_Unmarshal (api_Params_ops rt) discard (mo_new (api_Params_ops rt)) bz = Ok p \<Longrightarrow> gn_Params g = None \<Longrightarrow>
      api_GenesisState_field rt discard l g (0x0a # chunk bz @ rest) = Ok (g\<lparr>gn_Params := Some p\<rparr>, rest)"
    and "mo_Unmarshal (api_Params_ops rt) discard (mo_new (api_Params_ops rt)) bz = Ok p \<Longrightarrow> qrp_Params q = None \<Longrightarrow>
      api_QueryParamsResponse_field rt discard l q (0x0a # chunk bz @ rest) = Ok (q\<lparr>qrp_Params := Some p\<rparr>, rest)"
    and "mo_Unmarshal (api_Params_ops rt) discard (mo_new (api_Params_ops rt)) bz = Ok p \<Longrightarrow> up_Params u = None \<Longrightarrow>
      api_MsgUpdateParams_field rt discard l u (0x12 # chunk bz @ rest) = Ok (u\<lparr>up_Params := Some p\<rparr>, rest)"
    and "api_MsgUpdateParams_field rt discard l u (0x0a # chunk bz @ rest) = Ok (u\<lparr>up_Authority := bytes_str bz\<rparr>, rest)"
    and "mo_Unmarshal (rt_coin rt) discard (mo_new (rt_coin rt)) bz = Ok c \<Longrightarrow> ab_Bid b = None \<Longrightarrow>
      api_MsgAuctionBid_field rt discard l b (0x12 # chunk bz @ rest) = Ok (b\<lparr>ab_Bid := Some c\<rparr>, rest)"
    and "api_MsgAuctionBid_field rt discard l b (0x0a # chunk bz @ rest) = Ok (b\<lparr>ab_Bidder := bytes_str bz\<rparr>, rest)"
    and "api_MsgAuctionBid_field rt discard l b (0x1a # chunk bz @ rest) =
      Ok (b\<lparr>ab_Transactions := Some (opt_list (ab_Transactions b) @ [bz])\<rparr>, rest)"
    and "api_Module_field rt discard l m (0x0a # chunk bz @ rest) = Ok (m\<lparr>mdl_Authority := bytes_str bz\<rparr>, rest)"
  by (simp_all add: api_GenesisState_field_def api_QueryParamsResponse_field_def api_MsgUpdateParams_field_def
      api_MsgAuctionBid_field_def api_Module_field_def sub_unmarshal_def delim_field_chunk [OF assms(2,1)])

lemma api_unknown:
  assumes "decode_tag bs = Ok (n, w, r)"
  shows "n \<notin> {1} \<Longrightarrow> api_GenesisState_field rt discard l g bs = keep_unknown rt discard l g bs"
    and "n \<notin> {1} \<Longrightarrow> api_QueryParamsResponse_field rt discard l q bs = keep_unknown rt discard l q bs"
    and "n \<notin> {1, 2} \<Longrightarrow> api_MsgUpdateParams_field rt discard l u bs = keep_unknown rt discard l u bs"
    and "n \<notin> {1, 2, 3} \<Longrightarrow> api_MsgAuctionBid_field rt discard l b bs = keep_unknown rt discard l b bs"
    and "n \<notin> {1} \<Longrightarrow> api_Module_field rt discard l m bs = keep_unknown rt discard l m bs"
  using assms by (simp_all add: api_GenesisState_field_def api_QueryParamsResponse_field_def api_MsgUpdateParams_field_def
      api_MsgAuctionBid_field_def api_Module_field_def)

lemma api_GenesisState_decodes:
  assumes L: "runtime_laws rt" and C: "msg_laws (rt_coin rt) discard cok cenc" and ok: "api_GenesisState_ok rt discard cok cenc g"
    and l: "length (api_GenesisState_enc cenc g) \<le> l" "l < 2 ^ 62"
  shows "decodes (api_GenesisState_field rt discard) l api_GenesisState_Reset (api_GenesisState_enc cenc g) g"
  unfolding api_GenesisState_enc_def
proof (rule decodes_sub [OF api_decoders(1) [OF L] api_Params_ops_laws [OF L C],
      where m' = "\<lambda>x. api_GenesisState_Reset\<lparr>gn_Params := x\<rparr>"])
  show "decodes (api_GenesisState_field rt discard) l (api_GenesisState_Reset\<lparr>gn_Params := gn_Params g\<rparr>)
      (opt_bytes (unknownFields g)) g"
    by (rule decodes_kept [OF api_decoders(1) [OF L] api_unknown(1) l(2)])
      (use ok l in \<open>auto simp: api_GenesisState_ok_def api_GenesisState_Reset_def api_GenesisState_enc_def\<close>)
qed (use ok l in \<open>auto simp: api_GenesisState_ok_def api_GenesisState_Reset_def api_GenesisState_enc_def api_carrier_fields(1) [OF l(2)]\<close>)

lemma api_QueryParamsResponse_decodes:
  assumes L: "runtime_laws rt" and C: "msg_laws (rt_coin rt) discard cok cenc" and ok: "api_QueryParamsResponse_ok rt discard cok cenc q"
    and l: "length (api_QueryParamsResponse_enc cenc q) \<le> l" "l < 2 ^ 62"
  shows "decodes (api_QueryParamsResponse_field rt discard) l api_QueryParamsResponse_Reset (api_QueryParamsResponse_enc cenc q) q"
  unfolding api_QueryParamsResponse_enc_def
proof (rule decodes_sub [OF api_decoders(2) [OF L] api_Params_ops_laws [OF L C],
      where m' = "\<lambda>x. api_QueryParamsResponse_Reset\<lparr>qrp_Params := x\<rparr>"])
  show "decodes (api_QueryParamsResponse_field rt discard) l (api_QueryParamsResponse_Reset\<lparr>qrp_Params := qrp_Params q\<rparr>)
      (opt_bytes (unknownFields q)) q"
    by (rule decodes_kept [where known = "{1}", OF api_decoders(2) [OF L] api_unknown(2) l(2)])
      (use ok l in \<open>auto simp: api_QueryParamsResponse_ok_def api_QueryParamsResponse_Reset_def api_QueryParamsResponse_enc_def\<close>)
qed (use ok l in \<open>auto simp: api_QueryParamsResponse_ok_def api_QueryParamsResponse_Reset_def api_QueryParamsResponse_enc_def
       api_carrier_fields(2) [OF l(2)]\<close>)

lemma api_MsgUpdateParams_decodes:
  fixes u :: "'c api_MsgUpdateParams"
  assumes L: "runtime_laws rt" and C: "msg_laws (rt_coin rt) discard cok cenc" and ok: "api_MsgUpdateParams_ok rt discard cok cenc u"
    and l: "length (api_MsgUpdateParams_enc cenc u) \<le> l" "l < 2 ^ 62"
  shows "decodes (api_MsgUpdateParams_field rt discard) l api_MsgUpdateParams_Reset (api_MsgUpdateParams_enc cenc u) u"
proof -
  let ?s = "api_MsgUpdateParams_field rt discard"
  define m1 where "m1 = (api_MsgUpdateParams_Reset :: 'c api_MsgUpdateParams)\<lparr>up_Authority := up_Authority u\<rparr>"
  note d = api_decoders(3) [OF L] and ms = m1_def api_MsgUpdateParams_Reset_def and fe = api_carrier_fields [OF l(2)]
    and o = ok [unfolded api_MsgUpdateParams_ok_def] and enc = l(1) [unfolded api_MsgUpdateParams_enc_def]
  have "decodes ?s l (m1\<lparr>up_Params := up_Params u\<rparr>) (opt_bytes (unknownFields u)) u"
    by (rule decodes_kept [where known = "{1, 2}", OF d api_unknown(3) l(2)]) (use o enc in \<open>auto simp: ms\<close>)
  then have "decodes ?s l m1 (sub_enc (api_Params_enc cenc) 0x12 (up_Params u) @ opt_bytes (unknownFields u)) u"
    by (rule decodes_sub [OF d api_Params_ops_laws [OF L C]]) (use o enc l(2) in \<open>auto simp: ms fe\<close>)
  then show ?thesis
    unfolding api_MsgUpdateParams_enc_def by (rule decodes_delim [OF d]) (use enc l(2) in \<open>auto simp: ms fe\<close>)
qed

section \<open>MsgAuctionBid\<close>

definition api_MsgAuctionBid_enc :: "('c \<Rightarrow> bytes) \<Rightarrow> 'c api_MsgAuctionBid \<Rightarrow> bytes" where
  "api_MsgAuctionBid_enc cenc m = delim_enc 0x0a (str_bytes (ab_Bidder m)) @ sub_enc cenc 0x12 (ab_Bid m) @
     txs_enc (opt_list (ab_Transactions m)) @ opt_bytes (unknownFields m)"

definition api_MsgAuctionBid_ok ::
  "'c pulsar_ops \<Rightarrow> bool \<Rightarrow> ('c \<Rightarrow> bool) \<Rightarrow> ('c \<Rightarrow> bytes) \<Rightarrow> 'c api_MsgAuctionBid \<Rightarrow> bool" where
  "api_MsgAuctionBid_ok rt discard cok cenc m \<longleftrightarrow> opt_ok cok (ab_Bid m) \<and> ab_Transactions m \<noteq> Some [] \<and>
     kept rt discard {1, 2, 3} m \<and> length (api_MsgAuctionBid_enc cenc m) < 2 ^ 60"

lemma writes_api_transactions: "runtime_laws rt \<Longrightarrow> writes (api_transactions_writer rt ts) (txs_enc ts)"
proof (induction ts)
  case (Cons t ts)
  from writes_seq [OF Cons.IH [OF Cons.prems] writes_delim [OF Cons.prems, of "0x1a" t]]
  show ?case by (simp add: txs_enc_def)
qed (simp add: txs_enc_def writes_skip)

lemma api_transactions_size:
  "runtime_laws rt \<Longrightarrow> (\<Sum>b\<leftarrow>ts. delim_size rt (int (length b))) = int (length (txs_enc ts))"
  by (induction ts) (simp_all add: txs_enc_def delim_size_eq [where tag = "0x1a"])

lemma api_MsgAuctionBid_marshal_eq:
  assumes L: "runtime_laws rt" and C: "msg_laws (rt_coin rt) discard cok cenc" and ok: "opt_ok cok (ab_Bid m)"
  shows "api_MsgAuctionBid_marshal rt (Some m) buf = Ok (Some (opt_bytes buf @ api_MsgAuctionBid_enc cenc m))"
  unfolding api_MsgAuctionBid_marshal_def
proof (rule marshal_frame_eq)
  have "writes (api_MsgAuctionBid_writer rt m) (((delim_enc 0x0a (str_bytes (ab_Bidder m)) @ sub_enc cenc 0x12 (ab_Bid m)) @
     txs_enc (opt_list (ab_Transactions m))) @ opt_bytes (unknownFields m))"
    unfolding api_MsgAuctionBid_writer_def
    by (intro writes_seq writes_unknown writes_api_transactions writes_sub [OF L C ok] writes_delim_opt L)
  then show "writes (api_MsgAuctionBid_writer rt m) (api_MsgAuctionBid_enc cenc m)" by (simp add: api_MsgAuctionBid_enc_def)
  show "api_MsgAuctionBid_size rt (Some m) = int (length (api_MsgAuctionBid_enc cenc m))"
    using delim_size_opt_eq [OF L, of "str_bytes (ab_Bidder m)" "0x0a"] sub_size_eq [OF L C ok, of "0x12"]
    by (simp add: api_MsgAuctionBid_size_def api_MsgAuctionBid_enc_def api_transactions_size [OF L] unknown_size_eq)
qed

lemma decodes_transactions:
  assumes d: "field_decoder (api_MsgAuctionBid_field rt discard)" and l: "l < 2 ^ 62"
  shows "decodes (api_MsgAuctionBid_field rt discard) l
        (m\<lparr>ab_Transactions := (if ts = [] then ab_Transactions m else Some (opt_list (ab_Transactions m) @ ts))\<rparr>) rest r \<Longrightarrow>
      length (txs_enc ts @ rest) \<le> l \<Longrightarrow> decodes (api_MsgAuctionBid_field rt discard) l m (txs_enc ts @ rest) r"
proof (induction ts arbitrary: m)
  case (Cons t ts)
  let ?m = "m\<lparr>ab_Transactions := Some (opt_list (ab_Transactions m) @ [t])\<rparr>"
  have "decodes (api_MsgAuctionBid_field rt discard) l ?m (txs_enc ts @ rest) r"
    using Cons.prems by (intro Cons.IH) (auto simp: txs_enc_def split: if_splits)
  then have "decodes (api_MsgAuctionBid_field rt discard) l m ((0x1a # chunk t) @ txs_enc ts @ rest) r"
    by (rule decodes_field [OF d]) (use Cons.prems l in \<open>simp_all add: txs_enc_def api_carrier_fields(7)\<close>)
  then show ?case by (simp add: txs_enc_def)
qed (simp add: txs_enc_def)

lemma api_MsgAuctionBid_decodes:
  fixes m :: "'c api_MsgAuctionBid"
  assumes L: "runtime_laws rt" and C: "msg_laws (rt_coin rt) discard cok cenc" and ok: "api_MsgAuctionBid_ok rt discard cok cenc m"
    and l: "length (api_MsgAuctionBid_enc cenc m) \<le> l" "l < 2 ^ 62"
  shows "decodes (api_MsgAuctionBid_field rt discard) l api_MsgAuctionBid_Reset (api_MsgAuctionBid_enc cenc m) m"
proof -
  let ?s = "api_MsgAuctionBid_field rt discard" and ?u = "opt_bytes (unknownFields m)" and ?ts = "opt_list (ab_Transactions m)"
  define m1 where "m1 = (api_MsgAuctionBid_Reset :: 'c api_MsgAuctionBid)\<lparr>ab_Bidder := ab_Bidder m\<rparr>"
  define m2 where "m2 = m1\<lparr>ab_Bid := ab_Bid m\<rparr>"
  note d = api_decoders(4) [OF L] and ms = m1_def m2_def api_MsgAuctionBid_Reset_def and fe = api_carrier_fields [OF l(2)]
    and o = ok [unfolded api_MsgAuctionBid_ok_def] and enc = l(1) [unfolded api_MsgAuctionBid_enc_def]
  have ts: "(if ?ts = [] then ab_Transactions m2 else Some (opt_list (ab_Transactions m2) @ ?ts)) = ab_Transactions m"
    using o by (auto simp: ms opt_list_def split: option.splits)
  have "decodes ?s l (m2\<lparr>ab_Transactions := ab_Transactions m\<rparr>) ?u m"
    by (rule decodes_kept [where known = "{1, 2, 3}", OF d api_unknown(4) l(2)]) (use o enc in \<open>auto simp: ms\<close>)
  then have "decodes ?s l m2 (txs_enc ?ts @ ?u) m"
    by (intro decodes_transactions [OF d l(2)]) (use enc ts in simp_all)
  then have "decodes ?s l m1 (sub_enc cenc 0x12 (ab_Bid m) @ txs_enc ?ts @ ?u) m"
    unfolding m2_def by (rule decodes_sub [OF d C]) (use o enc l(2) in \<open>auto simp: ms fe\<close>)
  then show ?thesis
    unfolding api_MsgAuctionBid_enc_def by (rule decodes_delim [OF d]) (use enc l(2) in \<open>auto simp: ms fe\<close>)
qed

end
