(* ===== verification/Pulsar_Abci_Correct.thy ===== *)
theory Pulsar_Abci_Correct
  imports Pulsar_Abci Pulsar_Correct "HOL-Library.Multiset"
begin

text \<open>
  The messages of \<^verbatim>\<open>api/pob/abci/v1\<close> on the wire. A registry is decoded to the map that was marshalled,
  in whatever order the entries were written, and the deterministic encoding depends on the map only.
\<close>

section \<open>The view of a map\<close>

text \<open>The methods behave as those of a finite map; a value is read back until it is cleared.\<close>

lemma api_map_ops:
  "api_map_Set (Some (Some r)) (string_key k) (ValueOfBytes v) = Ok (Some (Some (AList.update k v r)))"
  "api_map_Get (Some (Some (AList.update k v r))) (string_key k') =
     (if k' = k then ValueOfBytes v else api_map_Get (Some (Some r)) (string_key k'))"
  "api_map_Has (api_map_Clear x (string_key k)) (string_key k') \<longleftrightarrow> k' \<noteq> k \<and> api_map_Has x (string_key k')"
  "api_map_Has x key \<longleftrightarrow> api_map_Get x key \<noteq> NoValue"
proof -
  show "api_map_Has (api_map_Clear x (string_key k)) (string_key k') \<longleftrightarrow> k' \<noteq> k \<and> api_map_Has x (string_key k')"
    by (cases x; cases "the x") (auto simp: api_map_Has_def api_map_Clear_def string_key_def delete_conv')
  show "api_map_Has x key \<longleftrightarrow> api_map_Get x key \<noteq> NoValue"
    by (auto simp: api_map_Has_def api_map_Get_def split: option.splits)
qed (simp_all add: api_map_Set_def api_map_Get_def string_key_def value_Bytes_def update_conv')

section \<open>AuctionInfo\<close>

definition api_AuctionInfo_enc :: "api_AuctionInfo \<Rightarrow> bytes" where
  "api_AuctionInfo_enc m = delim_enc 0x0a (opt_bytes (ai_ExtendedCommitInfo m)) @
     (if ai_MaxTxBytes m \<noteq> 0 then 0x10 # varint (ai_MaxTxBytes m) else []) @
     (if ai_NumTxs m \<noteq> 0 then 0x18 # varint (ai_NumTxs m) else []) @ opt_bytes (unknownFields m)"

definition api_AuctionInfo_ok :: "'c pulsar_ops \<Rightarrow> bool \<Rightarrow> api_AuctionInfo \<Rightarrow> bool" where
  "api_AuctionInfo_ok rt discard m \<longleftrightarrow> ai_ExtendedCommitInfo m \<noteq> Some [] \<and> kept rt discard {1, 2, 3} m \<and>
     length (api_AuctionInfo_enc m) < 2 ^ 60"

lemma api_AuctionInfo_marshal_eq:
  assumes L: "runtime_laws rt"
  shows "api_AuctionInfo_marshal rt (Some m) buf = Ok (Some (opt_bytes buf @ api_AuctionInfo_enc m))"
  unfolding api_AuctionInfo_marshal_def
proof (rule marshal_frame_eq)
  have "writes (api_AuctionInfo_writer rt m) (((delim_enc 0x0a (opt_bytes (ai_ExtendedCommitInfo m)) @
     (if ai_MaxTxBytes m \<noteq> 0 then [0x10] @ varint (ai_MaxTxBytes m) else [])) @
     (if ai_NumTxs m \<noteq> 0 then [0x18] @ varint (ai_NumTxs m) else [])) @ opt_bytes (unknownFields m))"
    unfolding api_AuctionInfo_writer_def
    by (intro writes_seq writes_if writes_delim_opt writes_unknown writes_byte writes_skip runtime_lawsD(2) L)
  then show "writes (api_AuctionInfo_writer rt m) (api_AuctionInfo_enc m)"
    by (rule writes_cong) (simp add: api_AuctionInfo_enc_def)
  show "api_AuctionInfo_size rt (Some m) = int (length (api_AuctionInfo_enc m))"
    by (simp add: api_AuctionInfo_size_def api_AuctionInfo_enc_def delim_size_opt_eq [OF L, where tag = "0x0a"]
        unknown_size_eq length_varint runtime_lawsD(1) [OF L])
qed

lemma api_AuctionInfo_decoder: "runtime_laws rt \<Longrightarrow> field_decoder (api_AuctionInfo_field rt discard)"
proof
  fix l m bs m' rest
  assume L: "runtime_laws rt" and s: "api_AuctionInfo_field rt discard l m bs = Ok (m', rest)"
    and b: "bs \<noteq> []" "length bs \<le> l" "l < 2 ^ 62"
  show "length rest < length bs"
    using s keep_unknown_shrinks [OF L _ b] unfolding api_AuctionInfo_field_def
    by (auto simp: obind_eq_Ok split: if_splits dest!: api_shrinks decode_varint_shrinks)
qed

lemma decode_tags_varint [simp]:
  "decode_tag (0x10 # rest) = Ok (2, 0, rest)" "decode_tag (0x18 # rest) = Ok (3, 0, rest)"
  by (simp_all add: decode_tag_byte Let_def)

lemma api_AuctionInfo_fields:
  assumes "l < 2 ^ 62"
  shows "length (chunk bz @ rest) \<le> l \<Longrightarrow>
      api_AuctionInfo_field rt discard l m (0x0a # chunk bz @ rest) = Ok (m\<lparr>ai_ExtendedCommitInfo := Some bz\<rparr>, rest)"
    and "api_AuctionInfo_field rt discard l m (0x10 # varint v @ rest) = Ok (m\<lparr>ai_MaxTxBytes := v\<rparr>, rest)"
    and "api_AuctionInfo_field rt discard l m (0x18 # varint v @ rest) = Ok (m\<lparr>ai_NumTxs := v\<rparr>, rest)"
    and "decode_tag bs = Ok (n, w, r) \<Longrightarrow> n \<notin> {1, 2, 3} \<Longrightarrow>
      api_AuctionInfo_field rt discard l m bs = keep_unknown rt discard l m bs"
  using assms by (simp_all add: api_AuctionInfo_field_def delim_field_chunk)

lemma api_AuctionInfo_decodes:
  assumes L: "runtime_laws rt" and ok: "api_AuctionInfo_ok rt discard m"
    and l: "length (api_AuctionInfo_enc m) \<le> l" "l < 2 ^ 62"
  shows "decodes (api_AuctionInfo_field rt discard) l api_AuctionInfo_Reset (api_AuctionInfo_enc m) m"
proof -
  let ?s = "api_AuctionInfo_field rt discard"
  define m1 where "m1 = api_AuctionInfo_Reset\<lparr>ai_ExtendedCommitInfo := ai_ExtendedCommitInfo m\<rparr>"
  define m2 where "m2 = m1\<lparr>ai_MaxTxBytes := ai_MaxTxBytes m\<rparr>"
  note d = api_AuctionInfo_decoder [OF L] and ms = m1_def m2_def api_AuctionInfo_Reset_def
    and fe = api_AuctionInfo_fields [OF l(2)]
    and o = ok [unfolded api_AuctionInfo_ok_def] and enc = l(1) [unfolded api_AuctionInfo_enc_def]
  have "decodes ?s l (m2\<lparr>ai_NumTxs := ai_NumTxs m\<rparr>) (opt_bytes (unknownFields m)) m"
    by (rule decodes_kept [where known = "{1, 2, 3}", OF d fe(4) l(2)]) (use o enc in \<open>auto simp: ms\<close>)
  then have "decodes ?s l m2 ((if ai_NumTxs m \<noteq> 0 then 0x18 # varint (ai_NumTxs m) else []) @ opt_bytes (unknownFields m)) m"
    by (rule decodes_field [OF d]) (use enc l(2) in \<open>auto simp: ms fe(3) split: if_splits\<close>)
  then have "decodes ?s l m1 ((if ai_MaxTxBytes m \<noteq> 0 then 0x10 # varint (ai_MaxTxBytes m) else []) @
      (if ai_NumTxs m \<noteq> 0 then 0x18 # varint (ai_NumTxs m) else []) @ opt_bytes (unknownFields m)) m"
    by (rule decodes_field [OF d]) (use enc l(2) in \<open>auto simp: ms fe(2) split: if_splits\<close>)
  then show ?thesis unfolding api_AuctionInfo_enc_def
    by (rule decodes_delim [OF d])
      (use o enc l(2) in \<open>auto simp: ms fe(1) opt_bytes_def split: option.splits\<close>)
qed

section \<open>VoteExtensionInfo\<close>

definition entry_enc :: "string \<Rightarrow> bytes option \<Rightarrow> bytes" where
  "entry_enc k v = 0x0a # chunk (str_bytes k) @ 0x12 # chunk (opt_bytes v)"

definition registry_enc :: "go_map \<Rightarrow> string list \<Rightarrow> bytes" where
  "registry_enc r ks = concat (map (\<lambda>k. 0x12 # chunk (entry_enc k (go_lookup r k))) ks)"

text \<open>The keys in the order in which their entries stand on the wire.\<close>

definition wire_keys :: "go_order \<Rightarrow> bool \<Rightarrow> go_map \<Rightarrow> string list" where
  "wire_keys ord deterministic r = (if deterministic then sort (ord (map fst r)) else rev (ord (map fst r)))"

definition api_VoteExtensionInfo_enc :: "go_order \<Rightarrow> bool \<Rightarrow> api_VoteExtensionInfo \<Rightarrow> bytes" where
  "api_VoteExtensionInfo_enc ord deterministic m =
     registry_enc (opt_list (vx_Registry m)) (wire_keys ord deterministic (opt_list (vx_Registry m))) @
     opt_bytes (unknownFields m)"

text \<open>An order of iteration visits every key once.\<close>

definition visits_all :: "go_order \<Rightarrow> bool" where
  "visits_all ord \<longleftrightarrow> (\<forall>ks. mset (ord ks) = mset ks)"

lemma wire_keys_mset: "visits_all ord \<Longrightarrow> mset (wire_keys ord det r) = mset (map fst r)"
  by (simp add: wire_keys_def visits_all_def)

lemma writes_entry:
  assumes L: "runtime_laws rt"
  shows "writes (MaRsHaLmAp rt k v) (0x12 # chunk (entry_enc k v))"
  unfolding writes_def
proof (intro allI impI)
  fix free junk out :: bytes
  assume l: "length junk = length (0x12 # chunk (entry_enc k v))"
  let ?e = "entry_enc k v"
  let ?v = "[0x12] @ varint (of_nat (length ?e))"
  define j1 j2 where "j1 = take (length ?v) junk" and "j2 = drop (length ?v) junk"
  have j: "junk = j1 @ j2" "length j1 = length ?v" "length j2 = length ?e"
    using l by (simp_all add: j1_def j2_def chunk_def)
  have "writes (seq_w (w_delim rt 0x12 (opt_bytes v)) (w_delim rt 0x0a (str_bytes k))) ?e"
    using writes_seq [OF writes_delim [OF L, of "0x12" "opt_bytes v"] writes_delim [OF L, of "0x0a" "str_bytes k"]]
    by (simp add: entry_enc_def)
  from writesD [OF this j(3), of "free @ j1" out]
  have 1: "seq_w (w_delim rt 0x12 (opt_bytes v)) (w_delim rt 0x0a (str_bytes k)) (buf_st (free @ junk) out) =
      Ok (buf_st (free @ j1) (?e @ out))" using j(1) by simp
  have "writes (seq_w (rt_EncodeVarint rt (of_nat (length ?e))) (w_byte 0x12)) ?v"
    by (intro writes_seq writes_byte runtime_lawsD(2) L)
  from writesD [OF this j(2), of free "?e @ out"]
  have 2: "seq_w (rt_EncodeVarint rt (of_nat (length ?e))) (w_byte 0x12) (buf_st (free @ j1) (?e @ out)) =
      Ok (buf_st free (0x12 # chunk ?e @ out))" by (simp add: chunk_def)
  have 3: "word_of_nat (length junk) - word_of_nat (length j1) = (word_of_nat (length ?e) :: 64 word)" using j by simp
  show "MaRsHaLmAp rt k v (buf_st (free @ junk) out) = Ok (buf_st free ((0x12 # chunk ?e) @ out))"
    using 1 2 by (simp add: MaRsHaLmAp_def buf_st_def 3)
qed

lemma writes_registry:
  "runtime_laws rt \<Longrightarrow> writes (registry_writer rt r ks) (registry_enc r (rev ks))"
proof (induction ks)
  case (Cons k ks)
  from writes_seq [OF writes_entry [OF Cons.prems] Cons.IH [OF Cons.prems]]
  show ?case by (simp add: registry_enc_def)
qed (simp add: registry_enc_def writes_skip)

lemma SiZeMaP_eq:
  assumes "runtime_laws rt"
  shows "SiZeMaP rt k v = int (length (0x12 # chunk (entry_enc k v)))"
proof -
  have e: "1 + int (length k) + int (sov (of_nat (length k))) + (1 + int (length (opt_bytes v)) + int (sov (of_nat (length (opt_bytes v))))) =
      int (length (entry_enc k v))"
    by (simp add: entry_enc_def length_chunk)
  show ?thesis
    unfolding SiZeMaP_def Let_def runtime_lawsD(1) [OF assms] e by (simp add: length_chunk)
qed

lemma registry_size_eq:
  assumes "runtime_laws rt" "mset ks = mset ks'"
  shows "(\<Sum>k\<leftarrow>ks. SiZeMaP rt k (go_lookup r k)) = int (length (registry_enc r ks'))"
proof -
  have "mset (map (\<lambda>k. SiZeMaP rt k (go_lookup r k)) ks) = mset (map (\<lambda>k. SiZeMaP rt k (go_lookup r k)) ks')"
    using assms(2) by simp
  then have "(\<Sum>k\<leftarrow>ks. SiZeMaP rt k (go_lookup r k)) = (\<Sum>k\<leftarrow>ks'. SiZeMaP rt k (go_lookup r k))"
    by (metis sum_mset_sum_list)
  also have "\<dots> = int (length (registry_enc r ks'))"
    by (induction ks') (simp_all add: registry_enc_def SiZeMaP_eq [OF assms(1)])
  finally show ?thesis .
qed

lemma api_VoteExtensionInfo_marshal_eq:
  assumes L: "runtime_laws rt" and "visits_all ord'" "visits_all ord"
  shows "api_VoteExtensionInfo_marshal rt ord' ord det (Some m) buf =
     Ok (Some (opt_bytes buf @ api_VoteExtensionInfo_enc ord det m))"
  unfolding api_VoteExtensionInfo_marshal_def
proof (rule marshal_frame_eq)
  let ?r = "opt_list (vx_Registry m)"
  have nil: "wire_keys ord det [] = []" using wire_keys_mset [OF assms(3), of det "[]"] by simp
  have "writes (let ks = registry_keys ord det ?r in if length ?r > 0 then registry_writer rt ?r (if det then rev ks else ks) else skip_w)
     (registry_enc ?r (wire_keys ord det ?r))"
    using writes_registry [OF L, of ?r "rev (sort (ord (map fst ?r)))"] writes_registry [OF L, of ?r "ord (map fst ?r)"] nil
    by (cases "?r = []") (simp_all add: registry_keys_def wire_keys_def Let_def registry_enc_def writes_skip)
  from writes_seq [OF writes_unknown [of m] this]
  show "writes (api_VoteExtensionInfo_writer rt ord det m) (api_VoteExtensionInfo_enc ord det m)"
    unfolding api_VoteExtensionInfo_writer_def api_VoteExtensionInfo_enc_def Let_def .
  have "mset (registry_keys ord' det ?r) = mset (wire_keys ord det ?r)"
    using assms(2,3) by (simp add: registry_keys_def wire_keys_def visits_all_def)
  then show "api_VoteExtensionInfo_size rt ord' det (Some m) = int (length (api_VoteExtensionInfo_enc ord det m))"
    using registry_size_eq [OF L] nil
    by (cases "?r = []") (simp_all add: api_VoteExtensionInfo_size_def api_VoteExtensionInfo_enc_def unknown_size_eq Let_def registry_enc_def)
qed

text \<open>Decoding an entry: the loop ends at its end, with key and value.\<close>

lemma entry_field_chunks:
  assumes "length (chunk bz @ rest) \<le> l" "l < 2 ^ 62"
  shows "entry_field rt l p e (0x0a # chunk bz @ rest) = Ok ((bytes_str bz, snd e), rest)"
    and "entry_field rt l p e (0x12 # chunk bz @ rest) = Ok ((fst e, Some bz), rest)"
  by (simp_all add: entry_field_def decode_varint_small read_chunk_chunk [OF assms])

lemma entry_loop_end: "p \<le> int l - int (length bs) \<Longrightarrow> entry_loop n rt l p e bs = Ok e"
  by (cases n) simp_all

lemma entry_loop_enc:
  assumes "length (entry_enc k v @ rest) \<le> l" "l < 2 ^ 62" "2 \<le> n"
  shows "entry_loop n rt l (int l - int (length rest)) e (entry_enc k v @ rest) = Ok (k, Some (opt_bytes v))"
proof -
  obtain n' where "n = Suc (Suc n')" using assms(3) by (metis add_2_eq_Suc le_Suc_ex)
  then show ?thesis
    using assms(1,2) by (simp add: entry_enc_def entry_field_chunks entry_loop_end)
qed

lemma entry_enc_length: "2 \<le> length (entry_enc k v)"
  by (simp add: entry_enc_def)

lemma api_VoteExtensionInfo_decoder: "runtime_laws rt \<Longrightarrow> field_decoder (api_VoteExtensionInfo_field rt discard)"
proof
  fix l m bs m' rest
  assume L: "runtime_laws rt" and s: "api_VoteExtensionInfo_field rt discard l m bs = Ok (m', rest)"
    and b: "bs \<noteq> []" "length bs \<le> l" "l < 2 ^ 62"
  show "length rest < length bs"
    using s keep_unknown_shrinks [OF L _ b] unfolding api_VoteExtensionInfo_field_def
    by (auto simp: obind_eq_Ok split: if_splits dest!: decode_tag_shrinks read_chunk_shrinks)
qed

lemma api_VoteExtensionInfo_fields:
  assumes "l < 2 ^ 62"
  shows "length (chunk (entry_enc k v) @ rest) \<le> l \<Longrightarrow>
      api_VoteExtensionInfo_field rt discard l m (0x12 # chunk (entry_enc k v) @ rest) =
      Ok (m\<lparr>vx_Registry := Some (AList.update k (Some (opt_bytes v)) (opt_list (vx_Registry m)))\<rparr>, rest)"
    and "decode_tag bs = Ok (n, w, r) \<Longrightarrow> n \<notin> {2} \<Longrightarrow>
      api_VoteExtensionInfo_field rt discard l m bs = keep_unknown rt discard l m bs"
proof -
  assume l: "length (chunk (entry_enc k v) @ rest) \<le> l"
  then have "length (entry_enc k v @ rest) \<le> l" by (simp add: length_chunk)
  moreover have "2 \<le> length (entry_enc k v @ rest)" using entry_enc_length [of k v] by simp
  ultimately have "entry_loop (length (entry_enc k v @ rest)) rt l (int l - int (length rest)) ('''', None) (entry_enc k v @ rest) =
      Ok (k, Some (opt_bytes v))" by (rule entry_loop_enc [OF _ assms])
  then show "api_VoteExtensionInfo_field rt discard l m (0x12 # chunk (entry_enc k v) @ rest) =
      Ok (m\<lparr>vx_Registry := Some (AList.update k (Some (opt_bytes v)) (opt_list (vx_Registry m)))\<rparr>, rest)"
    using read_chunk_chunk [OF l assms] by (simp add: api_VoteExtensionInfo_field_def)
qed (simp add: api_VoteExtensionInfo_field_def)

lemma update_fresh: "k \<notin> fst ` set r \<Longrightarrow> AList.update k v r = r @ [(k, v)]"
  by (induction r) auto

lemma decodes_registry:
  assumes d: "field_decoder (api_VoteExtensionInfo_field rt discard)" and l: "l < 2 ^ 62"
  shows "decodes (api_VoteExtensionInfo_field rt discard) l
        (m\<lparr>vx_Registry := (if ks = [] then vx_Registry m
           else Some (opt_list (vx_Registry m) @ map (\<lambda>k. (k, Some (opt_bytes (go_lookup r k)))) ks))\<rparr>) rest x \<Longrightarrow>
      length (registry_enc r ks @ rest) \<le> l \<Longrightarrow> distinct ks \<Longrightarrow> set ks \<inter> fst ` set (opt_list (vx_Registry m)) = {} \<Longrightarrow>
      decodes (api_VoteExtensionInfo_field rt discard) l m (registry_enc r ks @ rest) x"
proof (induction ks arbitrary: m)
  case (Cons k ks)
  let ?e = "entry_enc k (go_lookup r k)"
  let ?m = "m\<lparr>vx_Registry := Some (opt_list (vx_Registry m) @ [(k, Some (opt_bytes (go_lookup r k)))])\<rparr>"
  have "decodes (api_VoteExtensionInfo_field rt discard) l ?m (registry_enc r ks @ rest) x"
    using Cons.prems by (intro Cons.IH) (auto simp: registry_enc_def split: if_splits)
  then have "decodes (api_VoteExtensionInfo_field rt discard) l m ((0x12 # chunk ?e) @ registry_enc r ks @ rest) x"
    by (rule decodes_field [OF d])
      (use Cons.prems l in \<open>simp_all add: registry_enc_def api_VoteExtensionInfo_fields(1) update_fresh\<close>)
  then show ?case by (simp add: registry_enc_def)
qed (simp add: registry_enc_def)

text \<open>The registry as a finite map; on the wire a nil value is an empty one.\<close>

definition registry_map :: "api_VoteExtensionInfo \<Rightarrow> string \<Rightarrow> bytes option" where
  "registry_map m k = map_option opt_bytes (map_of (opt_list (vx_Registry m)) k)"

definition api_VoteExtensionInfo_ok :: "'c pulsar_ops \<Rightarrow> bool \<Rightarrow> go_order \<Rightarrow> bool \<Rightarrow> api_VoteExtensionInfo \<Rightarrow> bool" where
  "api_VoteExtensionInfo_ok rt discard ord det m \<longleftrightarrow> distinct (map fst (opt_list (vx_Registry m))) \<and>
     kept rt discard {2} m \<and> length (api_VoteExtensionInfo_enc ord det m) < 2 ^ 60"

lemma map_of_keys: "map_of (map (\<lambda>k. (k, f k)) ks) k = (if k \<in> set ks then Some (f k) else None)"
  by (induction ks) auto

lemma go_lookup_in: "k \<in> fst ` set r \<Longrightarrow> map_of r k = Some (go_lookup r k)"
  by (cases "map_of r k") (auto simp: go_lookup_def map_of_eq_None_iff)

lemma api_VoteExtensionInfo_unmarshal_enc:
  assumes L: "runtime_laws rt" and O: "visits_all ord" and ok: "api_VoteExtensionInfo_ok rt discard ord det m"
  shows "\<exists>m'. api_VoteExtensionInfo_unmarshal rt discard (Some api_VoteExtensionInfo_Reset)
      (api_VoteExtensionInfo_enc ord det m) = Ok (Some m') \<and> registry_map m' = registry_map m \<and> unknownFields m' = unknownFields m"
proof -
  let ?s = "api_VoteExtensionInfo_field rt discard" and ?r = "opt_list (vx_Registry m)" and ?e = "api_VoteExtensionInfo_enc ord det m"
  define ks where "ks = wire_keys ord det ?r"
  define m1 where "m1 = api_VoteExtensionInfo_Reset\<lparr>vx_Registry :=
    (if ks = [] then None else Some (map (\<lambda>k. (k, Some (opt_bytes (go_lookup ?r k)))) ks))\<rparr>"
  define m' where "m' = m1\<lparr>unknownFields := unknownFields m\<rparr>"
  note o = ok [unfolded api_VoteExtensionInfo_ok_def] and ms = m1_def m'_def api_VoteExtensionInfo_Reset_def
  have ks: "mset ks = mset (map fst ?r)" unfolding ks_def by (rule wire_keys_mset [OF O])
  have dist: "distinct ks" using o mset_eq_imp_distinct_iff [OF ks] by simp
  have l: "?e = registry_enc ?r ks @ opt_bytes (unknownFields m)" "length ?e < 2 ^ 62"
    using o by (simp_all add: api_VoteExtensionInfo_enc_def ks_def)
  have m1: "api_VoteExtensionInfo_Reset\<lparr>vx_Registry := (if ks = [] then vx_Registry api_VoteExtensionInfo_Reset
      else Some (opt_list (vx_Registry api_VoteExtensionInfo_Reset) @ map (\<lambda>k. (k, Some (opt_bytes (go_lookup ?r k)))) ks))\<rparr> = m1"
    by (simp add: m1_def api_VoteExtensionInfo_Reset_def)
  have "decodes ?s (length ?e) m1 (opt_bytes (unknownFields m')) m'"
    by (rule decodes_kept [where known = "{2}", OF api_VoteExtensionInfo_decoder [OF L] api_VoteExtensionInfo_fields(2) l(2)])
      (use o l in \<open>auto simp: ms kept_def api_VoteExtensionInfo_enc_def\<close>)
  then have "decodes ?s (length ?e) api_VoteExtensionInfo_Reset (registry_enc ?r ks @ opt_bytes (unknownFields m)) m'"
    using decodes_registry [OF api_VoteExtensionInfo_decoder [OF L] l(2), where m = api_VoteExtensionInfo_Reset and ks = ks and r = ?r]
      dist l(1) unfolding m1 by (simp add: m'_def api_VoteExtensionInfo_Reset_def)
  then have "api_VoteExtensionInfo_unmarshal rt discard (Some api_VoteExtensionInfo_Reset) ?e = Ok (Some m')"
    unfolding api_VoteExtensionInfo_unmarshal_def l(1) [symmetric] by (rule decodes_unmarshal)
  moreover have "registry_map m' k = registry_map m k" for k
  proof -
    have "opt_list (vx_Registry m') = map (\<lambda>k. (k, Some (opt_bytes (go_lookup ?r k)))) ks" by (simp add: ms)
    moreover have "set ks = fst ` set ?r" using mset_eq_setD [OF ks] by simp
    ultimately show ?thesis
      using go_lookup_in [of k ?r] map_of_eq_None_iff [of ?r k] by (auto simp: registry_map_def map_of_keys)
  qed
  ultimately show ?thesis by (intro exI [of _ m']) (auto simp: m'_def)
qed

text \<open>The deterministic encoding is a function of the map and the unknown fields.\<close>

lemma sort_visited: "visits_all ord \<Longrightarrow> distinct ks \<Longrightarrow> sort (ord ks) = sorted_list_of_set (set ks)"
  by (simp add: sorted_list_of_set_sort_remdups distinct_remdups_id visits_all_def properties_for_sort)

lemma deterministic_enc:
  assumes "visits_all ord" "visits_all ord'" "distinct (map fst (opt_list (vx_Registry n)))" "distinct (map fst (opt_list (vx_Registry m)))"
    and "registry_map n = registry_map m" "unknownFields n = unknownFields m"
  shows "api_VoteExtensionInfo_enc ord True n = api_VoteExtensionInfo_enc ord' True m"
proof -
  have dom: "fst ` set (opt_list (vx_Registry x)) = dom (registry_map x)" for x
    by (simp add: registry_map_def dom_def flip: dom_map_of_conv_image_fst)
  then have k: "wire_keys ord True (opt_list (vx_Registry n)) = wire_keys ord' True (opt_list (vx_Registry m))"
    using assms by (simp add: wire_keys_def sort_visited)
  have "opt_bytes (go_lookup (opt_list (vx_Registry x)) k) = (case registry_map x k of None \<Rightarrow> [] | Some b \<Rightarrow> b)" for x k
    by (simp add: go_lookup_def registry_map_def split: option.splits)
  then show ?thesis
    unfolding api_VoteExtensionInfo_enc_def registry_enc_def k entry_enc_def using assms(5,6) by simp
qed

end
