(* ===== verification/Pulsar_Total.thy ===== *)
theory Pulsar_Total
  imports Pulsar_Abci_Correct
begin

text \<open>
  The decoders of the API packages end on every input, with a message or an error: the loops consume
  bytes in every round, the inner loop over an entry of a map included.
\<close>

text \<open>What the decoders rely on: the runtime and the decoder of a coin do not panic.\<close>

definition quiet_runtime :: "'c pulsar_ops \<Rightarrow> bool \<Rightarrow> bool" where
  "quiet_runtime rt discard \<longleftrightarrow> (\<forall>bs s. length bs < 2 ^ 62 \<longrightarrow> rt_Skip rt bs \<noteq> Panic s) \<and>
     (\<forall>c bs s. length bs < 2 ^ 62 \<longrightarrow> mo_Unmarshal (rt_coin rt) discard c bs \<noteq> Panic s)"

lemma quiet_runtimeD:
  assumes "quiet_runtime rt discard" "length bs < 2 ^ 62"
  shows "rt_Skip rt bs \<noteq> Panic s" "mo_Unmarshal (rt_coin rt) discard c bs \<noteq> Panic s"
  using assms unfolding quiet_runtime_def by blast+

lemma keep_unknown_no_Panic:
  "quiet_runtime rt discard \<Longrightarrow> length bs < 2 ^ 62 \<Longrightarrow> keep_unknown rt discard l m bs \<noteq> Panic s"
  unfolding keep_unknown_def skip_raw_def
  by (intro obind_no_Panic) (auto simp: quiet_runtimeD(1) Let_def split: if_splits)

lemma delim_field_Panic:
  "delim_field l w rest store = Panic s \<Longrightarrow> \<exists>bz. length bz \<le> length rest \<and> store bz = Panic s"
  by (auto simp: delim_field_def obind_eq_Panic read_chunk_no_Panic split: if_splits dest!: read_chunk_length)

lemma frame_no_Panic:
  assumes "field_decoder step" "\<And>m bs s. length bs \<le> length d \<Longrightarrow> step (length d) m bs \<noteq> Panic s" "length d < 2 ^ 62"
  shows "unmarshal_frame step x d \<noteq> Panic s" "unmarshal step m d \<noteq> Panic s"
proof -
  show "unmarshal step m d \<noteq> Panic s" for m
    by (rule field_decoder.unmarshal_no_Panic [OF assms(1) _ assms(3)]) (use assms(2) in blast)
  then show "unmarshal_frame step x d \<noteq> Panic s"
    by (auto simp: unmarshal_frame_def obind_eq_Panic split: option.splits)
qed

lemma entry_field_no_Panic:
  "quiet_runtime rt discard \<Longrightarrow> length bs < 2 ^ 62 \<Longrightarrow> entry_field rt l p e bs \<noteq> Panic s"
  unfolding entry_field_def
  by (intro obind_no_Panic decode_varint_no_Panic)
    (auto simp: Let_def obind_eq_Panic read_chunk_no_Panic quiet_runtimeD(1) split: if_splits)

lemma entry_field_shrinks:
  assumes "runtime_laws rt" "entry_field rt l p e bs = Ok (e', rest)" "length bs < 2 ^ 62" "bs \<noteq> []"
  shows "length rest < length bs"
proof -
  have "0 < n" if "rt_Skip rt bs = Ok n" for n using runtime_lawsD(3) [OF assms(1,3) that] .
  then show ?thesis
    using assms(2,4) unfolding entry_field_def
    by (fastforce simp: obind_eq_Ok Let_def split: if_splits dest!: decode_varint_shrinks read_chunk_shrinks)
qed

text \<open>As many rounds as there are bytes are enough for an entry.\<close>

lemma entry_loop_no_Panic:
  assumes "runtime_laws rt" "quiet_runtime rt discard" "l < 2 ^ 62" "p \<le> int l"
  shows "length bs \<le> n \<Longrightarrow> length bs \<le> l \<Longrightarrow> entry_loop n rt l p e bs \<noteq> Panic s"
proof (induction n arbitrary: e bs)
  case (Suc n)
  show ?case
  proof (cases "int l - int (length bs) < p")
    case True
    then have "bs \<noteq> []" using assms(4) by auto
    then have "length rest \<le> n \<and> length rest \<le> l" if "entry_field rt l p e bs = Ok (e', rest)" for e' rest
      using entry_field_shrinks [OF assms(1) that] Suc.prems assms(3) by simp
    then have "obind (entry_field rt l p e bs) (\<lambda>(e', rest). entry_loop n rt l p e' rest) \<noteq> Panic s"
      using Suc.IH entry_field_no_Panic [OF assms(2)] Suc.prems assms(3) by (intro obind_no_Panic) auto
    then show ?thesis using True by simp
  qed simp
qed (use assms(4) in auto)

lemma api_Params_field_no_Panic:
  assumes "quiet_runtime rt discard" "length bs < 2 ^ 62"
  shows "api_Params_field rt discard l m bs \<noteq> Panic s"
  unfolding api_Params_field_def sub_unmarshal_def
  by (intro obind_no_Panic decode_tag_no_Panic)
    (use assms in \<open>auto simp: obind_eq_Panic quiet_runtimeD keep_unknown_no_Panic decode_varint_no_Panic
       split: if_splits dest!: decode_tag_shrinks delim_field_Panic\<close>)

lemma api_Params_ops_no_Panic:
  assumes "runtime_laws rt" "quiet_runtime rt discard" "length bs < 2 ^ 62"
  shows "mo_Unmarshal (api_Params_ops rt) discard m bs \<noteq> Panic s"
  unfolding api_Params_ops_def
  by simp (rule frame_no_Panic(2) [OF api_Params_decoder [OF assms(1)] api_Params_field_no_Panic [OF assms(2)] assms(3)],
      use assms(3) in simp)

lemma api_fields_no_Panic:
  assumes L: "runtime_laws rt" and Q: "quiet_runtime rt discard" and b: "length bs < 2 ^ 62"
  shows "api_GenesisState_field rt discard l g bs \<noteq> Panic s" "api_QueryParamsResponse_field rt discard l q bs \<noteq> Panic s"
    "api_MsgUpdateParams_field rt discard l u bs \<noteq> Panic s" "api_MsgAuctionBid_field rt discard l a bs \<noteq> Panic s"
    "api_AuctionInfo_field rt discard l i bs \<noteq> Panic s"
  unfolding api_GenesisState_field_def api_QueryParamsResponse_field_def api_MsgUpdateParams_field_def
    api_MsgAuctionBid_field_def api_AuctionInfo_field_def sub_unmarshal_def
  by (use Q b in \<open>auto simp: obind_eq_Panic quiet_runtimeD api_Params_ops_no_Panic [OF L Q] keep_unknown_no_Panic decoders_no_Panic
       split: if_splits dest!: decode_tag_shrinks delim_field_Panic\<close>)+

lemma api_VoteExtensionInfo_field_no_Panic:
  assumes "runtime_laws rt" "quiet_runtime rt discard" "length bs \<le> l" "l < 2 ^ 62"
  shows "api_VoteExtensionInfo_field rt discard l m bs \<noteq> Panic s"
proof -
  have "entry_loop (length bz + length rest') rt l (int l - int (length rest')) e (bz @ rest') \<noteq> Panic s"
    if "read_chunk l rest = Ok (bz, rest')" "decode_tag bs = Ok (f, w, rest)" for rest bz rest' f w e
  proof (rule entry_loop_no_Panic [OF assms(1,2,4)])
    have "length (bz @ rest') \<le> length rest"
      using that(1) by (auto simp: read_chunk_def obind_eq_Ok Let_def split: if_splits dest!: decode_varint_shrinks)
    then show "length (bz @ rest') \<le> l" using decode_tag_shrinks [OF that(2)] assms(3) by simp
  qed simp_all
  then show ?thesis
    unfolding api_VoteExtensionInfo_field_def
    by (intro obind_no_Panic decode_tag_no_Panic)
      (use assms in \<open>auto simp: obind_eq_Panic keep_unknown_no_Panic read_chunk_no_Panic split: if_splits\<close>)
qed

text \<open>The decoders of all messages of the API packages.\<close>

lemma api_unmarshal_no_Panic:
  assumes L: "runtime_laws rt" and Q: "quiet_runtime rt discard" and b: "length d < 2 ^ 62"
  shows "api_Params_unmarshal rt discard p d \<noteq> Panic s" "api_GenesisState_unmarshal rt discard g d \<noteq> Panic s"
    "api_QueryParamsResponse_unmarshal rt discard q d \<noteq> Panic s" "api_MsgUpdateParams_unmarshal rt discard u d \<noteq> Panic s"
    "api_MsgAuctionBid_unmarshal rt discard a d \<noteq> Panic s" "api_AuctionInfo_unmarshal rt discard i d \<noteq> Panic s"
    "api_VoteExtensionInfo_unmarshal rt discard v d \<noteq> Panic s"
  unfolding api_Params_unmarshal_def api_GenesisState_unmarshal_def api_QueryParamsResponse_unmarshal_def
    api_MsgUpdateParams_unmarshal_def api_MsgAuctionBid_unmarshal_def api_AuctionInfo_unmarshal_def
    api_VoteExtensionInfo_unmarshal_def
  by (intro frame_no_Panic(1) api_Params_decoder api_decoders api_AuctionInfo_decoder api_VoteExtensionInfo_decoder
      api_Params_field_no_Panic api_fields_no_Panic api_VoteExtensionInfo_field_no_Panic L Q b; use b in simp)+

end
