(* ===== verification/Pulsar_Reflect.thy ===== *)
theory Pulsar_Reflect
  imports Pulsar_Tx Pulsar_Abci
begin

text \<open>
  The fast reflection of the API messages as a client sees it. The contract of a message is the locale
  \<open>reflected_message\<close>: its fields can be read, set and cleared independently of each other, \<^verbatim>\<open>Range\<close> visits
  the populated ones, and they determine the message up to its unknown fields and the difference
  between a nil and an empty slice. Every message of the package satisfies it; what follows in the
  locale is that a message can be copied field by field.
\<close>

definition copy_message ::
  "('m option \<Rightarrow> ('m outcome \<Rightarrow> field_descriptor \<Rightarrow> ('c, 'p) Value \<Rightarrow> 'm outcome \<times> bool) \<Rightarrow> 'm outcome \<Rightarrow> 'm outcome outcome) \<Rightarrow>
   ('m option \<Rightarrow> field_descriptor \<Rightarrow> ('c, 'p) Value \<Rightarrow> 'm outcome) \<Rightarrow> 'm \<Rightarrow> 'm \<Rightarrow> 'm outcome" where
  "copy_message f_Range f_Set new m =
     obind (f_Range (Some m) (\<lambda>acc d v. case acc of Ok y \<Rightarrow> (f_Set (Some y) d v, True) | _ \<Rightarrow> (acc, False)) (Ok new)) id"

locale reflected_message =
  fixes fields :: "string list"
    and new :: 'm
    and norm :: "'m \<Rightarrow> 'm"
    and visits :: "'m \<Rightarrow> (bool \<times> field_descriptor \<times> ('c, 'p) Value) list"
    and f_Range :: "'m option \<Rightarrow> ('m outcome \<Rightarrow> field_descriptor \<Rightarrow> ('c, 'p) Value \<Rightarrow> 'm outcome \<times> bool) \<Rightarrow> 'm outcome \<Rightarrow> 'm outcome outcome"
    and f_Has :: "'m option \<Rightarrow> field_descriptor \<Rightarrow> bool outcome"
    and f_Clear :: "'m option \<Rightarrow> field_descriptor \<Rightarrow> 'm outcome"
    and f_Get :: "'m option \<Rightarrow> field_descriptor \<Rightarrow> ('c, 'p) Value outcome"
    and f_Set :: "'m option \<Rightarrow> field_descriptor \<Rightarrow> ('c, 'p) Value \<Rightarrow> 'm outcome"
  assumes distinct_fields: "distinct fields"
    and visits_fields: "map (\<lambda>(p, d, v). d) (visits m) = map fd fields"
    and visits_read: "(p, d, v) \<in> set (visits m) \<Longrightarrow> f_Has (Some m) d = Ok p \<and> (p \<longrightarrow> f_Get (Some m) d = Ok v)"
    and Range_visits: "f_Range (Some m) f s = Ok (visit f (visits m) s)"
    and new_empty: "n \<in> set fields \<Longrightarrow> f_Has (Some new) (fd n) = Ok False"
    and Set_visited: "(True, fd n, v) \<in> set (visits m) \<Longrightarrow>
       \<exists>y'. f_Set (Some y) (fd n) v = Ok y' \<and> f_Has (Some y') (fd n) = Ok True \<and> f_Get (Some y') (fd n) = Ok v \<and>
         (\<forall>k \<in> set fields. k \<noteq> n \<longrightarrow>
            f_Has (Some y') (fd k) = f_Has (Some y) (fd k) \<and> f_Get (Some y') (fd k) = f_Get (Some y) (fd k))"
    and Clear_field: "n \<in> set fields \<Longrightarrow>
       \<exists>y'. f_Clear (Some y) (fd n) = Ok y' \<and> f_Has (Some y') (fd n) = Ok False \<and>
         (\<forall>k \<in> set fields. k \<noteq> n \<longrightarrow>
            f_Has (Some y') (fd k) = f_Has (Some y) (fd k) \<and> f_Get (Some y') (fd k) = f_Get (Some y) (fd k))"
    and fields_determine: "(\<And>n. n \<in> set fields \<Longrightarrow> f_Has (Some x) (fd n) = f_Has (Some y) (fd n) \<and>
         (f_Has (Some x) (fd n) = Ok True \<longrightarrow> f_Get (Some x) (fd n) = f_Get (Some y) (fd n))) \<Longrightarrow> norm x = norm y"
begin

text \<open>\<open>y\<close> has the fields of \<open>m\<close> among \<open>dn\<close>, and no other.\<close>

definition agrees :: "'m \<Rightarrow> string set \<Rightarrow> 'm \<Rightarrow> bool" where
  "agrees m dn y \<longleftrightarrow> (\<forall>n \<in> set fields.
     if n \<in> dn then f_Has (Some y) (fd n) = f_Has (Some m) (fd n) \<and>
       (f_Has (Some m) (fd n) = Ok True \<longrightarrow> f_Get (Some y) (fd n) = f_Get (Some m) (fd n))
     else f_Has (Some y) (fd n) = Ok False)"

lemma copy_visits:
  assumes "set ps \<subseteq> set (visits m)" "map (\<lambda>(p, d, v). d) ps = map fd ns" "distinct ns" "set ns \<subseteq> set fields"
    "agrees m dn y" "dn \<inter> set ns = {}"
  shows "\<exists>y'. visit (\<lambda>acc d v. case acc of Ok y \<Rightarrow> (f_Set (Some y) d v, True) | _ \<Rightarrow> (acc, False)) ps (Ok y) = Ok y' \<and>
     agrees m (dn \<union> set ns) y'"
  using assms
proof (induction ps arbitrary: ns dn y)
  case (Cons x ps)
  obtain p d v where x: "x = (p, d, v)" by (cases x) auto
  from Cons.prems(2) x obtain n ns' where ns: "ns = n # ns'" "d = fd n" by (cases ns) auto
  have in_m: "(p, fd n, v) \<in> set (visits m)" using Cons.prems(1) x ns by auto
  note r = visits_read [OF in_m]
  have "\<exists>y'. (if p then f_Set (Some y) d v else Ok y) = Ok y' \<and> agrees m (insert n dn) y'"
  proof (cases p)
    case True
    from Set_visited [of n v m y] in_m True obtain y' where y': "f_Set (Some y) (fd n) v = Ok y'"
      "f_Has (Some y') (fd n) = Ok True" "f_Get (Some y') (fd n) = Ok v"
      "\<forall>k \<in> set fields. k \<noteq> n \<longrightarrow> f_Has (Some y') (fd k) = f_Has (Some y) (fd k) \<and> f_Get (Some y') (fd k) = f_Get (Some y) (fd k)"
      by auto
    then have "agrees m (insert n dn) y'" using Cons.prems(5) r True by (auto simp: agrees_def split: if_splits)
    then show ?thesis using y'(1) True ns by auto
  next
    case False
    then have "agrees m (insert n dn) y" using Cons.prems(5,6) r ns by (auto simp: agrees_def)
    then show ?thesis using False by auto
  qed
  then obtain y1 where y1: "(if p then f_Set (Some y) d v else Ok y) = Ok y1" "agrees m (insert n dn) y1" by blast
  from Cons.IH [of ns' "insert n dn" y1] Cons.prems x ns y1(2) obtain y' where
    "visit (\<lambda>acc d v. case acc of Ok y \<Rightarrow> (f_Set (Some y) d v, True) | _ \<Rightarrow> (acc, False)) ps (Ok y1) = Ok y'"
    "agrees m (insert n dn \<union> set ns') y'" by auto
  then show ?case using y1(1) x ns by (cases p) auto
qed auto

text \<open>Copying a message through reflection gives the message, without its unknown fields.\<close>

lemma copy_eq: "\<exists>y. copy_message f_Range f_Set new m = Ok y \<and> norm y = norm m"
proof -
  have "agrees m {} new" using new_empty by (simp add: agrees_def)
  then obtain y where y: "visit (\<lambda>acc d v. case acc of Ok y \<Rightarrow> (f_Set (Some y) d v, True) | _ \<Rightarrow> (acc, False)) (visits m) (Ok new) = Ok y"
    "agrees m (set fields) y"
    using copy_visits [of "visits m" m fields "{}" new] visits_fields distinct_fields by auto
  have "norm y = norm m" by (rule fields_determine) (use y(2) in \<open>simp add: agrees_def\<close>)
  with y(1) show ?thesis by (simp add: copy_message_def Range_visits)
qed

text \<open>A message whose fields are all cleared is a new one.\<close>

lemma clear_all:
  assumes "set ns \<subseteq> set fields" "distinct ns"
  shows "\<exists>y. foldl (\<lambda>acc n. obind acc (\<lambda>y. f_Clear (Some y) (fd n))) (Ok m) ns = Ok y \<and>
     (\<forall>n \<in> set ns. f_Has (Some y) (fd n) = Ok False) \<and>
     (\<forall>k \<in> set fields - set ns. f_Has (Some y) (fd k) = f_Has (Some m) (fd k) \<and> f_Get (Some y) (fd k) = f_Get (Some m) (fd k))"
  using assms
proof (induction ns rule: rev_induct)
  case (snoc n ns)
  then obtain y where y: "foldl (\<lambda>acc n. obind acc (\<lambda>y. f_Clear (Some y) (fd n))) (Ok m) ns = Ok y"
    "\<forall>n \<in> set ns. f_Has (Some y) (fd n) = Ok False"
    "\<forall>k \<in> set fields - set ns. f_Has (Some y) (fd k) = f_Has (Some m) (fd k) \<and> f_Get (Some y) (fd k) = f_Get (Some m) (fd k)"
    by auto
  from Clear_field [of n y] snoc.prems obtain y' where y': "f_Clear (Some y) (fd n) = Ok y'" "f_Has (Some y') (fd n) = Ok False"
    "\<forall>k \<in> set fields. k \<noteq> n \<longrightarrow> f_Has (Some y') (fd k) = f_Has (Some y) (fd k) \<and> f_Get (Some y') (fd k) = f_Get (Some y) (fd k)"
    by auto
  then show ?case using y snoc.prems by (intro exI [of _ y']) auto
qed simp

lemma clear_all_new:
  "\<exists>y. foldl (\<lambda>acc n. obind acc (\<lambda>y. f_Clear (Some y) (fd n))) (Ok m) fields = Ok y \<and> norm y = norm new"
proof -
  from clear_all [of fields m] distinct_fields obtain y where
    y: "foldl (\<lambda>acc n. obind acc (\<lambda>y. f_Clear (Some y) (fd n))) (Ok m) fields = Ok y"
      "\<forall>n \<in> set fields. f_Has (Some y) (fd n) = Ok False" by auto
  have "norm y = norm new" by (rule fields_determine) (use y(2) new_empty in simp)
  with y(1) show ?thesis by blast
qed

end

section \<open>The messages of the package\<close>

text \<open>The fields of each message, and the message without what its fields do not determine.\<close>

definition api_Params_fields :: "string list" where
  "api_Params_fields = [''pob.builder.v1.Params.max_bundle_size'', ''pob.builder.v1.Params.escrow_account_address'', ''pob.builder.v1.Params.reserve_fee'', ''pob.builder.v1.Params.min_bid_increment'', ''pob.builder.v1.Params.front_running_protection'', ''pob.builder.v1.Params.proposer_fee'']"

definition api_Params_known :: "'c api_Params \<Rightarrow> 'c api_Params" where
  "api_Params_known m = m\<lparr>unknownFields := None, pm_EscrowAccountAddress := (if opt_bytes (pm_EscrowAccountAddress m) = [] then None else pm_EscrowAccountAddress m)\<rparr>"

definition api_GenesisState_fields :: "string list" where
  "api_GenesisState_fields = [''pob.builder.v1.GenesisState.params'']"

definition api_GenesisState_known :: "'c api_GenesisState \<Rightarrow> 'c api_GenesisState" where
  "api_GenesisState_known m = m\<lparr>unknownFields := None\<rparr>"

definition api_MsgAuctionBid_fields :: "string list" where
  "api_MsgAuctionBid_fields = [''pob.builder.v1.MsgAuctionBid.bidder'', ''pob.builder.v1.MsgAuctionBid.bid'', ''pob.builder.v1.MsgAuctionBid.transactions'']"

definition api_MsgAuctionBid_known :: "'c api_MsgAuctionBid \<Rightarrow> 'c api_MsgAuctionBid" where
  "api_MsgAuctionBid_known m = m\<lparr>unknownFields := None, ab_Transactions := (if opt_list (ab_Transactions m) = [] then None else ab_Transactions m)\<rparr>"

definition api_MsgUpdateParams_fields :: "string list" where
  "api_MsgUpdateParams_fields = [''pob.builder.v1.MsgUpdateParams.authority'', ''pob.builder.v1.MsgUpdateParams.params'']"

definition api_MsgUpdateParams_known :: "'c api_MsgUpdateParams \<Rightarrow> 'c api_MsgUpdateParams" where
  "api_MsgUpdateParams_known m = m\<lparr>unknownFields := None\<rparr>"

definition api_QueryParamsResponse_fields :: "string list" where
  "api_QueryParamsResponse_fields = [''pob.builder.v1.QueryParamsResponse.params'']"

definition api_QueryParamsResponse_known :: "'c api_QueryParamsResponse \<Rightarrow> 'c api_QueryParamsResponse" where
  "api_QueryParamsResponse_known m = m\<lparr>unknownFields := None\<rparr>"

definition api_Module_fields :: "string list" where
  "api_Module_fields = [''pob.builder.module.v1.Module.authority'']"

definition api_Module_known :: "api_Module \<Rightarrow> api_Module" where
  "api_Module_known m = m\<lparr>unknownFields := None\<rparr>"

definition api_AuctionInfo_fields :: "string list" where
  "api_AuctionInfo_fields = [''pob.abci.v1.AuctionInfo.extended_commit_info'', ''pob.abci.v1.AuctionInfo.max_tx_bytes'', ''pob.abci.v1.AuctionInfo.num_txs'']"

definition api_AuctionInfo_known :: "api_AuctionInfo \<Rightarrow> api_AuctionInfo" where
  "api_AuctionInfo_known m = m\<lparr>unknownFields := None, ai_ExtendedCommitInfo := (if opt_bytes (ai_ExtendedCommitInfo m) = [] then None else ai_ExtendedCommitInfo m)\<rparr>"

definition api_VoteExtensionInfo_fields :: "string list" where
  "api_VoteExtensionInfo_fields = [''pob.abci.v1.VoteExtensionInfo.registry'']"

definition api_VoteExtensionInfo_known :: "api_VoteExtensionInfo \<Rightarrow> api_VoteExtensionInfo" where
  "api_VoteExtensionInfo_known m = m\<lparr>unknownFields := None, vx_Registry := (if opt_list (vx_Registry m) = [] then None else vx_Registry m)\<rparr>"

lemma api_Params_at:
  "api_Params_Has (Some m) (fd ''pob.builder.v1.Params.max_bundle_size'') = Ok (pm_MaxBundleSize m \<noteq> 0)"
  "api_Params_Get (Some m) (fd ''pob.builder.v1.Params.max_bundle_size'') = Ok (ValueOfUint32 (pm_MaxBundleSize m))"
  "api_Params_Clear (Some m) (fd ''pob.builder.v1.Params.max_bundle_size'') = Ok (m\<lparr>pm_MaxBundleSize := 0\<rparr>)"
  "api_Params_Set (Some m) (fd ''pob.builder.v1.Params.max_bundle_size'') (ValueOfUint32 w1) = Ok (m\<lparr>pm_MaxBundleSize := w1\<rparr>)"
  "api_Params_Has (Some m) (fd ''pob.builder.v1.Params.escrow_account_address'') = Ok (opt_bytes (pm_EscrowAccountAddress m) \<noteq> [])"
  "api_Params_Get (Some m) (fd ''pob.builder.v1.Params.escrow_account_address'') = Ok (ValueOfBytes (pm_EscrowAccountAddress m))"
  "api_Params_Clear (Some m) (fd ''pob.builder.v1.Params.escrow_account_address'') = Ok (m\<lparr>pm_EscrowAccountAddress := None\<rparr>)"
  "api_Params_Set (Some m) (fd ''pob.builder.v1.Params.escrow_account_address'') (ValueOfBytes w2) = Ok (m\<lparr>pm_EscrowAccountAddress := w2\<rparr>)"
  "api_Params_Has (Some m) (fd ''pob.builder.v1.Params.reserve_fee'') = Ok (pm_ReserveFee m \<noteq> None)"
  "api_Params_Get (Some m) (fd ''pob.builder.v1.Params.reserve_fee'') = Ok (ValueOfMessage (CoinMessage (pm_ReserveFee m)))"
  "api_Params_Clear (Some m) (fd ''pob.builder.v1.Params.reserve_fee'') = Ok (m\<lparr>pm_ReserveFee := None\<rparr>)"
  "api_Params_Set (Some m) (fd ''pob.builder.v1.Params.reserve_fee'') (ValueOfMessage (CoinMessage w3)) = Ok (m\<lparr>pm_ReserveFee := w3\<rparr>)"
  "api_Params_Has (Some m) (fd ''pob.builder.v1.Params.min_bid_increment'') = Ok (pm_MinBidIncrement m \<noteq> None)"
  "api_Params_Get (Some m) (fd ''pob.builder.v1.Params.min_bid_increment'') = Ok (ValueOfMessage (CoinMessage (pm_MinBidIncrement m)))"
  "api_Params_Clear (Some m) (fd ''pob.builder.v1.Params.min_bid_increment'') = Ok (m\<lparr>pm_MinBidIncrement := None\<rparr>)"
  "api_Params_Set (Some m) (fd ''pob.builder.v1.Params.min_bid_increment'') (ValueOfMessage (CoinMessage w4)) = Ok (m\<lparr>pm_MinBidIncrement := w4\<rparr>)"
  "api_Params_Has (Some m) (fd ''pob.builder.v1.Params.front_running_protection'') = Ok (pm_FrontRunningProtection m)"
  "api_Params_Get (Some m) (fd ''pob.builder.v1.Params.front_running_protection'') = Ok (ValueOfBool (pm_FrontRunningProtection m))"
  "api_Params_Clear (Some m) (fd ''pob.builder.v1.Params.front_running_protection'') = Ok (m\<lparr>pm_FrontRunningProtection := False\<rparr>)"
  "api_Params_Set (Some m) (fd ''pob.builder.v1.Params.front_running_protection'') (ValueOfBool w5) = Ok (m\<lparr>pm_FrontRunningProtection := w5\<rparr>)"
  "api_Params_Has (Some m) (fd ''pob.builder.v1.Params.proposer_fee'') = Ok (pm_ProposerFee m \<noteq> '''')"
  "api_Params_Get (Some m) (fd ''pob.builder.v1.Params.proposer_fee'') = Ok (ValueOfString (pm_ProposerFee m))"
  "api_Params_Clear (Some m) (fd ''pob.builder.v1.Params.proposer_fee'') = Ok (m\<lparr>pm_ProposerFee := ''''\<rparr>)"
  "api_Params_Set (Some m) (fd ''pob.builder.v1.Params.proposer_fee'') (ValueOfString w6) = Ok (m\<lparr>pm_ProposerFee := w6\<rparr>)"
  by (simp_all add: api_Params_Has_def api_Params_Get_def api_Params_Clear_def api_Params_Set_def value_defs)

interpretation Params_reflection: reflected_message api_Params_fields api_Params_Reset api_Params_known api_Params_visits
  api_Params_Range api_Params_Has api_Params_Clear "api_Params_Get :: _ \<Rightarrow> _ \<Rightarrow> ('c, 'p) Value outcome" api_Params_Set
proof (unfold_locales, goal_cases)
  case (6 n v m y)
  then show ?case
    by (simp add: api_Params_visits_def) (elim disjE conjE; simp add: api_Params_fields_def api_Params_at)
next
  case (7 n y)
  then show ?case
    by (simp add: api_Params_fields_def) ((elim disjE)?; simp add: api_Params_at)
next
  case (8 x y)
  note at = 8 [unfolded api_Params_fields_def]
  have e1: "pm_MaxBundleSize x = pm_MaxBundleSize y"
    using at [of "''pob.builder.v1.Params.max_bundle_size''"] by (auto simp: api_Params_at simp del: not_None_eq)
  have e2: "(if opt_bytes (pm_EscrowAccountAddress x) = [] then None else pm_EscrowAccountAddress x) = (if opt_bytes (pm_EscrowAccountAddress y) = [] then None else pm_EscrowAccountAddress y)"
    using at [of "''pob.builder.v1.Params.escrow_account_address''"] by (cases "opt_bytes (pm_EscrowAccountAddress x) = []") (simp_all add: api_Params_at)
  have e3: "pm_ReserveFee x = pm_ReserveFee y"
    using at [of "''pob.builder.v1.Params.reserve_fee''"] by (auto simp: api_Params_at simp del: not_None_eq)
  have e4: "pm_MinBidIncrement x = pm_MinBidIncrement y"
    using at [of "''pob.builder.v1.Params.min_bid_increment''"] by (auto simp: api_Params_at simp del: not_None_eq)
  have e5: "pm_FrontRunningProtection x = pm_FrontRunningProtection y"
    using at [of "''pob.builder.v1.Params.front_running_protection''"] by (auto simp: api_Params_at simp del: not_None_eq)
  have e6: "pm_ProposerFee x = pm_ProposerFee y"
    using at [of "''pob.builder.v1.Params.proposer_fee''"] by (auto simp: api_Params_at simp del: not_None_eq)
  note eqs = e1 e2 e3 e4 e5 e6
  show ?case by (intro api_Params.equality) (simp_all add: api_Params_known_def eqs)
qed (auto simp: api_Params_fields_def api_Params_visits_def api_Params_Range_def api_Params_Reset_def api_Params_at)

lemma api_GenesisState_at:
  "api_GenesisState_Has (Some m) (fd ''pob.builder.v1.GenesisState.params'') = Ok (gn_Params m \<noteq> None)"
  "api_GenesisState_Get (Some m) (fd ''pob.builder.v1.GenesisState.params'') = Ok (ValueOfMessage (ParamsMessage (gn_Params m)))"
  "api_GenesisState_Clear (Some m) (fd ''pob.builder.v1.GenesisState.params'') = Ok (m\<lparr>gn_Params := None\<rparr>)"
  "api_GenesisState_Set (Some m) (fd ''pob.builder.v1.GenesisState.params'') (ValueOfMessage (ParamsMessage w1)) = Ok (m\<lparr>gn_Params := w1\<rparr>)"
  by (simp_all add: api_GenesisState_Has_def api_GenesisState_Get_def api_GenesisState_Clear_def api_GenesisState_Set_def value_defs)

interpretation GenesisState_reflection: reflected_message api_GenesisState_fields api_GenesisState_Reset api_GenesisState_known api_GenesisState_visits
  api_GenesisState_Range api_GenesisState_Has api_GenesisState_Clear "api_GenesisState_Get :: _ \<Rightarrow> _ \<Rightarrow> ('c, 'c api_Params) Value outcome" api_GenesisState_Set
proof (unfold_locales, goal_cases)
  case (6 n v m y)
  then show ?case
    by (simp add: api_GenesisState_visits_def) (elim disjE conjE; simp add: api_GenesisState_fields_def api_GenesisState_at)
next
  case (7 n y)
  then show ?case
    by (simp add: api_GenesisState_fields_def) ((elim disjE)?; simp add: api_GenesisState_at)
next
  case (8 x y)
  note at = 8 [unfolded api_GenesisState_fields_def]
  have e1: "gn_Params x = gn_Params y"
    using at [of "''pob.builder.v1.GenesisState.params''"] by (auto simp: api_GenesisState_at simp del: not_None_eq)
  note eqs = e1
  show ?case by (intro api_GenesisState.equality) (simp_all add: api_GenesisState_known_def eqs)
qed (auto simp: api_GenesisState_fields_def api_GenesisState_visits_def api_GenesisState_Range_def api_GenesisState_Reset_def api_GenesisState_at)

lemma api_MsgAuctionBid_at:
  "api_MsgAuctionBid_Has (Some m) (fd ''pob.builder.v1.MsgAuctionBid.bidder'') = Ok (ab_Bidder m \<noteq> '''')"
  "api_MsgAuctionBid_Get (Some m) (fd ''pob.builder.v1.MsgAuctionBid.bidder'') = Ok (ValueOfString (ab_Bidder m))"
  "api_MsgAuctionBid_Clear (Some m) (fd ''pob.builder.v1.MsgAuctionBid.bidder'') = Ok (m\<lparr>ab_Bidder := ''''\<rparr>)"
  "api_MsgAuctionBid_Set (Some m) (fd ''pob.builder.v1.MsgAuctionBid.bidder'') (ValueOfString w1) = Ok (m\<lparr>ab_Bidder := w1\<rparr>)"
  "api_MsgAuctionBid_Has (Some m) (fd ''pob.builder.v1.MsgAuctionBid.bid'') = Ok (ab_Bid m \<noteq> None)"
  "api_MsgAuctionBid_Get (Some m) (fd ''pob.builder.v1.MsgAuctionBid.bid'') = Ok (ValueOfMessage (CoinMessage (ab_Bid m)))"
  "api_MsgAuctionBid_Clear (Some m) (fd ''pob.builder.v1.MsgAuctionBid.bid'') = Ok (m\<lparr>ab_Bid := None\<rparr>)"
  "api_MsgAuctionBid_Set (Some m) (fd ''pob.builder.v1.MsgAuctionBid.bid'') (ValueOfMessage (CoinMessage w2)) = Ok (m\<lparr>ab_Bid := w2\<rparr>)"
  "api_MsgAuctionBid_Has (Some m) (fd ''pob.builder.v1.MsgAuctionBid.transactions'') = Ok (opt_list (ab_Transactions m) \<noteq> [])"
  "api_MsgAuctionBid_Get (Some m) (fd ''pob.builder.v1.MsgAuctionBid.transactions'') = Ok (if opt_list (ab_Transactions m) = [] then ValueOfList None else ValueOfList (Some (ab_Transactions m)))"
  "api_MsgAuctionBid_Clear (Some m) (fd ''pob.builder.v1.MsgAuctionBid.transactions'') = Ok (m\<lparr>ab_Transactions := None\<rparr>)"
  "api_MsgAuctionBid_Set (Some m) (fd ''pob.builder.v1.MsgAuctionBid.transactions'') (ValueOfList (Some w3)) = Ok (m\<lparr>ab_Transactions := w3\<rparr>)"
  by (simp_all add: api_MsgAuctionBid_Has_def api_MsgAuctionBid_Get_def api_MsgAuctionBid_Clear_def api_MsgAuctionBid_Set_def value_defs)

interpretation MsgAuctionBid_reflection: reflected_message api_MsgAuctionBid_fields api_MsgAuctionBid_Reset api_MsgAuctionBid_known api_MsgAuctionBid_visits
  api_MsgAuctionBid_Range api_MsgAuctionBid_Has api_MsgAuctionBid_Clear "api_MsgAuctionBid_Get :: _ \<Rightarrow> _ \<Rightarrow> ('c, 'p) Value outcome" api_MsgAuctionBid_Set
proof (unfold_locales, goal_cases)
  case (6 n v m y)
  then show ?case
    by (simp add: api_MsgAuctionBid_visits_def) (elim disjE conjE; simp add: api_MsgAuctionBid_fields_def api_MsgAuctionBid_at)
next
  case (7 n y)
  then show ?case
    by (simp add: api_MsgAuctionBid_fields_def) ((elim disjE)?; simp add: api_MsgAuctionBid_at)
next
  case (8 x y)
  note at = 8 [unfolded api_MsgAuctionBid_fields_def]
  have e1: "ab_Bidder x = ab_Bidder y"
    using at [of "''pob.builder.v1.MsgAuctionBid.bidder''"] by (auto simp: api_MsgAuctionBid_at simp del: not_None_eq)
  have e2: "ab_Bid x = ab_Bid y"
    using at [of "''pob.builder.v1.MsgAuctionBid.bid''"] by (auto simp: api_MsgAuctionBid_at simp del: not_None_eq)
  have e3: "(if opt_list (ab_Transactions x) = [] then None else ab_Transactions x) = (if opt_list (ab_Transactions y) = [] then None else ab_Transactions y)"
    using at [of "''pob.builder.v1.MsgAuctionBid.transactions''"] by (cases "opt_list (ab_Transactions x) = []") (simp_all add: api_MsgAuctionBid_at cong: conj_cong)
  note eqs = e1 e2 e3
  show ?case by (intro api_MsgAuctionBid.equality) (simp_all add: api_MsgAuctionBid_known_def eqs)
qed (auto simp: api_MsgAuctionBid_fields_def api_MsgAuctionBid_visits_def api_MsgAuctionBid_Range_def api_MsgAuctionBid_Reset_def api_MsgAuctionBid_at)

lemma api_MsgUpdateParams_at:
  "api_MsgUpdateParams_Has (Some m) (fd ''pob.builder.v1.MsgUpdateParams.authority'') = Ok (up_Authority m \<noteq> '''')"
  "api_MsgUpdateParams_Get (Some m) (fd ''pob.builder.v1.MsgUpdateParams.authority'') = Ok (ValueOfString (up_Authority m))"
  "api_MsgUpdateParams_Clear (Some m) (fd ''pob.builder.v1.MsgUpdateParams.authority'') = Ok (m\<lparr>up_Authority := ''''\<rparr>)"
  "api_MsgUpdateParams_Set (Some m) (fd ''pob.builder.v1.MsgUpdateParams.authority'') (ValueOfString w1) = Ok (m\<lparr>up_Authority := w1\<rparr>)"
  "api_MsgUpdateParams_Has (Some m) (fd ''pob.builder.v1.MsgUpdateParams.params'') = Ok (up_Params m \<noteq> None)"
  "api_MsgUpdateParams_Get (Some m) (fd ''pob.builder.v1.MsgUpdateParams.params'') = Ok (ValueOfMessage (ParamsMessage (up_Params m)))"
  "api_MsgUpdateParams_Clear (Some m) (fd ''pob.builder.v1.MsgUpdateParams.params'') = Ok (m\<lparr>up_Params := None\<rparr>)"
  "api_MsgUpdateParams_Set (Some m) (fd ''pob.builder.v1.MsgUpdateParams.params'') (ValueOfMessage (ParamsMessage w2)) = Ok (m\<lparr>up_Params := w2\<rparr>)"
  by (simp_all add: api_MsgUpdateParams_Has_def api_MsgUpdateParams_Get_def api_MsgUpdateParams_Clear_def api_MsgUpdateParams_Set_def value_defs)

interpretation MsgUpdateParams_reflection: reflected_message api_MsgUpdateParams_fields api_MsgUpdateParams_Reset api_MsgUpdateParams_known api_MsgUpdateParams_visits
  api_MsgUpdateParams_Range api_MsgUpdateParams_Has api_MsgUpdateParams_Clear "api_MsgUpdateParams_Get :: _ \<Rightarrow> _ \<Rightarrow> ('c, 'c api_Params) Value outcome" api_MsgUpdateParams_Set
proof (unfold_locales, goal_cases)
  case (6 n v m y)
  then show ?case
    by (simp add: api_MsgUpdateParams_visits_def) (elim disjE conjE; simp add: api_MsgUpdateParams_fields_def api_MsgUpdateParams_at)
next
  case (7 n y)
  then show ?case
    by (simp add: api_MsgUpdateParams_fields_def) ((elim disjE)?; simp add: api_MsgUpdateParams_at)
next
  case (8 x y)
  note at = 8 [unfolded api_MsgUpdateParams_fields_def]
  have e1: "up_Authority x = up_Authority y"
    using at [of "''pob.builder.v1.MsgUpdateParams.authority''"] by (auto simp: api_MsgUpdateParams_at simp del: not_None_eq)
  have e2: "up_Params x = up_Params y"
    using at [of "''pob.builder.v1.MsgUpdateParams.params''"] by (auto simp: api_MsgUpdateParams_at simp del: not_None_eq)
  note eqs = e1 e2
  show ?case by (intro api_MsgUpdateParams.equality) (simp_all add: api_MsgUpdateParams_known_def eqs)
qed (auto simp: api_MsgUpdateParams_fields_def api_MsgUpdateParams_visits_def api_MsgUpdateParams_Range_def api_MsgUpdateParams_Reset_def api_MsgUpdateParams_at)

lemma api_QueryParamsResponse_at:
  "api_QueryParamsResponse_Has (Some m) (fd ''pob.builder.v1.QueryParamsResponse.params'') = Ok (qrp_Params m \<noteq> None)"
  "api_QueryParamsResponse_Get (Some m) (fd ''pob.builder.v1.QueryParamsResponse.params'') = Ok (ValueOfMessage (ParamsMessage (qrp_Params m)))"
  "api_QueryParamsResponse_Clear (Some m) (fd ''pob.builder.v1.QueryParamsResponse.params'') = Ok (m\<lparr>qrp_Params := None\<rparr>)"
  "api_QueryParamsResponse_Set (Some m) (fd ''pob.builder.v1.QueryParamsResponse.params'') (ValueOfMessage (ParamsMessage w1)) = Ok (m\<lparr>qrp_Params := w1\<rparr>)"
  by (simp_all add: api_QueryParamsResponse_Has_def api_QueryParamsResponse_Get_def api_QueryParamsResponse_Clear_def api_QueryParamsResponse_Set_def value_defs)

interpretation QueryParamsResponse_reflection: reflected_message api_QueryParamsResponse_fields api_QueryParamsResponse_Reset api_QueryParamsResponse_known api_QueryParamsResponse_visits
  api_QueryParamsResponse_Range api_QueryParamsResponse_Has api_QueryParamsResponse_Clear "api_QueryParamsResponse_Get :: _ \<Rightarrow> _ \<Rightarrow> ('c, 'c api_Params) Value outcome" api_QueryParamsResponse_Set
proof (unfold_locales, goal_cases)
  case (6 n v m y)
  then show ?case
    by (simp add: api_QueryParamsResponse_visits_def) (elim disjE conjE; simp add: api_QueryParamsResponse_fields_def api_QueryParamsResponse_at)
next
  case (7 n y)
  then show ?case
    by (simp add: api_QueryParamsResponse_fields_def) ((elim disjE)?; simp add: api_QueryParamsResponse_at)
next
  case (8 x y)
  note at = 8 [unfolded api_QueryParamsResponse_fields_def]
  have e1: "qrp_Params x = qrp_Params y"
    using at [of "''pob.builder.v1.QueryParamsResponse.params''"] by (auto simp: api_QueryParamsResponse_at simp del: not_None_eq)
  note eqs = e1
  show ?case by (intro api_QueryParamsResponse.equality) (simp_all add: api_QueryParamsResponse_known_def eqs)
qed (auto simp: api_QueryParamsResponse_fields_def api_QueryParamsResponse_visits_def api_QueryParamsResponse_Range_def api_QueryParamsResponse_Reset_def api_QueryParamsResponse_at)

lemma api_Module_at:
  "api_Module_Has (Some m) (fd ''pob.builder.module.v1.Module.authority'') = Ok (mdl_Authority m \<noteq> '''')"
  "api_Module_Get (Some m) (fd ''pob.builder.module.v1.Module.authority'') = Ok (ValueOfString (mdl_Authority m))"
  "api_Module_Clear (Some m) (fd ''pob.builder.module.v1.Module.authority'') = Ok (m\<lparr>mdl_Authority := ''''\<rparr>)"
  "api_Module_Set (Some m) (fd ''pob.builder.module.v1.Module.authority'') (ValueOfString w1) = Ok (m\<lparr>mdl_Authority := w1\<rparr>)"
  by (simp_all add: api_Module_Has_def api_Module_Get_def api_Module_Clear_def api_Module_Set_def value_defs)

interpretation Module_reflection: reflected_message api_Module_fields api_Module_Reset api_Module_known api_Module_visits
  api_Module_Range api_Module_Has api_Module_Clear "api_Module_Get :: _ \<Rightarrow> _ \<Rightarrow> ('c, 'p) Value outcome" api_Module_Set
proof (unfold_locales, goal_cases)
  case (6 n v m y)
  then show ?case
    by (simp add: api_Module_visits_def) (elim disjE conjE; simp add: api_Module_fields_def api_Module_at)
next
  case (7 n y)
  then show ?case
    by (simp add: api_Module_fields_def) ((elim disjE)?; simp add: api_Module_at)
next
  case (8 x y)
  note at = 8 [unfolded api_Module_fields_def]
  have e1: "mdl_Authority x = mdl_Authority y"
    using at [of "''pob.builder.module.v1.Module.authority''"] by (auto simp: api_Module_at simp del: not_None_eq)
  note eqs = e1
  show ?case by (intro api_Module.equality) (simp_all add: api_Module_known_def eqs)
qed (auto simp: api_Module_fields_def api_Module_visits_def api_Module_Range_def api_Module_Reset_def api_Module_at)

lemma api_AuctionInfo_at:
  "api_AuctionInfo_Has (Some m) (fd ''pob.abci.v1.AuctionInfo.extended_commit_info'') = Ok (opt_bytes (ai_ExtendedCommitInfo m) \<noteq> [])"
  "api_AuctionInfo_Get (Some m) (fd ''pob.abci.v1.AuctionInfo.extended_commit_info'') = Ok (ValueOfBytes (ai_ExtendedCommitInfo m))"
  "api_AuctionInfo_Clear (Some m) (fd ''pob.abci.v1.AuctionInfo.extended_commit_info'') = Ok (m\<lparr>ai_ExtendedCommitInfo := None\<rparr>)"
  "api_AuctionInfo_Set (Some m) (fd ''pob.abci.v1.AuctionInfo.extended_commit_info'') (ValueOfBytes w1) = Ok (m\<lparr>ai_ExtendedCommitInfo := w1\<rparr>)"
  "api_AuctionInfo_Has (Some m) (fd ''pob.abci.v1.AuctionInfo.max_tx_bytes'') = Ok (ai_MaxTxBytes m \<noteq> 0)"
  "api_AuctionInfo_Get (Some m) (fd ''pob.abci.v1.AuctionInfo.max_tx_bytes'') = Ok (ValueOfInt64 (ai_MaxTxBytes m))"
  "api_AuctionInfo_Clear (Some m) (fd ''pob.abci.v1.AuctionInfo.max_tx_bytes'') = Ok (m\<lparr>ai_MaxTxBytes := 0\<rparr>)"
  "api_AuctionInfo_Set (Some m) (fd ''pob.abci.v1.AuctionInfo.max_tx_bytes'') (ValueOfInt64 w2) = Ok (m\<lparr>ai_MaxTxBytes := w2\<rparr>)"
  "api_AuctionInfo_Has (Some m) (fd ''pob.abci.v1.AuctionInfo.num_txs'') = Ok (ai_NumTxs m \<noteq> 0)"
  "api_AuctionInfo_Get (Some m) (fd ''pob.abci.v1.AuctionInfo.num_txs'') = Ok (ValueOfUint64 (ai_NumTxs m))"
  "api_AuctionInfo_Clear (Some m) (fd ''pob.abci.v1.AuctionInfo.num_txs'') = Ok (m\<lparr>ai_NumTxs := 0\<rparr>)"
  "api_AuctionInfo_Set (Some m) (fd ''pob.abci.v1.AuctionInfo.num_txs'') (ValueOfUint64 w3) = Ok (m\<lparr>ai_NumTxs := w3\<rparr>)"
  by (simp_all add: api_AuctionInfo_Has_def api_AuctionInfo_Get_def api_AuctionInfo_Clear_def api_AuctionInfo_Set_def value_defs)

interpretation AuctionInfo_reflection: reflected_message api_AuctionInfo_fields api_AuctionInfo_Reset api_AuctionInfo_known api_AuctionInfo_visits
  api_AuctionInfo_Range api_AuctionInfo_Has api_AuctionInfo_Clear "api_AuctionInfo_Get :: _ \<Rightarrow> _ \<Rightarrow> ('c, 'p) Value outcome" api_AuctionInfo_Set
proof (unfold_locales, goal_cases)
  case (6 n v m y)
  then show ?case
    by (simp add: api_AuctionInfo_visits_def) (elim disjE conjE; simp add: api_AuctionInfo_fields_def api_AuctionInfo_at)
next
  case (7 n y)
  then show ?case
    by (simp add: api_AuctionInfo_fields_def) ((elim disjE)?; simp add: api_AuctionInfo_at)
next
  case (8 x y)
  note at = 8 [unfolded api_AuctionInfo_fields_def]
  have e1: "(if opt_bytes (ai_ExtendedCommitInfo x) = [] then None else ai_ExtendedCommitInfo x) = (if opt_bytes (ai_ExtendedCommitInfo y) = [] then None else ai_ExtendedCommitInfo y)"
    using at [of "''pob.abci.v1.AuctionInfo.extended_commit_info''"] by (cases "opt_bytes (ai_ExtendedCommitInfo x) = []") (simp_all add: api_AuctionInfo_at)
  have e2: "ai_MaxTxBytes x = ai_MaxTxBytes y"
    using at [of "''pob.abci.v1.AuctionInfo.max_tx_bytes''"] by (auto simp: api_AuctionInfo_at simp del: not_None_eq)
  have e3: "ai_NumTxs x = ai_NumTxs y"
    using at [of "''pob.abci.v1.AuctionInfo.num_txs''"] by (auto simp: api_AuctionInfo_at simp del: not_None_eq)
  note eqs = e1 e2 e3
  show ?case by (intro api_AuctionInfo.equality) (simp_all add: api_AuctionInfo_known_def eqs)
qed (auto simp: api_AuctionInfo_fields_def api_AuctionInfo_visits_def api_AuctionInfo_Range_def api_AuctionInfo_Reset_def api_AuctionInfo_at)

lemma api_VoteExtensionInfo_at:
  "api_VoteExtensionInfo_Has (Some m) (fd ''pob.abci.v1.VoteExtensionInfo.registry'') = Ok (opt_list (vx_Registry m) \<noteq> [])"
  "api_VoteExtensionInfo_Get (Some m) (fd ''pob.abci.v1.VoteExtensionInfo.registry'') = Ok (if opt_list (vx_Registry m) = [] then ValueOfMap None else ValueOfMap (Some (vx_Registry m)))"
  "api_VoteExtensionInfo_Clear (Some m) (fd ''pob.abci.v1.VoteExtensionInfo.registry'') = Ok (m\<lparr>vx_Registry := None\<rparr>)"
  "api_VoteExtensionInfo_Set (Some m) (fd ''pob.abci.v1.VoteExtensionInfo.registry'') (ValueOfMap (Some w2)) = Ok (m\<lparr>vx_Registry := w2\<rparr>)"
  by (simp_all add: api_VoteExtensionInfo_Has_def api_VoteExtensionInfo_Get_def api_VoteExtensionInfo_Clear_def api_VoteExtensionInfo_Set_def value_defs)

interpretation VoteExtensionInfo_reflection: reflected_message api_VoteExtensionInfo_fields api_VoteExtensionInfo_Reset api_VoteExtensionInfo_known api_VoteExtensionInfo_visits
  api_VoteExtensionInfo_Range api_VoteExtensionInfo_Has api_VoteExtensionInfo_Clear "api_VoteExtensionInfo_Get :: _ \<Rightarrow> _ \<Rightarrow> ('c, 'p) Value outcome" api_VoteExtensionInfo_Set
proof (unfold_locales, goal_cases)
  case (6 n v m y)
  then show ?case
    by (simp add: api_VoteExtensionInfo_visits_def) (elim disjE conjE; simp add: api_VoteExtensionInfo_fields_def api_VoteExtensionInfo_at)
next
  case (7 n y)
  then show ?case
    by (simp add: api_VoteExtensionInfo_fields_def) ((elim disjE)?; simp add: api_VoteExtensionInfo_at)
next
  case (8 x y)
  note at = 8 [unfolded api_VoteExtensionInfo_fields_def]
  have e2: "(if opt_list (vx_Registry x) = [] then None else vx_Registry x) = (if opt_list (vx_Registry y) = [] then None else vx_Registry y)"
    using at [of "''pob.abci.v1.VoteExtensionInfo.registry''"] by (cases "opt_list (vx_Registry x) = []") (simp_all add: api_VoteExtensionInfo_at cong: conj_cong)
  note eqs = e2
  show ?case by (intro api_VoteExtensionInfo.equality) (simp_all add: api_VoteExtensionInfo_known_def eqs)
qed (auto simp: api_VoteExtensionInfo_fields_def api_VoteExtensionInfo_visits_def api_VoteExtensionInfo_Range_def api_VoteExtensionInfo_Reset_def api_VoteExtensionInfo_at)

end
