(* ===== verification/Pulsar_Props.thy ===== *)
theory Pulsar_Props
  imports Pulsar_Total Pulsar_Reflect
begin

text \<open>
  The API packages beside the module: clients build and decode messages with the former, the module
  with its own types and codec. Both agree on the wire.
\<close>

section \<open>The messages of the module as API messages\<close>

text \<open>
  \<open>C\<close> is the API form of a coin and \<open>D\<close> the text of a decimal; both are written as the module's codec
  writes the coin and the decimal.
\<close>

definition api_of_Params :: "(coin \<Rightarrow> 'c) \<Rightarrow> ('d \<Rightarrow> string) \<Rightarrow> 'd Params \<Rightarrow> 'c api_Params" where
  "api_of_Params C D p = \<lparr>unknownFields = None, pm_MaxBundleSize = MaxBundleSize p,
     pm_EscrowAccountAddress = EscrowAccountAddress p, pm_ReserveFee = Some (C (ReserveFee p)),
     pm_MinBidIncrement = Some (C (MinBidIncrement p)), pm_FrontRunningProtection = FrontRunningProtection p,
     pm_ProposerFee = D (ProposerFee p)\<rparr>"

definition api_of_bid :: "(coin \<Rightarrow> 'c) \<Rightarrow> MsgAuctionBid \<Rightarrow> 'c api_MsgAuctionBid" where
  "api_of_bid C m = \<lparr>unknownFields = None, ab_Bidder = Bidder m, ab_Bid = Some (C (Bid m)),
     ab_Transactions = (if Transactions m = [] then None else Some (Transactions m))\<rparr>"

definition api_of_update :: "(coin \<Rightarrow> 'c) \<Rightarrow> ('d \<Rightarrow> string) \<Rightarrow> 'd MsgUpdateParams \<Rightarrow> 'c api_MsgUpdateParams" where
  "api_of_update C D m = \<lparr>unknownFields = None, up_Authority = Authority m, up_Params = Some (api_of_Params C D (mup_Params m))\<rparr>"

definition api_of_response :: "(coin \<Rightarrow> 'c) \<Rightarrow> ('d \<Rightarrow> string) \<Rightarrow> 'd QueryParamsResponse \<Rightarrow> 'c api_QueryParamsResponse" where
  "api_of_response C D m = \<lparr>unknownFields = None, qrp_Params = Some (api_of_Params C D (qpr_Params m))\<rparr>"

definition api_of_genesis :: "(coin \<Rightarrow> 'c) \<Rightarrow> ('d \<Rightarrow> string) \<Rightarrow> 'd GenesisState \<Rightarrow> 'c api_GenesisState" where
  "api_of_genesis C D m = \<lparr>unknownFields = None, gn_Params = Some (api_of_Params C D (gs_Params m))\<rparr>"

definition same_text ::
  "(coin \<Rightarrow> bool) \<Rightarrow> (coin \<Rightarrow> bytes) \<Rightarrow> ('d \<Rightarrow> bool) \<Rightarrow> ('d \<Rightarrow> bytes) \<Rightarrow> ('c \<Rightarrow> bool) \<Rightarrow> ('c \<Rightarrow> bytes) \<Rightarrow>
   (coin \<Rightarrow> 'c) \<Rightarrow> ('d \<Rightarrow> string) \<Rightarrow> bool" where
  "same_text cok cenc dok denc aok aenc C D \<longleftrightarrow>
     (\<forall>c. cok c \<longrightarrow> aok (C c) \<and> aenc (C c) = cenc c) \<and>
     (\<forall>x. dok x \<longrightarrow> str_bytes (D x) = denc x \<and> denc x \<noteq> [])"

lemma kept_none: "unknownFields m = None \<Longrightarrow> kept rt discard known m"
  by (simp add: kept_def raw_fields_def exI [of _ "[]"])

lemma api_of_Params_wire:
  assumes "same_text cok cenc dok denc aok aenc C D" "Params_ok cok cenc dok denc p" "EscrowAccountAddress p \<noteq> Some []"
  shows "api_Params_enc aenc (api_of_Params C D p) = Params_enc cenc denc p"
    and "api_Params_ok rt discard aok aenc (api_of_Params C D p)"
proof -
  from assms have s: "aenc (C (ReserveFee p)) = cenc (ReserveFee p)" "aenc (C (MinBidIncrement p)) = cenc (MinBidIncrement p)"
    "aok (C (ReserveFee p))" "aok (C (MinBidIncrement p))"
    "str_bytes (D (ProposerFee p)) = denc (ProposerFee p)" "denc (ProposerFee p) \<noteq> []"
    by (simp_all add: same_text_def Params_ok_def)
  show e: "api_Params_enc aenc (api_of_Params C D p) = Params_enc cenc denc p"
    using s by (simp add: api_Params_enc_def api_of_Params_def Params_enc_def sub_enc_def delim_enc_def opt_bytes_def)
  show "api_Params_ok rt discard aok aenc (api_of_Params C D p)"
    using s(3,4) assms(2,3) unfolding api_Params_ok_def e
    by (simp add: api_of_Params_def opt_ok_def Params_ok_def kept_none)
qed

lemma api_of_bid_wire:
  assumes "same_text cok cenc dok denc aok aenc C D" "cok (Bid m)" "length (MsgAuctionBid_enc cenc m) < 2 ^ 60"
  shows "api_MsgAuctionBid_enc aenc (api_of_bid C m) = MsgAuctionBid_enc cenc m"
    and "api_MsgAuctionBid_ok rt discard aok aenc (api_of_bid C m)"
proof -
  from assms(1,2) have s: "aenc (C (Bid m)) = cenc (Bid m)" "aok (C (Bid m))" by (simp_all add: same_text_def)
  show e: "api_MsgAuctionBid_enc aenc (api_of_bid C m) = MsgAuctionBid_enc cenc m"
    using s by (simp add: api_MsgAuctionBid_enc_def api_of_bid_def MsgAuctionBid_enc_def sub_enc_def delim_enc_def)
  show "api_MsgAuctionBid_ok rt discard aok aenc (api_of_bid C m)"
    using s(2) assms(3) unfolding api_MsgAuctionBid_ok_def e by (simp add: api_of_bid_def opt_ok_def kept_none)
qed

lemma api_of_carriers_wire:
  assumes "same_text cok cenc dok denc aok aenc C D" "Params_ok cok cenc dok denc p" "EscrowAccountAddress p \<noteq> Some []"
    and l: "length (MsgUpdateParams_enc cenc denc \<lparr>Authority = a, mup_Params = p\<rparr>) < 2 ^ 60"
  shows "api_MsgUpdateParams_enc aenc (api_of_update C D \<lparr>Authority = a, mup_Params = p\<rparr>) =
      MsgUpdateParams_enc cenc denc \<lparr>Authority = a, mup_Params = p\<rparr>"
    and "api_MsgUpdateParams_ok rt discard aok aenc (api_of_update C D \<lparr>Authority = a, mup_Params = p\<rparr>)"
    and "api_QueryParamsResponse_enc aenc (api_of_response C D \<lparr>qpr_Params = p\<rparr>) = QueryParamsResponse_enc cenc denc \<lparr>qpr_Params = p\<rparr>"
    and "api_QueryParamsResponse_ok rt discard aok aenc (api_of_response C D \<lparr>qpr_Params = p\<rparr>)"
    and "api_GenesisState_enc aenc (api_of_genesis C D \<lparr>gs_Params = p\<rparr>) = GenesisState_enc cenc denc \<lparr>gs_Params = p\<rparr>"
    and "api_GenesisState_ok rt discard aok aenc (api_of_genesis C D \<lparr>gs_Params = p\<rparr>)"
proof -
  note w = api_of_Params_wire(1) [OF assms(1-3)] api_of_Params_wire(2) [OF assms(1-3)]
  show e: "api_MsgUpdateParams_enc aenc (api_of_update C D \<lparr>Authority = a, mup_Params = p\<rparr>) =
      MsgUpdateParams_enc cenc denc \<lparr>Authority = a, mup_Params = p\<rparr>"
    "api_QueryParamsResponse_enc aenc (api_of_response C D \<lparr>qpr_Params = p\<rparr>) = QueryParamsResponse_enc cenc denc \<lparr>qpr_Params = p\<rparr>"
    "api_GenesisState_enc aenc (api_of_genesis C D \<lparr>gs_Params = p\<rparr>) = GenesisState_enc cenc denc \<lparr>gs_Params = p\<rparr>"
    by (simp_all add: api_MsgUpdateParams_enc_def api_of_update_def MsgUpdateParams_enc_def sub_enc_def delim_enc_def w(1)
        api_QueryParamsResponse_enc_def api_of_response_def QueryParamsResponse_enc_def
        api_GenesisState_enc_def api_of_genesis_def GenesisState_enc_def)
  show "api_MsgUpdateParams_ok rt discard aok aenc (api_of_update C D \<lparr>Authority = a, mup_Params = p\<rparr>)"
    using l unfolding api_MsgUpdateParams_ok_def e(1) by (simp add: api_of_update_def opt_ok_def kept_none w(2))
  have "length (QueryParamsResponse_enc cenc denc \<lparr>qpr_Params = p\<rparr>) < 2 ^ 60" "length (GenesisState_enc cenc denc \<lparr>gs_Params = p\<rparr>) < 2 ^ 60"
    using l by (simp_all add: QueryParamsResponse_enc_def GenesisState_enc_def MsgUpdateParams_enc_def split: if_splits)
  then show "api_QueryParamsResponse_ok rt discard aok aenc (api_of_response C D \<lparr>qpr_Params = p\<rparr>)"
    "api_GenesisState_ok rt discard aok aenc (api_of_genesis C D \<lparr>gs_Params = p\<rparr>)"
    unfolding api_QueryParamsResponse_ok_def api_GenesisState_ok_def e
    by (simp_all add: api_of_response_def api_of_genesis_def opt_ok_def kept_none w(2))
qed

text \<open>Decoding the encoding, for every message.\<close>

lemma api_messages_unmarshal:
  assumes L: "runtime_laws rt" and C: "msg_laws (rt_coin rt) discard cok cenc"
  shows "api_MsgAuctionBid_ok rt discard cok cenc b \<Longrightarrow>
      api_MsgAuctionBid_unmarshal rt discard (Some api_MsgAuctionBid_Reset) (api_MsgAuctionBid_enc cenc b) = Ok (Some b)"
    and "api_MsgUpdateParams_ok rt discard cok cenc u \<Longrightarrow>
      api_MsgUpdateParams_unmarshal rt discard (Some api_MsgUpdateParams_Reset) (api_MsgUpdateParams_enc cenc u) = Ok (Some u)"
    and "api_QueryParamsResponse_ok rt discard cok cenc q \<Longrightarrow>
      api_QueryParamsResponse_unmarshal rt discard (Some api_QueryParamsResponse_Reset) (api_QueryParamsResponse_enc cenc q) = Ok (Some q)"
    and "api_GenesisState_ok rt discard cok cenc g \<Longrightarrow>
      api_GenesisState_unmarshal rt discard (Some api_GenesisState_Reset) (api_GenesisState_enc cenc g) = Ok (Some g)"
  unfolding api_MsgAuctionBid_unmarshal_def api_MsgUpdateParams_unmarshal_def api_QueryParamsResponse_unmarshal_def
    api_GenesisState_unmarshal_def
  by (intro decodes_unmarshal api_MsgAuctionBid_decodes [OF L C] api_MsgUpdateParams_decodes [OF L C]
      api_QueryParamsResponse_decodes [OF L C] api_GenesisState_decodes [OF L C];
      simp add: api_MsgAuctionBid_ok_def api_MsgUpdateParams_ok_def api_QueryParamsResponse_ok_def api_GenesisState_ok_def)+

section \<open>Properties\<close>

text \<open>
  C26: The API packages and the module agree on the wire: a bid, a parameter update, the answer to the
  parameter query and a genesis state have the same bytes in both codecs, and each side decodes them
  to its own form of the message. So a bid that a client builds with the API package reaches the module
  unchanged, and the client reads the parameters that the module sends.
\<close>

theorem api_wire_compatible:
  assumes "pb_laws P cok cenc dok denc" and "runtime_laws rt" and "msg_laws (rt_coin rt) discard aok aenc"
    and "same_text cok cenc dok denc aok aenc C D"
    and "cok (Bid b)" and "length (MsgAuctionBid_enc cenc b) < 2 ^ 60"
    and "Params_ok cok cenc dok denc p" and "EscrowAccountAddress p \<noteq> Some []"
    and "length (MsgUpdateParams_enc cenc denc \<lparr>Authority = a, mup_Params = p\<rparr>) < 2 ^ 60"
  shows "(\<exists>bz. MsgAuctionBid_Marshal (pb_coin P) b = Ok bz \<and> MsgAuctionBid_Unmarshal (pb_coin P) empty_bid bz = Ok b \<and>
       api_MsgAuctionBid_marshal rt (Some (api_of_bid C b)) None = Ok (Some bz) \<and>
       api_MsgAuctionBid_unmarshal rt discard (Some api_MsgAuctionBid_Reset) bz = Ok (Some (api_of_bid C b))) \<and>
     (let u = \<lparr>Authority = a, mup_Params = p\<rparr>
      in \<exists>bz. MsgUpdateParams_Marshal P u = Ok bz \<and> MsgUpdateParams_Unmarshal P (empty_update P) bz = Ok u \<and>
       api_MsgUpdateParams_marshal rt (Some (api_of_update C D u)) None = Ok (Some bz) \<and>
       api_MsgUpdateParams_unmarshal rt discard (Some api_MsgUpdateParams_Reset) bz = Ok (Some (api_of_update C D u))) \<and>
     (let q = \<lparr>qpr_Params = p\<rparr>
      in \<exists>bz. QueryParamsResponse_Marshal P q = Ok bz \<and>
       QueryParamsResponse_Unmarshal P \<lparr>qpr_Params = empty_params P\<rparr> bz = Ok q \<and>
       api_QueryParamsResponse_marshal rt (Some (api_of_response C D q)) None = Ok (Some bz) \<and>
       api_QueryParamsResponse_unmarshal rt discard (Some api_QueryParamsResponse_Reset) bz = Ok (Some (api_of_response C D q))) \<and>
     (let g = \<lparr>gs_Params = p\<rparr>
      in \<exists>bz. GenesisState_Marshal P g = Ok bz \<and> GenesisState_Unmarshal P (empty_genesis P) bz = Ok g \<and>
       api_GenesisState_marshal rt (Some (api_of_genesis C D g)) None = Ok (Some bz) \<and>
       api_GenesisState_unmarshal rt discard (Some api_GenesisState_Reset) bz = Ok (Some (api_of_genesis C D g)))"
proof -
  let ?u = "\<lparr>Authority = a, mup_Params = p\<rparr>" and ?q = "\<lparr>qpr_Params = p\<rparr>" and ?g = "\<lparr>gs_Params = p\<rparr>"
  have n: "norm_escrow p = p" using assms(8) by (simp add: norm_escrow_def)
  note rw = api_messages_unmarshal [OF assms(2,3)] and c = api_carriers_marshal [OF assms(2,3), where buf = None]
    and wire = api_of_carriers_wire [OF assms(4,7-9)]
  have ok: "Params_ok cok cenc dok denc (mup_Params ?u)" "Params_ok cok cenc dok denc (qpr_Params ?q)"
    "Params_ok cok cenc dok denc (gs_Params ?g)" using assms(7) by simp_all
  have l: "length (QueryParamsResponse_enc cenc denc ?q) < 2 ^ 60" "length (GenesisState_enc cenc denc ?g) < 2 ^ 60"
    using assms(9) by (simp_all add: QueryParamsResponse_enc_def GenesisState_enc_def MsgUpdateParams_enc_def split: if_splits)
  note bid = api_of_bid_wire(1) [OF assms(4-6)] api_of_bid_wire(2) [OF assms(4-6), of rt discard]
  have "MsgAuctionBid_Marshal (pb_coin P) b = Ok (MsgAuctionBid_enc cenc b)"
    using c_Marshal_eq [OF MsgAuctionBid_codec_laws [OF pb_lawsD(1) [OF assms(1)]], of b] assms(5,6)
    by (simp add: MsgAuctionBid_Marshal_def)
  moreover have "api_MsgAuctionBid_marshal rt (Some (api_of_bid C b)) None = Ok (Some (MsgAuctionBid_enc cenc b))"
    using api_MsgAuctionBid_marshal_eq [OF assms(2,3), of "api_of_bid C b" None] bid by (simp add: api_MsgAuctionBid_ok_def)
  moreover note MsgAuctionBid_Unmarshal_enc [OF pb_lawsD(1) [OF assms(1)] assms(5,6)] rw(1) [OF bid(2)] bid(1)
  moreover note MsgUpdateParams_Marshal_eq [OF assms(1) ok(1)] MsgUpdateParams_Unmarshal_enc [OF assms(1) ok(1) assms(9)]
    c(3) [OF wire(2)] rw(2) [OF wire(2)] wire(1)
  moreover note QueryParamsResponse_Marshal_eq [OF assms(1) ok(2)] QueryParamsResponse_Unmarshal_enc [OF assms(1) ok(2) l(1)]
    c(2) [OF wire(4)] rw(3) [OF wire(4)] wire(3)
  moreover note GenesisState_Marshal_eq [OF assms(1) ok(3)] GenesisState_Unmarshal_enc [OF assms(1) ok(3) l(2)]
    c(1) [OF wire(6)] rw(4) [OF wire(6)] wire(5)
  ultimately show ?thesis using n by (simp add: Let_def)
qed

text \<open>A runtime with the helpers of the module's own generated code, and coins in their form.\<close>

definition demo_runtime :: "coin pulsar_ops" where
  "demo_runtime = \<lparr>rt_Sov = sov, rt_EncodeVarint = encodeVarint, rt_Skip = skip_proto,
     rt_coin = \<lparr>mo_new = zero_coin, mo_Size = (\<lambda>c. int (length (demo_coin_enc c))),
       mo_Marshal = (\<lambda>c. Ok (demo_coin_enc c)), mo_Unmarshal = (\<lambda>_ _. demo_coin_dec)\<rparr>\<rparr>"

lemma demo_runtime_laws: "runtime_laws demo_runtime"
  using skip_loop_positive [where i = 0 and depth = 0]
  by (auto simp: runtime_laws_def demo_runtime_def writes_varint skip_proto_def simp del: skip_loop.simps)

lemma demo_runtime_coins: "msg_laws (rt_coin demo_runtime) discard demo_coin_ok demo_coin_enc"
  unfolding msg_laws_def
proof (intro allI impI)
  fix c assume "demo_coin_ok c"
  from codec_lawsD [OF pb_lawsD(1) [OF demo_pb_laws] this]
  show "length (demo_coin_enc c) < 2 ^ 60 \<and> mo_Size (rt_coin demo_runtime) c = int (length (demo_coin_enc c)) \<and>
      mo_Marshal (rt_coin demo_runtime) c = Ok (demo_coin_enc c) \<and>
      mo_Unmarshal (rt_coin demo_runtime) discard (mo_new (rt_coin demo_runtime)) (demo_coin_enc c) = Ok c"
    by (simp add: demo_runtime_def demo_pb_def)
qed

definition demo_bid_msg :: MsgAuctionBid where
  "demo_bid_msg = \<lparr>Bidder = ''bob'', Bid = \<lparr>Denom = ''stake'', Amount = Some 7\<rparr>,
     Transactions = [[1, 2], [], [3]]\<rparr>"

lemma str_bytes_bytes_str [simp]: "str_bytes (bytes_str bs) = bs"
  by (simp add: str_bytes_def bytes_str_def o_def map_idI unsigned_less [where 'a = nat, where 'b = 8, simplified])

lemma demo_same_text:
  "same_text demo_coin_ok demo_coin_enc demo_dec_ok demo_dec_enc demo_coin_ok demo_coin_enc id (\<lambda>x. bytes_str (demo_dec_enc x))"
  by (simp add: same_text_def demo_dec_enc_def)

theorem api_wire_compatible_witness:
  "\<exists>bz. MsgAuctionBid_Marshal (pb_coin demo_pb) demo_bid_msg = Ok bz \<and>
     MsgAuctionBid_Unmarshal (pb_coin demo_pb) empty_bid bz = Ok demo_bid_msg \<and>
     api_MsgAuctionBid_marshal demo_runtime (Some (api_of_bid id demo_bid_msg)) None = Ok (Some bz) \<and>
     api_MsgAuctionBid_unmarshal demo_runtime False (Some api_MsgAuctionBid_Reset) bz = Ok (Some (api_of_bid id demo_bid_msg))"
proof -
  have l: "length (MsgAuctionBid_enc demo_coin_enc demo_bid_msg) < 2 ^ 60"
    by (simp add: MsgAuctionBid_enc_def txs_enc_def demo_bid_msg_def length_chunk demo_coin_enc_def
        sov_small word_less_nat_alt)
  have u: "length (MsgUpdateParams_enc demo_coin_enc demo_dec_enc \<lparr>Authority = ''gov'', mup_Params = demo_params\<rparr>) < 2 ^ 60"
    by (simp add: MsgUpdateParams_enc_def length_chunk demo_params_length sov_small word_less_nat_alt)
  have "demo_coin_ok (Bid demo_bid_msg)" by (simp add: demo_bid_msg_def demo_coin_ok_def)
  from api_wire_compatible [OF demo_pb_laws demo_runtime_laws demo_runtime_coins demo_same_text this l demo_params_ok _ u, of False]
  show ?thesis by (simp add: demo_params_def)
qed

text \<open>
  C27: A message of the API package survives the wire: marshalling appends its bytes to the buffer of
  the caller, and decoding them gives the message back, the raw fields that this version of the
  package does not know included.
\<close>

theorem api_messages_roundtrip:
  assumes "runtime_laws rt" and "msg_laws (rt_coin rt) discard cok cenc"
    and "api_MsgAuctionBid_ok rt discard cok cenc b" and "api_MsgUpdateParams_ok rt discard cok cenc u"
    and "api_QueryParamsResponse_ok rt discard cok cenc q" and "api_GenesisState_ok rt discard cok cenc g"
  shows "(\<exists>bz. api_MsgAuctionBid_marshal rt (Some b) buf = Ok (Some (opt_bytes buf @ bz)) \<and>
       api_MsgAuctionBid_unmarshal rt discard (Some api_MsgAuctionBid_Reset) bz = Ok (Some b)) \<and>
     (\<exists>bz. api_MsgUpdateParams_marshal rt (Some u) buf = Ok (Some (opt_bytes buf @ bz)) \<and>
       api_MsgUpdateParams_unmarshal rt discard (Some api_MsgUpdateParams_Reset) bz = Ok (Some u)) \<and>
     (\<exists>bz. api_QueryParamsResponse_marshal rt (Some q) buf = Ok (Some (opt_bytes buf @ bz)) \<and>
       api_QueryParamsResponse_unmarshal rt discard (Some api_QueryParamsResponse_Reset) bz = Ok (Some q)) \<and>
     (\<exists>bz. api_GenesisState_marshal rt (Some g) buf = Ok (Some (opt_bytes buf @ bz)) \<and>
       api_GenesisState_unmarshal rt discard (Some api_GenesisState_Reset) bz = Ok (Some g))"
proof -
  have "opt_ok cok (ab_Bid b)" using assms(3) by (simp add: api_MsgAuctionBid_ok_def)
  then show ?thesis
    using api_MsgAuctionBid_marshal_eq [OF assms(1,2)] api_carriers_marshal [OF assms(1,2)] api_messages_unmarshal [OF assms(1,2)] assms(3-6)
    by blast
qed

text \<open>A bid with a field of number 7 that the package does not know, and messages without parameters.\<close>

lemma demo_raw_field:
  assumes "7 \<notin> known"
  shows "raw_field demo_runtime known [0x38, 5]"
proof -
  have t: "decode_tag ([0x38, 5] @ rest) = Ok (7, 0, 5 # rest)" for rest
    by (simp add: decode_tag_byte Let_def)
  have "rt_Skip demo_runtime ([0x38, 5] @ rest) = Ok 2" for rest
    by (simp add: demo_runtime_def skip_proto_def decode_varint_small skip_field_def)
  with t assms show ?thesis by (simp add: raw_field_def)
qed

definition demo_api_bid :: "coin api_MsgAuctionBid" where
  "demo_api_bid = (api_of_bid id demo_bid_msg)\<lparr>unknownFields := Some [0x38, 5]\<rparr>"

lemma demo_api_bid_ok: "api_MsgAuctionBid_ok demo_runtime False demo_coin_ok demo_coin_enc demo_api_bid"
proof -
  have "raw_fields demo_runtime {1, 2, 3} (Some [0x38, 5])"
    unfolding raw_fields_def by (rule exI [of _ "[[0x38, 5]]"]) (simp add: demo_raw_field)
  then show ?thesis
    by (simp add: api_MsgAuctionBid_ok_def demo_api_bid_def api_of_bid_def demo_bid_msg_def opt_ok_def kept_def demo_coin_ok_def
        api_MsgAuctionBid_enc_def delim_enc_def sub_enc_def txs_enc_def length_chunk demo_coin_enc_def sov_small word_less_nat_alt)
qed

theorem api_messages_roundtrip_witness:
  "\<exists>bz. api_MsgAuctionBid_marshal demo_runtime (Some demo_api_bid) (Some [1]) = Ok (Some (1 # bz)) \<and>
     api_MsgAuctionBid_unmarshal demo_runtime False (Some api_MsgAuctionBid_Reset) bz = Ok (Some demo_api_bid)"
proof -
  have "api_MsgUpdateParams_ok demo_runtime False demo_coin_ok demo_coin_enc api_MsgUpdateParams_Reset"
    "api_QueryParamsResponse_ok demo_runtime False demo_coin_ok demo_coin_enc api_QueryParamsResponse_Reset"
    "api_GenesisState_ok demo_runtime False demo_coin_ok demo_coin_enc api_GenesisState_Reset"
    by (simp_all add: api_MsgUpdateParams_ok_def api_MsgUpdateParams_Reset_def api_MsgUpdateParams_enc_def
        api_QueryParamsResponse_ok_def api_QueryParamsResponse_Reset_def api_QueryParamsResponse_enc_def
        api_GenesisState_ok_def api_GenesisState_Reset_def api_GenesisState_enc_def kept_none opt_ok_def delim_enc_def sub_enc_def)
  from api_messages_roundtrip [OF demo_runtime_laws demo_runtime_coins demo_api_bid_ok this, of "Some [1]"]
  show ?thesis by simp
qed


text \<open>
  C25: The messages of the vote extensions survive the wire: the registry is decoded to the map that was
  marshalled, in whatever order the runtime visits its keys, and unknown fields are kept. With the
  option \<open>Deterministic\<close> the bytes depend on the map only, not on the order of the visit.
\<close>

theorem vote_extension_roundtrip:
  assumes "runtime_laws rt" and "visits_all ord'" and "visits_all ord"
    and "api_AuctionInfo_ok rt discard a" and "api_VoteExtensionInfo_ok rt discard ord det m"
  shows "(\<exists>bz. api_AuctionInfo_marshal rt (Some a) buf = Ok (Some (opt_bytes buf @ bz)) \<and>
       api_AuctionInfo_unmarshal rt discard (Some api_AuctionInfo_Reset) bz = Ok (Some a)) \<and>
     (\<exists>bz m'. api_VoteExtensionInfo_marshal rt ord' ord det (Some m) buf = Ok (Some (opt_bytes buf @ bz)) \<and>
       api_VoteExtensionInfo_unmarshal rt discard (Some api_VoteExtensionInfo_Reset) bz = Ok (Some m') \<and>
       registry_map m' = registry_map m \<and> unknownFields m' = unknownFields m) \<and>
     (\<forall>n ord1 ord2. visits_all ord1 \<longrightarrow> visits_all ord2 \<longrightarrow> distinct (map fst (opt_list (vx_Registry n))) \<longrightarrow>
       registry_map n = registry_map m \<longrightarrow> unknownFields n = unknownFields m \<longrightarrow>
       api_VoteExtensionInfo_marshal rt ord1 ord2 True (Some n) buf = api_VoteExtensionInfo_marshal rt ord' ord True (Some m) buf)"
proof (intro conjI allI impI)
  have "decodes (api_AuctionInfo_field rt discard) (length (api_AuctionInfo_enc a)) api_AuctionInfo_Reset (api_AuctionInfo_enc a) a"
    using assms(4) by (intro api_AuctionInfo_decodes [OF assms(1)]) (simp_all add: api_AuctionInfo_ok_def)
  then show "\<exists>bz. api_AuctionInfo_marshal rt (Some a) buf = Ok (Some (opt_bytes buf @ bz)) \<and>
       api_AuctionInfo_unmarshal rt discard (Some api_AuctionInfo_Reset) bz = Ok (Some a)"
    unfolding api_AuctionInfo_unmarshal_def
    by (intro exI [of _ "api_AuctionInfo_enc a"] conjI api_AuctionInfo_marshal_eq [OF assms(1)] decodes_unmarshal)
  show "\<exists>bz m'. api_VoteExtensionInfo_marshal rt ord' ord det (Some m) buf = Ok (Some (opt_bytes buf @ bz)) \<and>
       api_VoteExtensionInfo_unmarshal rt discard (Some api_VoteExtensionInfo_Reset) bz = Ok (Some m') \<and>
       registry_map m' = registry_map m \<and> unknownFields m' = unknownFields m"
    using api_VoteExtensionInfo_marshal_eq [OF assms(1-3)] api_VoteExtensionInfo_unmarshal_enc [OF assms(1,3,5)] by blast
  fix n ord1 ord2
  assume n: "visits_all ord1" "visits_all ord2" "distinct (map fst (opt_list (vx_Registry n)))"
    "registry_map n = registry_map m" "unknownFields n = unknownFields m"
  have "api_VoteExtensionInfo_enc ord2 True n = api_VoteExtensionInfo_enc ord True m"
    using deterministic_enc [OF n(2) assms(3) n(3) _ n(4,5)] assms(5) by (simp add: api_VoteExtensionInfo_ok_def)
  then show "api_VoteExtensionInfo_marshal rt ord1 ord2 True (Some n) buf = api_VoteExtensionInfo_marshal rt ord' ord True (Some m) buf"
    by (simp add: api_VoteExtensionInfo_marshal_eq [OF assms(1-3)] api_VoteExtensionInfo_marshal_eq [OF assms(1) n(1,2)])
qed

definition demo_votes :: api_VoteExtensionInfo where
  "demo_votes = \<lparr>unknownFields = Some [0x38, 5], vx_Registry = Some [(''b'', Some [2]), (''a'', None)]\<rparr>"

theorem vote_extension_roundtrip_witness:
  "\<exists>bz m'. api_VoteExtensionInfo_marshal demo_runtime rev rev True (Some demo_votes) None = Ok (Some bz) \<and>
     api_VoteExtensionInfo_unmarshal demo_runtime False (Some api_VoteExtensionInfo_Reset) bz = Ok (Some m') \<and>
     registry_map m' ''a'' = Some [] \<and> registry_map m' ''b'' = Some [2] \<and> unknownFields m' = Some [0x38, 5]"
proof -
  have v: "visits_all rev" by (simp add: visits_all_def)
  have "raw_fields demo_runtime {2} (Some [0x38, 5])"
    unfolding raw_fields_def by (rule exI [of _ "[[0x38, 5]]"]) (simp add: demo_raw_field)
  then have m: "api_VoteExtensionInfo_ok demo_runtime False rev True demo_votes"
    by (simp add: api_VoteExtensionInfo_ok_def demo_votes_def kept_def api_VoteExtensionInfo_enc_def registry_enc_def wire_keys_def
        entry_enc_def go_lookup_def length_chunk sov_small word_less_nat_alt)
  have a: "api_AuctionInfo_ok demo_runtime False api_AuctionInfo_Reset"
    by (simp add: api_AuctionInfo_ok_def api_AuctionInfo_Reset_def kept_none api_AuctionInfo_enc_def delim_enc_def)
  have r: "registry_map demo_votes ''a'' = Some []" "registry_map demo_votes ''b'' = Some [2]" "unknownFields demo_votes = Some [0x38, 5]"
    by (simp_all add: registry_map_def demo_votes_def)
  from vote_extension_roundtrip [OF demo_runtime_laws v v a m, of None] show ?thesis
    by (elim conjE exE) (intro exI conjI; (assumption | simp add: r))
qed

text \<open>
  The length of a key is compared with the end of the input, not with the end of its entry: here an
  entry of two bytes takes the following field for its key, which is then decoded once more.
\<close>

lemma entry_reads_past_its_end:
  "api_VoteExtensionInfo_unmarshal demo_runtime False (Some api_VoteExtensionInfo_Reset) [0x12, 2, 0x0a, 2, 0x38, 5] =
     Ok (Some \<lparr>unknownFields = Some [0x38, 5], vx_Registry = Some [(bytes_str [0x38, 5], None)]\<rparr>)"
  by code_simp


lemma demo_coin_quiet: "c_Unmarshal (pb_coin demo_pb) x bz \<noteq> Panic s" "pb_dec_Unmarshal demo_pb d bz \<noteq> Panic s"
  "demo_coin_dec bz \<noteq> Panic s"
  by (auto simp: demo_pb_def demo_coin_dec_def split: list.splits)


end
