(* ===== verification/Spec2Isabelle.thy ===== *)
theory Spec2Isabelle
  imports Lane_Order Check_Tx Bb_Mempool Builder_Ante Builder_Msg_Correct Builder_Module Builder_Cli Pulsar_Props
begin

text \<open>
  A verification development of the Protocol-Owned Builder: an auction for the top of the block,
  built from the mempool and proposal framework \<^verbatim>\<open>blockbuster\<close> and the module \<^verbatim>\<open>x/builder\<close>.

  \<^bold>\<open>The program.\<close> The application mempool is a registry of lanes (\<^verbatim>\<open>blockbuster/mempool.go\<close>); a
  lane is a mempool with handlers that select, verify and order its part of a block
  (\<^verbatim>\<open>lane_*.go\<close>, \<^verbatim>\<open>lanes/\<close>). The proposal handlers (\<^verbatim>\<open>abci/abci.go\<close>) chain the lanes: to prepare
  a block each lane in turn adds its transactions to the shared proposal (\<^verbatim>\<open>proposals.go\<close>), on a
  cached state that is dropped if the lane fails; to process a block each lane verifies a front
  part of what the lanes before it left. The auction lane puts the winning bid with its bundle
  of transactions at the top of the block. Bids are admitted by the \<open>CheckTx\<close> handler and the ante
  decorator, which ask the keeper of the module whether a bid is valid; executing a bid
  message moves the bid to the proposer and the escrow account.

  \<^bold>\<open>Theories and what they model.\<close>
  \<^item> \<open>Prelude\<close>: the outcome of a Go call (a value, an error, a panic), 64-bit integers with their
    wrap-around, byte strings, hexadecimal encoding. \<open>Sdk\<close>: coins, decimals, transactions,
    contexts and stores of the Cosmos SDK as the code sees them. The SDK, SHA-256 and the skip
    lists are not in the repository: they are records of operations passed as arguments, with
    their documented behaviour in predicates (\<open>dec_laws\<close>, \<open>coin_laws\<close>, \<open>pb_laws\<close>, \<open>coins_laws\<close>,
    \<open>bank_laws\<close>, \<open>json_laws\<close>, \<open>skiplist_laws\<close>) that are hypotheses of the theorems that use them.
    Concrete records that satisfy them serve in the instances.
  \<^item> \<open>Bb_Utils\<close> (\<^verbatim>\<open>blockbuster/utils\<close>), \<open>Proposal\<close> (\<^verbatim>\<open>proposals.go\<close>): hashes, byte limits, the proposal
    with its accounting. \<open>UpdateProposal\<close> is atomic, keeps the accounting and the cache exact and
    respects the limits.
  \<^item> \<open>Lane\<close> (\<^verbatim>\<open>types.go\<close>, \<^verbatim>\<open>lane_interface.go\<close>, \<^verbatim>\<open>lane_constructor.go\<close>, \<^verbatim>\<open>lane_handlers.go\<close>,
    \<^verbatim>\<open>lane_abci.go\<close>) and \<open>Lane_Correct\<close>: the record \<open>LaneConstructor\<close>, its default handlers as
    recursive loops over the mempool's order, and its ABCI methods. What the default handlers
    select, that processing agrees with preparing, and what the order check accepts.
  \<^item> \<open>Terminator\<close>, \<open>Abci\<close>, \<open>Abci_Correct\<close> (\<^verbatim>\<open>lanes/terminator\<close>, \<^verbatim>\<open>abci/abci.go\<close>): the chain of
    lanes, over the interface \<open>Lane_methods\<close>. The contract of a lane that prepares is the locale
    \<open>preparing_lanes\<close>, interpreted on the lanes of the repository. No lane can make the preparation
    of a block fail or exceed the limit; what an accepted block looks like.
  \<^item> \<open>Lane_Mempool\<close> (\<^verbatim>\<open>lane_mempool.go\<close>), \<open>Bb_Mempool\<close> (\<^verbatim>\<open>mempool.go\<close>): the mempool of a lane with
    its hash cache, and the registry. The contract of the former is the locale \<open>lane_pool\<close>. Lanes
    created with \<open>mutex\<close> are disjoint.
  \<^item> \<open>Skiplist\<close>, \<open>Priority_Nonce\<close>, \<open>Priority_Nonce_Correct\<close>, \<open>Priority_Nonce_Select\<close>,
    \<open>Priority_Nonce_Props\<close> (\<^verbatim>\<open>priority_nonce.go\<close>): the index behind the mempool of a lane, one list by
    priority and one per sender by nonce. \<open>Skiplist\<close> has the contract of the lists and a reference
    implementation by sorted association lists. The abstract state (\<open>entries\<close>) maps sender and nonce
    to an entry; \<open>PN_repr\<close> relates the four data structures of the mempool to it. The comparison of
    priorities need be a linear order only on the set \<open>X\<close> of priorities that are inserted (\<open>fits\<close>):
    fee strings of several denominations are not ordered linearly. Insertion and
    removal refine the operations on the map, every reachable mempool (\<open>PN_reach\<close>) is well-formed
    and within its cap, and the iterator, modelled with its cursors, yields every transaction once,
    by nonce for each sender and by priority if each sender has one, as long as the keys of the
    sender indices are current; a replaced transaction of changed priority breaks that.
  \<^item> \<open>Lane_Mempool_Correct\<close>: the lane mempool on this index. Their contract is the locale \<open>tx_index\<close>;
    the cache of hashes covers the index.
  \<^item> \<open>Auction\<close>, \<open>Auction_Correct\<close>, \<open>Check_Tx\<close> (\<^verbatim>\<open>lanes/auction\<close>, \<^verbatim>\<open>lanes/base\<close>, \<^verbatim>\<open>lanes/free\<close>): the
    auction lane. The first valid bid wins; what the lane prepares it also accepts; exactly which
    blocks pass the order check; an admitted bid was verified with its bundle.
  \<^item> \<open>Agreement\<close>: the whole block. What it takes for the lanes of two nodes to agree is the locale
    \<open>agreeing_lanes\<close>, interpreted on the default and the auction lane: a prepared block is accepted,
    segment by segment, by every node with the same lanes and state, whatever its mempools hold.
  \<^item> \<open>Lane_Order\<close>: lanes on the priority nonce mempool, with fees and bids of one denomination. The
    highest valid bid of the mempool wins the auction; with one transaction per sender the
    default lane accepts what it prepared, with two of one sender it may refuse it.
  \<^item> \<open>Builder_Types\<close>, \<open>Builder_Keeper\<close>, \<open>Builder_Keeper_Correct\<close>, \<open>Builder_Msg\<close>,
    \<open>Builder_Msg_Correct\<close>, \<open>Builder_Ante\<close> (\<^verbatim>\<open>x/builder\<close>): parameters, keeper, message server and ante
    decorator. Which bids and bundles are valid, that the parameter store behaves as one variable
    (locale \<open>param_store\<close>), that an executed bid moves exactly its amount, that only the authority
    updates the parameters, and that block execution does not depend on the local mempool.
    \<open>Builder_Module\<close> (\<^verbatim>\<open>module.go\<close>): the genesis methods of the module and its construction;
    parameters survive an export and an import of the genesis state. \<open>Builder_Cli\<close> (\<^verbatim>\<open>client/cli\<close>):
    the commands; a bundle on the command line becomes the bundle of the message.
  \<^item> \<open>Proto\<close>, \<open>Genesis_Pb\<close>, \<open>Genesis_Pb_Correct\<close>, \<open>Tx_Pb\<close>, \<open>Tx_Pb_Correct\<close> (\<^verbatim>\<open>types/*.pb.go\<close>): the
    generated codecs, down to the index arithmetic of the buffers and the varint loops. What they
    write and decode; no input makes a decoder panic or loop (locale \<open>field_decoder\<close>).
  \<^item> \<open>Pulsar\<close>, \<open>Pulsar_Genesis\<close>, \<open>Pulsar_Tx\<close> (\<^verbatim>\<open>api/pob/builder\<close>), \<open>Pulsar_Abci\<close> (\<^verbatim>\<open>api/pob/abci\<close>): the generated
    packages with which clients build and read the messages, their reflection methods and their
    codec, which writes backwards into a buffer and keeps unknown fields. \<open>Pulsar_Correct\<close>,
    \<open>Pulsar_Abci_Correct\<close>, \<open>Pulsar_Total\<close>, \<open>Pulsar_Reflect\<close>, \<open>Pulsar_Props\<close>: a reflected message obeys the
    locale \<open>reflected_message\<close>, so generic code can copy it; messages survive the wire with their
    unknown fields; the packages and the codecs of the module agree on the bytes; the registry of
    the vote extensions, a map, has one deterministic encoding; the decoders of the packages and of
    the module end on every input. The protobuf runtime and the API form of a coin are parameters
    (\<open>runtime_laws\<close>, \<open>msg_laws\<close>, \<open>quiet_runtime\<close>), as is the order in which Go visits the keys of a map.
  \<^item> \<open>Demo\<close>: a small concrete lane for the instances.

  \<^bold>\<open>State and effects.\<close> A handler that mutates an object returns its new value; a context carries the
  content of its store, \<open>CacheContext\<close> copies it and \<open>cache_write\<close> writes it back. Closures over a
  lane take the lane's current core. Error messages keep their fixed part only, and loggers have no
  content. A panic is a value of the outcome type, recovered where the code recovers.

  \<^bold>\<open>Loops.\<close> Loops over slices and iterators are structural recursions. The chain of lanes recurses on
  its length (\<open>prepare_chain\<close>); the loop over encoded fields and the loop that skips a field take as
  fuel the number of bytes (plus one for the latter), which is enough because every round consumes
  a byte: \<open>loop_no_Panic\<close> and \<open>skip_loop_fuel\<close> show that the fuel never runs out. The iterator of the
  priority nonce mempool recurses on the nodes ahead; \<open>walk\<close>, which collects what it yields, takes as
  fuel the number of transactions, which is enough by \<open>walk_spec\<close> (every step serves one).
  The loop over an entry of a map takes the number of bytes left, which is enough by
  \<open>entry_loop_no_Panic\<close>.

  \<^bold>\<open>Not modelled.\<close> The gRPC plumbing and descriptors of the generated files, the registration of
  services, codecs, routes and commands with the SDK runtime, the gRPC gateway, the test application
  and the mocks. Of the generated \<^verbatim>\<open>api/\<close> packages the descriptors, the type registration with the slow
  reflection behind it, and \<^verbatim>\<open>Truncate\<close>, which depends on the capacity of a slice.
\<close>

end
